(* ===== verification/Prelude.thy ===== *)
theory Prelude
  imports Main "HOL-Library.Char_ord" "HOL-Library.List_Lexorder" "HOL-Library.Option_ord"
begin

text \<open>
  Generic material shared by the components: the theorem collections of the development,
  machine integers (\<open>i32\<close> and \<open>i64\<close> as integers with the wrap-around written out), the
  string operations the Rust code uses (a string is the list of its UTF-8 bytes), and
  lemmas on lists used as database tables (rows in insertion order, unique keys).
\<close>

named_theorems stmt_pres \<open>statements keep the schema invariant\<close>
named_theorems sm_rules \<open>rules of the session monad\<close>
named_theorems row_simps \<open>decoding of result rows\<close>

section \<open>Machine integers\<close>

text \<open>\<open>as i32\<close>: the low 32 bits, read as two's complement.\<close>

definition wrap32 :: "int \<Rightarrow> int" where
  "wrap32 x = (x + 2147483648) mod 4294967296 - 2147483648"

definition is_i32 :: "int \<Rightarrow> bool" where
  "is_i32 x \<longleftrightarrow> -2147483648 \<le> x \<and> x \<le> 2147483647"

definition is_i64 :: "int \<Rightarrow> bool" where
  "is_i64 x \<longleftrightarrow> -9223372036854775808 \<le> x \<and> x \<le> 9223372036854775807"

lemma wrap32_id: "is_i32 x \<Longrightarrow> wrap32 x = x"
  by (simp add: wrap32_def is_i32_def)

lemma wrap32_range: "is_i32 (wrap32 x)"
proof -
  have "0 \<le> (x + 2147483648) mod 4294967296" "(x + 2147483648) mod 4294967296 < 4294967296"
    by simp_all
  then show ?thesis unfolding wrap32_def is_i32_def by linarith
qed

section \<open>Strings\<close>

text \<open>\<open>str::contains\<close> with a string pattern.\<close>

fun starts_with :: "string \<Rightarrow> string \<Rightarrow> bool" where
  "starts_with m [] = True"
| "starts_with [] (q # qs) = False"
| "starts_with (c # cs) (q # qs) = (c = q \<and> starts_with cs qs)"

fun contains :: "string \<Rightarrow> string \<Rightarrow> bool" where
  "contains [] p = (p = [])"
| "contains (c # cs) p = (starts_with (c # cs) p \<or> contains cs p)"

lemma starts_with_iff: "starts_with m p \<longleftrightarrow> (\<exists>b. m = p @ b)"
  by (induction m p rule: starts_with.induct) auto

lemma contains_iff: "contains m p \<longleftrightarrow> (\<exists>a b. m = a @ p @ b)"
proof (induction m)
  case Nil
  then show ?case by auto
next
  case (Cons c cs)
  have "(\<exists>a b. c # cs = a @ p @ b) \<longleftrightarrow> (\<exists>b. c # cs = p @ b) \<or> (\<exists>a b. cs = a @ p @ b)"
    by (metis append_Cons append_Nil list.exhaust list.inject)
  then show ?case using Cons.IH by (simp add: starts_with_iff)
qed

lemma contains_append: "contains (a @ p @ b) p"
  by (auto simp: contains_iff)

text \<open>
  \<open>str::to_lowercase\<close> on the messages that reach it: the ASCII letters are mapped, every
  other byte is kept.
\<close>

definition lower_char :: "char \<Rightarrow> char" where
  "lower_char c = (let n = (of_char c :: nat) in if 65 \<le> n \<and> n \<le> 90 then char_of (n + 32) else c)"

definition to_lowercase :: "string \<Rightarrow> string" where
  "to_lowercase = map lower_char"

text \<open>Decimal rendering of an integer, as Rust's \<open>Display\<close> writes it.\<close>

definition digit_char :: "nat \<Rightarrow> char" where
  "digit_char n = char_of (48 + n)"

fun nat_str :: "nat \<Rightarrow> string" where
  "nat_str n = (if n < 10 then [digit_char n] else nat_str (n div 10) @ [digit_char (n mod 10)])"

declare nat_str.simps [simp del]

definition int_str :: "int \<Rightarrow> string" where
  "int_str i = (if i < 0 then CHR ''-'' # nat_str (nat (- i)) else nat_str (nat i))"

text \<open>
  \<open>str::chars\<close>: the bytes grouped into Unicode scalar values. A byte of the form
  \<open>10xxxxxx\<close> continues the character that the byte before it belongs to.
\<close>

definition is_cont :: "char \<Rightarrow> bool" where
  "is_cont c = (let n = (of_char c :: nat) in 128 \<le> n \<and> n < 192)"

fun utf8_chars :: "string \<Rightarrow> string list" where
  "utf8_chars [] = []"
| "utf8_chars (c # cs) =
     (case utf8_chars cs of
        [] \<Rightarrow> [[c]]
      | g # gs \<Rightarrow> (case g of
            [] \<Rightarrow> [c] # gs
          | b # _ \<Rightarrow> (if is_cont b then (c # g) # gs else [c] # g # gs)))"

lemma concat_utf8_chars: "concat (utf8_chars s) = s"
  by (induction s) (auto split: list.splits)

section \<open>Tables as lists of rows\<close>

text \<open>At most one row has a given key: the first match is the only one.\<close>

lemma find_Some_iff_key:
  assumes "distinct (map k xs)"
  shows "find (\<lambda>x. k x = i) xs = Some r \<longleftrightarrow> r \<in> set xs \<and> k r = i"
  using assms by (induction xs) auto

lemma find_None_iff_key: "find (\<lambda>x. k x = i) xs = None \<longleftrightarrow> i \<notin> k ` set xs"
  by (auto simp: find_None_iff)

lemma find_key_cong:
  "(\<And>x. x \<in> set xs \<Longrightarrow> P x = Q x) \<Longrightarrow> find P xs = find Q xs"
  by (induction xs) auto

lemma find_append:
  "find P (xs @ ys) = (case find P xs of Some x \<Rightarrow> Some x | None \<Rightarrow> find P ys)"
  by (induction xs) auto

lemma find_key_map:
  assumes "\<And>x. k (f x) = k x"
  shows "find (\<lambda>x. k x = i) (map f xs) = map_option f (find (\<lambda>x. k x = i) xs)"
  using assms by (induction xs) auto

lemma find_key_filter:
  assumes "distinct (map k xs)"
  shows "find (\<lambda>x. k x = i) (filter P xs) =
    (case find (\<lambda>x. k x = i) xs of Some x \<Rightarrow> if P x then Some x else None | None \<Rightarrow> None)"
  using assms
proof (induction xs)
  case Nil
  then show ?case by simp
next
  case (Cons a xs)
  have "k a = i \<Longrightarrow> find (\<lambda>x. k x = i) (filter P xs) = None"
    using Cons.prems by (simp add: find_None_iff) (metis image_eqI)
  then show ?case using Cons by auto
qed

lemma distinct_map_filter_key: "distinct (map k xs) \<Longrightarrow> distinct (map k (filter P xs))"
  by (induction xs) auto

lemma sorted_wrt_append_last:
  "sorted_wrt (<) (xs :: int list) \<Longrightarrow> (\<And>x. x \<in> set xs \<Longrightarrow> x < y) \<Longrightarrow> sorted_wrt (<) (xs @ [y])"
  by (simp add: sorted_wrt_append)

lemma sorted_wrt_filter_map:
  "sorted_wrt (<) (map f xs :: int list) \<Longrightarrow> sorted_wrt (<) (map f (filter P xs))"
  by (induction xs) auto

end
