(* ===== verification/Digraph.thy ===== *)
theory Digraph
  imports Prelude
begin

text \<open>
  Finite directed graphs as lists of edges, and the two ways the SQL of the program walks
  them: a recursive query with \<open>UNION\<close>, which drops rows it has already produced and so
  always ends, and one with \<open>UNION ALL\<close>, which does not. The interface that the schema
  relies on is the locale \<open>reach_closure\<close>.
\<close>

section \<open>Worklist closure: WITH RECURSIVE ... UNION\<close>

definition succs :: "('a \<times> 'a) list \<Rightarrow> 'a \<Rightarrow> 'a list" where
  "succs es x = map snd (filter (\<lambda>e. fst e = x) es)"

lemma set_succs [simp]: "y \<in> set (succs es x) \<longleftrightarrow> (x, y) \<in> set es"
  by (force simp: succs_def)

text \<open>
  One row is taken from the queue, added to the result unless it is there already, and
  the rows the recursive term derives from it are appended to the queue.
\<close>

function closure :: "('a \<times> 'a) list \<Rightarrow> 'a list \<Rightarrow> 'a list \<Rightarrow> 'a list" where
  "closure es [] seen = seen"
| "closure es (x # q) seen =
     (if x \<in> set seen then closure es q seen
      else closure es (q @ succs es x) (seen @ [x]))"
  by pat_completeness auto

lemma closure_measure:
  assumes "x \<notin> set seen"
  shows "card ((set (map fst es) \<union> {x}) - set seen) > 0"
  using assms by (simp add: card_gt_0_iff)

text \<open>
  Termination: a row that is new and has a successor uses up one of the finitely many
  edge sources; otherwise the queue gets shorter.
\<close>

termination closure
proof (relation "(\<lambda>(es, q, seen). card (fst ` set es - set seen)) <*mlex*> measure (\<lambda>(es, q, seen). length q)")
  show "wf ((\<lambda>(es, q, seen). card (fst ` set es - set seen)) <*mlex*> measure (\<lambda>(es, q :: 'a list, seen :: 'a list). length q))"
    by (simp add: wf_mlex)
next
  fix es :: "('a \<times> 'a) list" and x q and seen :: "'a list"
  assume "x \<in> set seen"
  then show "((es, q, seen), (es, x # q, seen)) \<in>
    (\<lambda>(es, q, seen). card (fst ` set es - set seen)) <*mlex*> measure (\<lambda>(es, q, seen). length q)"
    by (simp add: mlex_iff)
next
  fix es :: "('a \<times> 'a) list" and x q and seen :: "'a list"
  assume new: "x \<notin> set seen"
  show "((es, q @ succs es x, seen @ [x]), (es, x # q, seen)) \<in>
    (\<lambda>(es, q, seen). card (fst ` set es - set seen)) <*mlex*> measure (\<lambda>(es, q, seen). length q)"
  proof (cases "x \<in> fst ` set es")
    case True
    then have "fst ` set es - set (seen @ [x]) \<subset> fst ` set es - set seen"
      using new by auto
    then have "card (fst ` set es - set (seen @ [x])) < card (fst ` set es - set seen)"
      by (intro psubset_card_mono) auto
    then show ?thesis by (simp add: mlex_iff)
  next
    case False
    then have "succs es x = []"
      by (force simp: succs_def filter_empty_conv)
    moreover have "fst ` set es - set (seen @ [x]) = fst ` set es - set seen"
      using False by auto
    ultimately show ?thesis by (simp add: mlex_iff)
  qed
qed

lemma closure_seen: "set seen \<subseteq> set (closure es q seen)"
  by (induction es q seen rule: closure.induct) auto

lemma closure_queue: "set q \<subseteq> set (closure es q seen)"
proof (induction es q seen rule: closure.induct)
  case (1 es seen)
  then show ?case by simp
next
  case (2 es x q seen)
  then show ?case
    using closure_seen [of seen es q] closure_seen [of "seen @ [x]" es "q @ succs es x"] by auto
qed

lemma closure_sound:
  "set (closure es q seen) \<subseteq> set seen \<union> (set es)\<^sup>* `` set q"
proof (induction es q seen rule: closure.induct)
  case (1 es seen)
  then show ?case by simp
next
  case (2 es x q seen)
  show ?case
  proof (cases "x \<in> set seen")
    case True
    then show ?thesis using 2 by auto
  next
    case False
    have "(set es)\<^sup>* `` set (succs es x) \<subseteq> (set es)\<^sup>* `` {x}"
      by (auto intro: converse_rtrancl_into_rtrancl)
    then have "(set es)\<^sup>* `` (set q \<union> set (succs es x)) \<subseteq> (set es)\<^sup>* `` insert x (set q)"
      by auto
    then have sub: "set seen \<union> {x} \<union> (set es)\<^sup>* `` (set q \<union> set (succs es x))
        \<subseteq> set seen \<union> (set es)\<^sup>* `` insert x (set q)"
      by blast
    have "set (closure es (q @ succs es x) (seen @ [x]))
        \<subseteq> set seen \<union> {x} \<union> (set es)\<^sup>* `` (set q \<union> set (succs es x))"
      using "2.IH"(2) [OF False] by simp
    with sub have "set (closure es (q @ succs es x) (seen @ [x]))
        \<subseteq> set seen \<union> (set es)\<^sup>* `` insert x (set q)"
      by (rule order_trans [rotated])
    then show ?thesis using False by simp
  qed
qed

text \<open>The loop invariant: the successors of every row produced are produced or queued.\<close>

lemma closure_closed:
  assumes "set es `` set seen \<subseteq> set seen \<union> set q"
  shows "set es `` set (closure es q seen) \<subseteq> set (closure es q seen)"
  using assms
proof (induction es q seen rule: closure.induct)
  case (1 es seen)
  then show ?case by simp
next
  case (2 es x q seen)
  show ?case
  proof (cases "x \<in> set seen")
    case True
    then show ?thesis using 2 by auto
  next
    case False
    have "set es `` set (seen @ [x]) \<subseteq> set (seen @ [x]) \<union> set (q @ succs es x)"
      using "2.prems" by auto
    then show ?thesis using 2 False by simp
  qed
qed

lemma closure_eq: "set (closure es q []) = (set es)\<^sup>* `` set q"
proof
  show "set (closure es q []) \<subseteq> (set es)\<^sup>* `` set q"
    using closure_sound [of es q "[]"] by simp
next
  let ?C = "set (closure es q [])"
  have closed: "set es `` ?C \<subseteq> ?C"
    by (rule closure_closed) simp
  show "(set es)\<^sup>* `` set q \<subseteq> ?C"
  proof
    fix y
    assume "y \<in> (set es)\<^sup>* `` set q"
    then obtain x where "(x, y) \<in> (set es)\<^sup>*" and "x \<in> set q" by auto
    then show "y \<in> ?C"
    proof (induction rule: rtrancl_induct)
      case base
      then show ?case using closure_queue [of q es "[]"] by auto
    next
      case (step y z)
      then show ?case using closed by auto
    qed
  qed
qed

lemma closure_distinct: "distinct seen \<Longrightarrow> distinct (closure es q seen)"
  by (induction es q seen rule: closure.induct) auto

section \<open>The interface of a reachability query\<close>

text \<open>
  What the schema relies on: a function that returns, for a list of edges and a start
  node, the rows reachable from it. A guard that refuses an edge whose source is among
  the rows reachable from its target keeps the graph acyclic.
\<close>

locale reach_closure =
  fixes reach :: "('a \<times> 'a) list \<Rightarrow> 'a \<Rightarrow> 'a list"
  assumes reach_set: "set (reach es x) = {y. (x, y) \<in> (set es)\<^sup>*}"
begin

lemma reach_refl: "x \<in> set (reach es x)"
  by (simp add: reach_set)

lemma reach_step: "y \<in> set (reach es x) \<Longrightarrow> (y, z) \<in> set es \<Longrightarrow> z \<in> set (reach es x)"
  by (auto simp: reach_set)

lemma guard_keeps_acyclic:
  assumes "acyclic (set es)" and "a \<notin> set (reach es b)"
  shows "acyclic (insert (a, b) (set es))"
  using assms by (simp add: reach_set)

lemma guard_refuses_only_cycles:
  assumes "a \<in> set (reach es b)"
  shows "\<not> acyclic (insert (a, b) (set es))"
  using assms by (simp add: reach_set)

end

interpretation sql_union: reach_closure "\<lambda>es x. closure es [x] []"
  by unfold_locales (simp add: closure_eq Image_singleton del: closure.simps)

section \<open>Recursive queries without duplicate elimination: UNION ALL\<close>

text \<open>
  Every row taken from the queue goes to the result, so the walk visits a row once per path
  and does not end when it meets a cycle: \<open>None\<close> is the query that runs forever.
\<close>

partial_function (option) walk_all :: "('a \<times> 'a) list \<Rightarrow> 'a list \<Rightarrow> 'a list \<Rightarrow> 'a list option" where
  "walk_all es q out = (case q of
     [] \<Rightarrow> Some out
   | x # q' \<Rightarrow> walk_all es (q' @ succs es x) (out @ [x]))"

lemma walk_all_simps [code]:
  "walk_all es [] out = Some out"
  "walk_all es (x # q) out = walk_all es (q @ succs es x) (out @ [x])"
  by (simp_all add: walk_all.simps)

text \<open>
  In a forest the two recursions agree. \<open>forest_from\<close> is what holds of the rows already
  produced and those queued when the walk starts at the root \<open>r\<close>.
\<close>

definition forest :: "('a \<times> 'a) list \<Rightarrow> bool" where
  "forest es \<longleftrightarrow> distinct (map snd es) \<and> acyclic (set es)"

definition forest_from :: "('a \<times> 'a) list \<Rightarrow> 'a \<Rightarrow> 'a list \<Rightarrow> 'a list \<Rightarrow> bool" where
  "forest_from es r q seen \<longleftrightarrow> distinct (seen @ q) \<and>
     (\<forall>y \<in> set (seen @ q). (r, y) \<in> (set es)\<^sup>* \<and> (y = r \<or> (\<exists>p \<in> set seen. (p, y) \<in> set es)))"

lemma forest_unique_parent:
  assumes "forest es" "(p, y) \<in> set es" "(p', y) \<in> set es"
  shows "p = p'"
proof -
  have "inj_on snd (set es)" using assms(1) by (simp add: forest_def distinct_map)
  from inj_onD [OF this _ assms(2,3)] show ?thesis by simp
qed

lemma forest_distinct_succs: "forest es \<Longrightarrow> distinct (succs es x)"
  by (auto simp: forest_def succs_def distinct_map_filter_key)

lemma forest_from_step:
  assumes f: "forest es" and inv: "forest_from es r (x # q) seen"
  shows "x \<notin> set seen" "forest_from es r (q @ succs es x) (seen @ [x])"
proof -
  show new: "x \<notin> set seen" using inv by (auto simp: forest_from_def)
  have reach: "(r, x) \<in> (set es)\<^sup>*" using inv by (auto simp: forest_from_def)
  have "y \<notin> set (seen @ x # q)" if y: "(x, y) \<in> set es" for y
  proof
    assume "y \<in> set (seen @ x # q)"
    then consider "y = r" | p where "p \<in> set seen" "(p, y) \<in> set es"
      using inv by (auto simp: forest_from_def)
    then show False
    proof cases
      case 1
      then have "(r, r) \<in> (set es)\<^sup>+" using reach y by auto
      then show False using f by (simp add: forest_def acyclic_def)
    next
      case 2
      then show False using forest_unique_parent [OF f y] new by blast
    qed
  qed
  then have "distinct ((seen @ [x]) @ q @ succs es x)"
    using inv forest_distinct_succs [OF f] by (auto simp: forest_from_def)
  then show "forest_from es r (q @ succs es x) (seen @ [x])"
    using inv reach by (auto simp: forest_from_def intro: rtrancl_into_rtrancl)
qed

lemma walk_all_closure:
  assumes "forest es" "forest_from es r q seen"
  shows "walk_all es q seen = Some (closure es q seen)"
  using assms
proof (induction es q seen rule: closure.induct)
  case (1 es seen)
  then show ?case by (simp add: walk_all_simps)
next
  case (2 es x q seen)
  note step = forest_from_step [OF "2.prems"]
  show ?case
    using "2.IH"(2) [OF step(1) "2.prems"(1) step(2)] step(1) by (simp add: walk_all_simps)
qed

lemma walk_all_root: "forest es \<Longrightarrow> walk_all es [r] [] = Some (closure es [r] [])"
  by (rule walk_all_closure) (auto simp: forest_from_def)

end
