(* ===== verification/Domain_Error.thy ===== *)
theory Domain_Error
  imports Prelude
begin

text \<open>
  The error taxonomy (\<open>flowcore/src/error.rs\<close>): a transport-neutral code and the original
  message. \<open>classify\<close> is the one mapping from messages to codes; errors of the SQL engine
  (trigger texts included) and most errors of the store go through it.
\<close>

section \<open>Codes and errors\<close>

datatype code = NotFound | InvalidArgument | FailedPrecondition | Internal

fun code_as_str :: "code \<Rightarrow> string" where
  "code_as_str NotFound = ''not_found''"
| "code_as_str InvalidArgument = ''invalid_argument''"
| "code_as_str FailedPrecondition = ''failed_precondition''"
| "code_as_str Internal = ''internal''"

record domain_error =
  err_code :: code
  err_message :: string

definition new_error :: "code \<Rightarrow> string \<Rightarrow> domain_error" where
  "new_error c m = \<lparr>err_code = c, err_message = m\<rparr>"

definition not_found :: "string \<Rightarrow> domain_error" where
  "not_found m = new_error NotFound m"

definition invalid_argument :: "string \<Rightarrow> domain_error" where
  "invalid_argument m = new_error InvalidArgument m"

definition failed_precondition :: "string \<Rightarrow> domain_error" where
  "failed_precondition m = new_error FailedPrecondition m"

definition internal :: "string \<Rightarrow> domain_error" where
  "internal m = new_error Internal m"

section \<open>Classification\<close>

definition classify :: "string \<Rightarrow> code" where
  "classify message = (let m = to_lowercase message in
     if contains m ''not found'' then NotFound
     else if contains m ''update_mask cannot be empty''
       \<or> contains m ''unknown update_mask''
       \<or> contains m ''requires a target kind''
       \<or> contains m ''invalid agent result''
       \<or> contains m ''syntax error''
       \<or> contains m ''fts5'' then InvalidArgument
     else if contains m ''invalid parent kind''
       \<or> contains m ''cross-project''
       \<or> contains m ''children invalid''
       \<or> contains m ''its own parent''
       \<or> contains m ''would create a cycle''
       \<or> contains m ''has dependents''
       \<or> contains m ''work package''
       \<or> contains m ''cannot demote''
       \<or> contains m ''cannot undo'' then FailedPrecondition
     else Internal)"

definition from_db_message :: "string \<Rightarrow> domain_error" where
  "from_db_message m = \<lparr>err_code = classify m, err_message = m\<rparr>"

lemma from_db_message_sel [simp]:
  "err_code (from_db_message m) = classify m" "err_message (from_db_message m) = m"
  by (simp_all add: from_db_message_def)

section \<open>Results\<close>

text \<open>\<open>Result<T, DomainError>\<close>: \<open>Inl\<close> is \<open>Err\<close>, \<open>Inr\<close> is \<open>Ok\<close>; \<open>res_bind\<close> is the \<open>?\<close> operator.\<close>

type_synonym 'a res = "domain_error + 'a"

fun res_bind :: "'a res \<Rightarrow> ('a \<Rightarrow> 'b res) \<Rightarrow> 'b res" where
  "res_bind (Inl e) f = Inl e"
| "res_bind (Inr x) f = f x"

text \<open>\<open>.iter().map(f).collect::<Result<Vec<_>, _>>()\<close>: the first error wins.\<close>

fun collect_res :: "('a \<Rightarrow> 'b res) \<Rightarrow> 'a list \<Rightarrow> 'b list res" where
  "collect_res f [] = Inr []"
| "collect_res f (x # xs) = res_bind (f x) (\<lambda>y. res_bind (collect_res f xs) (\<lambda>ys. Inr (y # ys)))"

text \<open>\<open>Option<Result<T>>::transpose\<close> after a \<open>map\<close>.\<close>

definition transpose_res :: "('a \<Rightarrow> 'b res) \<Rightarrow> 'a option \<Rightarrow> 'b option res" where
  "transpose_res f x = (case x of None \<Rightarrow> Inr None | Some a \<Rightarrow> res_bind (f a) (\<lambda>b. Inr (Some b)))"

lemma res_bind_Inr [simp]: "res_bind r Inr = r"
  by (cases r) auto

lemma res_bind_eq_Inr: "res_bind r f = Inr y \<longleftrightarrow> (\<exists>x. r = Inr x \<and> f x = Inr y)"
  by (cases r) auto

lemma collect_res_map: "(\<And>x. x \<in> set xs \<Longrightarrow> f x = Inr (g x)) \<Longrightarrow> collect_res f xs = Inr (map g xs)"
  by (induction xs) auto

lemma collect_res_length: "collect_res f xs = Inr ys \<Longrightarrow> length ys = length xs"
  by (induction xs arbitrary: ys) (auto simp: res_bind_eq_Inr)

lemma transpose_res_simps [simp]:
  "transpose_res f None = Inr None"
  "transpose_res f (Some a) = res_bind (f a) (\<lambda>b. Inr (Some b))"
  by (simp_all add: transpose_res_def)

end
