(* ===== verification/Json.thy ===== *)
theory Json
  imports Prelude
begin

text \<open>
  JSON values, as \<open>serde_json::Value\<close> presents them. The text format itself belongs to the
  \<open>serde_json\<close> crate, which is not part of the repository: printing and parsing are
  parameters of the model (\<open>Sql_Seam\<close>), used under the hypothesis that parsing inverts
  printing on the values that \<open>json_wf\<close> admits. An object is the list of its entries in
  key order, which is how the crate keeps them.
\<close>

datatype json =
    JNull
  | JBool bool
  | JInt int
  | JFloat string
  | JStr string
  | JArr "json list"
  | JObj "(string \<times> json) list"

text \<open>\<open>Value::get\<close> with a string index, \<open>as_str\<close> and \<open>as_i64\<close>.\<close>

fun json_get :: "json \<Rightarrow> string \<Rightarrow> json option" where
  "json_get (JObj kvs) k = map_of kvs k"
| "json_get _ k = None"

fun json_as_str :: "json \<Rightarrow> string option" where
  "json_as_str (JStr s) = Some s"
| "json_as_str _ = None"

fun json_as_i64 :: "json \<Rightarrow> int option" where
  "json_as_i64 (JInt i) = (if is_i64 i then Some i else None)"
| "json_as_i64 _ = None"

fun json_as_u64 :: "json \<Rightarrow> int option" where
  "json_as_u64 (JInt i) = (if 0 \<le> i \<and> i < 18446744073709551616 then Some i else None)"
| "json_as_u64 _ = None"

text \<open>\<open>json!(option)\<close>: \<open>None\<close> is \<open>null\<close>.\<close>

fun json_of_opt :: "string option \<Rightarrow> json" where
  "json_of_opt None = JNull"
| "json_of_opt (Some s) = JStr s"

text \<open>
  The values the crate can hold and print: object keys strictly increasing, integers that
  fit \<open>i64\<close>.
\<close>

fun json_wf :: "json \<Rightarrow> bool" where
  "json_wf (JInt i) = is_i64 i"
| "json_wf (JFloat s) = False"
| "json_wf (JArr js) = (\<forall>j \<in> set js. json_wf j)"
| "json_wf (JObj kvs) = (sorted_wrt (<) (map fst kvs) \<and> (\<forall>kv \<in> set kvs. json_wf (snd kv)))"
| "json_wf _ = True"

lemma json_wf_of_opt [simp]: "json_wf (json_of_opt s)"
  by (cases s) auto

end
