(* ===== verification/Sql_Seam.thy ===== *)
theory Sql_Seam
  imports Domain_Error Json "HOL-Library.Word"
begin

text \<open>
  The SQL seam (\<open>flowcore/src/sql.rs\<close>): dynamically typed values and rows with their typed
  getters, sessions, and the \<open>transaction\<close> combinator. A session is modelled by the state of
  its connection (the live database and, inside a transaction, the database to return to),
  and store code by functions on that state that return a result: the session monad.
\<close>

section \<open>Values\<close>

text \<open>An \<open>f64\<close> is represented by the shortest decimal text that denotes it.\<close>

datatype sql_value =
    VNull
  | VInt int
  | VReal string
  | VText string
  | VBlob "8 word list"

definition value_of_i64 :: "int \<Rightarrow> sql_value" where
  "value_of_i64 v = VInt v"

definition value_of_bool :: "bool \<Rightarrow> sql_value" where
  "value_of_bool v = VInt (if v then 1 else 0)"

definition value_of_str :: "string \<Rightarrow> sql_value" where
  "value_of_str v = VText v"

fun value_of_opt_str :: "string option \<Rightarrow> sql_value" where
  "value_of_opt_str (Some s) = VText s"
| "value_of_opt_str None = VNull"

text \<open>\<open>Debug\<close> of a value, for the getters' messages (control characters by their escapes).\<close>

definition hex_digit :: "nat \<Rightarrow> char" where
  "hex_digit n = (if n < 10 then char_of (48 + n) else char_of (87 + n))"

definition escape_char :: "char \<Rightarrow> string" where
  "escape_char c = (let n = (of_char c :: nat) in
     if n = 34 \<or> n = 92 then [char_of (92::nat), c]
     else if n = 9 then [char_of (92::nat), CHR ''t'']
     else if n = 10 then [char_of (92::nat), CHR ''n'']
     else if n = 13 then [char_of (92::nat), CHR ''r'']
     else if n = 0 then [char_of (92::nat), CHR ''0'']
     else if n < 16 \<or> n = 127 \<or> n < 32 then
       [char_of (92::nat), CHR ''u'', char_of (123::nat)] @
       (if n < 16 then [hex_digit n] else [hex_digit (n div 16), hex_digit (n mod 16)]) @
       [char_of (125::nat)]
     else [c])"

fun join_with :: "string \<Rightarrow> string list \<Rightarrow> string" where
  "join_with sep [] = []"
| "join_with sep [x] = x"
| "join_with sep (x # y # ys) = x @ sep @ join_with sep (y # ys)"

fun debug_value :: "sql_value \<Rightarrow> string" where
  "debug_value VNull = ''Null''"
| "debug_value (VInt i) = ''Int('' @ int_str i @ '')''"
| "debug_value (VReal s) = ''Real('' @ s @ '')''"
| "debug_value (VText s) =
     ''Text('' @ [char_of (34::nat)] @ concat (map escape_char s) @ [char_of (34::nat)] @ '')''"
| "debug_value (VBlob bs) =
     ''Blob(['' @ join_with '', '' (map (\<lambda>b. int_str (uint b)) bs) @ ''])''"

section \<open>Rows\<close>

type_synonym row = "(string \<times> sql_value) list"

definition row_cell :: "row \<Rightarrow> string \<Rightarrow> sql_value res" where
  "row_cell r col = (case find (\<lambda>c. fst c = col) r of
     Some c \<Rightarrow> Inr (snd c)
   | None \<Rightarrow> Inl (internal (''no such column: '' @ col)))"

definition get_i64 :: "row \<Rightarrow> string \<Rightarrow> int res" where
  "get_i64 r col = res_bind (row_cell r col) (\<lambda>v. case v of
     VInt i \<Rightarrow> Inr i
   | VNull \<Rightarrow> Inr 0
   | _ \<Rightarrow> Inl (internal (col @ '': expected int, got '' @ debug_value v)))"

definition get_i32 :: "row \<Rightarrow> string \<Rightarrow> int res" where
  "get_i32 r col = res_bind (get_i64 r col) (\<lambda>i. Inr (wrap32 i))"

definition get_str :: "row \<Rightarrow> string \<Rightarrow> string res" where
  "get_str r col = res_bind (row_cell r col) (\<lambda>v. case v of
     VText s \<Rightarrow> Inr s
   | _ \<Rightarrow> Inl (internal (col @ '': expected text, got '' @ debug_value v)))"

definition get_opt_str :: "row \<Rightarrow> string \<Rightarrow> string option res" where
  "get_opt_str r col = res_bind (row_cell r col) (\<lambda>v. case v of
     VText s \<Rightarrow> Inr (Some s)
   | VNull \<Rightarrow> Inr None
   | _ \<Rightarrow> Inl (internal (col @ '': expected text/null, got '' @ debug_value v)))"

definition cell_at :: "row \<Rightarrow> nat \<Rightarrow> sql_value res" where
  "cell_at r i = (if i < length r then Inr (snd (r ! i))
     else Inl (internal (''no column at index '' @ nat_str i)))"

definition get_i64_at :: "row \<Rightarrow> nat \<Rightarrow> int res" where
  "get_i64_at r i = res_bind (cell_at r i) (\<lambda>v. case v of
     VInt n \<Rightarrow> Inr n
   | VNull \<Rightarrow> Inr 0
   | _ \<Rightarrow> Inl (internal (''col '' @ nat_str i @ '': expected int, got '' @ debug_value v)))"

definition get_str_at :: "row \<Rightarrow> nat \<Rightarrow> string res" where
  "get_str_at r i = res_bind (cell_at r i) (\<lambda>v. case v of
     VText s \<Rightarrow> Inr s
   | _ \<Rightarrow> Inl (internal (''col '' @ nat_str i @ '': expected text, got '' @ debug_value v)))"

lemma row_cell_hit [row_simps]: "row_cell ((c, v) # r) c = Inr v"
  by (simp add: row_cell_def)

lemma row_cell_skip [row_simps]: "c \<noteq> d \<Longrightarrow> row_cell ((c, v) # r) d = row_cell r d"
  by (simp add: row_cell_def)

lemmas getter_defs [row_simps] =
  get_i64_def get_i32_def get_str_def get_opt_str_def get_i64_at_def get_str_at_def cell_at_def

section \<open>The environment of an operation\<close>

text \<open>
  What an operation gets from outside the repository: the clock and the randomness that SQL
  functions read (\<open>unixepoch()\<close>, \<open>randomblob\<close>), the SQL engine's own message texts and a
  failure of \<open>COMMIT\<close>, and the JSON text format of \<open>serde_json\<close> and of \<open>json_valid\<close>. The
  clock is read once per operation.
\<close>

datatype violation =
    CheckFailed string
  | UniqueFailed string
  | ForeignKeyFailed
  | NestedBegin
  | NoTransaction
  | SequenceFull

record env =
  clock :: int
  clock_ms :: int
  rand_hex :: string
  engine_msg :: "violation \<Rightarrow> string"
  commit_error :: "string option"
  json_text :: "json \<Rightarrow> string"
  json_parse :: "string \<Rightarrow> json option"
  json_valid :: "string \<Rightarrow> bool"

definition violation_error :: "env \<Rightarrow> violation \<Rightarrow> domain_error" where
  "violation_error E v = from_db_message (engine_msg E v)"

text \<open>The hypothesis on the text format: what is printed is valid and parses back.\<close>

definition json_codec :: "env \<Rightarrow> bool" where
  "json_codec E \<longleftrightarrow>
     (\<forall>j. json_wf j \<longrightarrow> json_parse E (json_text E j) = Some j \<and> json_valid E (json_text E j)) \<and>
     json_parse E ''{}'' = Some (JObj []) \<and> json_valid E ''{}''"

section \<open>Sessions\<close>

record 'd conn =
  live :: 'd
  savepoint :: "'d option"

type_synonym ('d, 'a) sm = "'d conn \<Rightarrow> 'a res \<times> 'd conn"
type_synonym ('d, 'a) stmt = "'d \<Rightarrow> domain_error + ('a \<times> 'd)"

definition sm_return :: "'a \<Rightarrow> ('d, 'a) sm" where
  "sm_return x c = (Inr x, c)"

definition sm_throw :: "domain_error \<Rightarrow> ('d, 'a) sm" where
  "sm_throw e c = (Inl e, c)"

definition sm_bind :: "('d, 'a) sm \<Rightarrow> ('a \<Rightarrow> ('d, 'b) sm) \<Rightarrow> ('d, 'b) sm" where
  "sm_bind m f c = (case m c of (Inl e, c') \<Rightarrow> (Inl e, c') | (Inr x, c') \<Rightarrow> f x c')"

text \<open>A reading query, a pure result, and a statement: a statement that fails changes nothing.\<close>

definition read_db :: "('d \<Rightarrow> 'a res) \<Rightarrow> ('d, 'a) sm" where
  "read_db q c = (q (live c), c)"

definition lift_res :: "'a res \<Rightarrow> ('d, 'a) sm" where
  "lift_res r c = (r, c)"

definition run_stmt :: "('d, 'a) stmt \<Rightarrow> ('d, 'a) sm" where
  "run_stmt u c = (case u (live c) of Inl e \<Rightarrow> (Inl e, c) | Inr (x, d) \<Rightarrow> (Inr x, c\<lparr>live := d\<rparr>))"

text \<open>\<open>for x in xs { ... ? }\<close>, collecting the bodies' results.\<close>

fun sm_each :: "('a \<Rightarrow> ('d, 'b) sm) \<Rightarrow> 'a list \<Rightarrow> ('d, 'b list) sm" where
  "sm_each f [] = sm_return []"
| "sm_each f (x # xs) = sm_bind (f x) (\<lambda>y. sm_bind (sm_each f xs) (\<lambda>ys. sm_return (y # ys)))"

section \<open>Transactions\<close>

definition transaction ::
  "('s \<Rightarrow> unit res \<times> 's) \<Rightarrow> ('s \<Rightarrow> unit res \<times> 's) \<Rightarrow> ('s \<Rightarrow> unit res \<times> 's) \<Rightarrow>
   ('s \<Rightarrow> 'a res \<times> 's) \<Rightarrow> 's \<Rightarrow> 'a res \<times> 's" where
  "transaction tx_begin tx_commit tx_rollback f s =
     (case tx_begin s of
        (Inl e, s1) \<Rightarrow> (Inl e, s1)
      | (Inr _, s1) \<Rightarrow>
          (case f s1 of
             (Inr v, s2) \<Rightarrow>
               (case tx_commit s2 of
                  (Inl e, s3) \<Rightarrow> (Inl e, s3)
                | (Inr _, s3) \<Rightarrow> (Inr v, s3))
           | (Inl e, s2) \<Rightarrow> (Inl e, snd (tx_rollback s2))))"

text \<open>
  The interface \<open>transaction\<close> is written against: the three statements, the data a session
  shows and the data it would return to. A \<open>COMMIT\<close> may fail, and then leaves the
  transaction open.
\<close>

locale tx_driver =
  fixes tx_begin :: "'s \<Rightarrow> unit res \<times> 's"
    and tx_commit :: "'s \<Rightarrow> unit res \<times> 's"
    and tx_rollback :: "'s \<Rightarrow> unit res \<times> 's"
    and view :: "'s \<Rightarrow> 'd"
    and mark :: "'s \<Rightarrow> 'd option"
  assumes begin_idle: "mark s = None \<Longrightarrow>
      \<exists>s'. tx_begin s = (Inr (), s') \<and> view s' = view s \<and> mark s' = Some (view s)"
    and begin_busy: "mark s \<noteq> None \<Longrightarrow> \<exists>e. tx_begin s = (Inl e, s)"
    and commit_ok: "tx_commit s = (Inr u, s') \<Longrightarrow> view s' = view s \<and> mark s' = None"
    and commit_failed: "tx_commit s = (Inl e, s') \<Longrightarrow> s' = s"
    and rollback_open: "mark s = Some d \<Longrightarrow>
      view (snd (tx_rollback s)) = d \<and> mark (snd (tx_rollback s)) = None"
begin

text \<open>What survives: the live data, or the data before the open transaction.\<close>

definition durable :: "'s \<Rightarrow> 'd" where
  "durable s = (case mark s of None \<Rightarrow> view s | Some d \<Rightarrow> d)"

text \<open>A failing transaction leaves the durable data as it was.\<close>

lemma transaction_error_durable:
  assumes keeps: "\<And>s. mark (snd (f s)) = mark s"
    and err: "transaction tx_begin tx_commit tx_rollback f s = (Inl e, s')"
  shows "durable s' = durable s"
proof (cases "mark s")
  case None
  then obtain s1 where b: "tx_begin s = (Inr (), s1)" "view s1 = view s" "mark s1 = Some (view s)"
    using begin_idle by blast
  obtain r s2 where f: "f s1 = (r, s2)" by fastforce
  have m2: "mark s2 = Some (view s)" using keeps [of s1] f b by simp
  show ?thesis
  proof (cases r)
    case (Inl x)
    then have "s' = snd (tx_rollback s2)" using err b f by (simp add: transaction_def)
    then show ?thesis using rollback_open [OF m2] None by (simp add: durable_def)
  next
    case (Inr v)
    then have "\<exists>x. tx_commit s2 = (Inl x, s')"
      using err b f by (auto simp: transaction_def split: prod.splits sum.splits)
    then have "s' = s2" using commit_failed by blast
    then show ?thesis using m2 None by (simp add: durable_def)
  qed
next
  case (Some d)
  then obtain e' where "tx_begin s = (Inl e', s)" using begin_busy by blast
  then have "s' = s" using err by (simp add: transaction_def)
  then show ?thesis by simp
qed

text \<open>A transaction that succeeds has run its body between \<open>BEGIN\<close> and \<open>COMMIT\<close>.\<close>

lemma transaction_ok:
  assumes "mark s = None"
    and "transaction tx_begin tx_commit tx_rollback f s = (Inr v, s')"
  shows "\<exists>s1 s2. view s1 = view s \<and> mark s1 = Some (view s) \<and> f s1 = (Inr v, s2) \<and>
    view s' = view s2 \<and> mark s' = None"
proof -
  obtain s1 where b: "tx_begin s = (Inr (), s1)" "view s1 = view s" "mark s1 = Some (view s)"
    using begin_idle assms(1) by blast
  obtain s2 where "f s1 = (Inr v, s2)" and "\<exists>u. tx_commit s2 = (Inr u, s')"
    using assms(2) b by (auto simp: transaction_def split: prod.splits sum.splits)
  then show ?thesis using b commit_ok by blast
qed

text \<open>After a \<open>COMMIT\<close> that failed, every later transaction on the session fails at \<open>BEGIN\<close>.\<close>

lemma open_transaction_refuses:
  assumes "mark s \<noteq> None"
  shows "\<exists>e. transaction tx_begin tx_commit tx_rollback f s = (Inl e, s)"
  using begin_busy [OF assms] by (auto simp: transaction_def)

end

section \<open>The engine's transaction statements\<close>

definition sql_begin :: "env \<Rightarrow> ('d, unit) sm" where
  "sql_begin E c = (case savepoint c of
     None \<Rightarrow> (Inr (), c\<lparr>savepoint := Some (live c)\<rparr>)
   | Some _ \<Rightarrow> (Inl (violation_error E NestedBegin), c))"

definition sql_commit :: "env \<Rightarrow> ('d, unit) sm" where
  "sql_commit E c = (case savepoint c of
     None \<Rightarrow> (Inl (violation_error E NoTransaction), c)
   | Some _ \<Rightarrow> (case commit_error E of
       Some m \<Rightarrow> (Inl (from_db_message m), c)
     | None \<Rightarrow> (Inr (), c\<lparr>savepoint := None\<rparr>)))"

definition sql_rollback :: "env \<Rightarrow> ('d, unit) sm" where
  "sql_rollback E c = (case savepoint c of
     None \<Rightarrow> (Inl (violation_error E NoTransaction), c)
   | Some d \<Rightarrow> (Inr (), c\<lparr>live := d, savepoint := None\<rparr>))"

interpretation engine: tx_driver "sql_begin E" "sql_commit E" "sql_rollback E" live savepoint for E
  by unfold_locales
    (auto simp: sql_begin_def sql_commit_def sql_rollback_def split: option.splits)

definition in_tx :: "env \<Rightarrow> ('d, 'a) sm \<Rightarrow> ('d, 'a) sm" where
  "in_tx E f = transaction (sql_begin E) (sql_commit E) (sql_rollback E) f"

text \<open>An idle session over a database.\<close>

definition idle :: "'d \<Rightarrow> 'd conn" where
  "idle d = \<lparr>live = d, savepoint = None\<rparr>"

lemma idle_sel [simp]: "live (idle d) = d" "savepoint (idle d) = None"
  by (simp_all add: idle_def)

definition durable_db :: "'d conn \<Rightarrow> 'd" where
  "durable_db c = (case savepoint c of None \<Rightarrow> live c | Some d \<Rightarrow> d)"

lemma durable_db_idle [simp]: "durable_db (idle d) = d"
  by (simp add: durable_db_def)

end
