(* ===== verification/Schema.thy ===== *)
theory Schema
  imports Digraph Sql_Seam
begin

text \<open>
  The database of \<open>flowcore/migrations/0001_initial_schema.sql\<close>: one record per table row, the
  tables as lists of rows in insertion order, and every writing statement of the store as a
  function that runs the triggers, the \<open>CHECK\<close>, key and foreign-key constraints and the
  cascades of the schema, in the order the engine runs them. A statement that fails returns
  the error that the engine reports and changes nothing. The full-text index is derived from
  the nodes and left out.
\<close>

section \<open>Tables\<close>

record project_row =
  p_id :: string
  p_name :: string
  p_description :: string
  p_archived_at :: "int option"
  p_created_at :: int
  p_updated_at :: int

record node_row =
  n_id :: string
  n_project_id :: string
  n_parent_id :: "string option"
  n_kind :: string
  n_title :: string
  n_description :: string
  n_condition :: string
  n_reference :: "string option"
  n_note :: string
  n_declared_status :: string
  n_wp_state :: "string option"
  n_position :: int
  n_created_at :: int
  n_updated_at :: int

record verification_row =
  v_node_id :: string
  v_agent_result :: "string option"
  v_agent_name :: "string option"
  v_agent_at :: "int option"
  v_agent_node_rev :: "int option"
  v_agent_detail :: string
  v_human_verdict :: "string option"
  v_human_at :: "int option"

record dependency_row =
  d_blocker_id :: string
  d_blocked_id :: string
  d_created_at :: int

record event_row =
  e_seq :: int
  e_project_id :: string
  e_node_id :: "string option"
  e_kind :: string
  e_author :: string
  e_summary :: string
  e_payload :: string
  e_created_at :: int

record idempotency_row =
  i_project_id :: string
  i_key :: string
  i_seq :: int
  i_entity_id :: "string option"
  i_created_at :: int

text \<open>\<open>last_seq\<close> is the \<open>AUTOINCREMENT\<close> counter of the events table.\<close>

record db =
  projects :: "project_row list"
  nodes :: "node_row list"
  verifications :: "verification_row list"
  dependencies :: "dependency_row list"
  events :: "event_row list"
  idempotency :: "idempotency_row list"
  last_seq :: int

definition empty_db :: db where
  "empty_db = \<lparr>projects = [], nodes = [], verifications = [], dependencies = [], events = [],
     idempotency = [], last_seq = 0\<rparr>"

definition find_project :: "db \<Rightarrow> string \<Rightarrow> project_row option" where
  "find_project d i = find (\<lambda>p. p_id p = i) (projects d)"

definition find_node :: "db \<Rightarrow> string \<Rightarrow> node_row option" where
  "find_node d i = find (\<lambda>n. n_id n = i) (nodes d)"

definition find_verification :: "db \<Rightarrow> string \<Rightarrow> verification_row option" where
  "find_verification d i = find (\<lambda>v. v_node_id v = i) (verifications d)"

definition project_ids :: "db \<Rightarrow> string set" where
  "project_ids d = p_id ` set (projects d)"

definition node_ids :: "db \<Rightarrow> string set" where
  "node_ids d = n_id ` set (nodes d)"

definition kind_of :: "db \<Rightarrow> string \<Rightarrow> string option" where
  "kind_of d i = map_option n_kind (find_node d i)"

definition dep_edges :: "db \<Rightarrow> (string \<times> string) list" where
  "dep_edges d = map (\<lambda>e. (d_blocker_id e, d_blocked_id e)) (dependencies d)"

definition parent_edges :: "db \<Rightarrow> (string \<times> string) list" where
  "parent_edges d = List.map_filter (\<lambda>n. map_option (\<lambda>p. (p, n_id n)) (n_parent_id n)) (nodes d)"

section \<open>Constraints and triggers\<close>

definition kind_ok :: "string \<Rightarrow> bool" where
  "kind_ok k \<longleftrightarrow> k = ''WORK_PACKAGE'' \<or> k = ''TASK'' \<or> k = ''STEP''"

definition declared_ok :: "string \<Rightarrow> bool" where
  "declared_ok s \<longleftrightarrow> s = ''OPEN'' \<or> s = ''DEFERRED'' \<or> s = ''DONE''"

definition wp_state_ok :: "string option \<Rightarrow> bool" where
  "wp_state_ok s \<longleftrightarrow> s = None \<or> s = Some ''PLANNED'' \<or> s = Some ''ACTIVE'' \<or> s = Some ''DONE'' \<or> s = Some ''ARCHIVED''"

definition shape_ok :: "node_row \<Rightarrow> bool" where
  "shape_ok n \<longleftrightarrow>
     (n_kind n = ''WORK_PACKAGE'' \<and> n_parent_id n = None \<and> n_wp_state n \<noteq> None) \<or>
     (n_kind n = ''TASK'' \<and> n_parent_id n \<noteq> None \<and> n_wp_state n = None) \<or>
     (n_kind n = ''STEP'' \<and> n_parent_id n \<noteq> None \<and> n_wp_state n = None)"

definition check_node :: "node_row \<Rightarrow> violation option" where
  "check_node n =
     (if \<not> kind_ok (n_kind n) then Some (CheckFailed ''kind'')
      else if \<not> declared_ok (n_declared_status n) then Some (CheckFailed ''declared_status'')
      else if \<not> wp_state_ok (n_wp_state n) then Some (CheckFailed ''wp_state'')
      else if \<not> shape_ok n then Some (CheckFailed ''nodes'')
      else None)"

text \<open>
  The kind a parent, and a child, must have; \<open>None\<close> is the SQL \<open>NULL\<close> of a \<open>CASE\<close> without a
  matching branch. \<open>IS NOT\<close> compares \<open>NULL\<close> as a value.
\<close>

definition parent_kind_for :: "string \<Rightarrow> string option" where
  "parent_kind_for k = (if k = ''TASK'' then Some ''WORK_PACKAGE''
     else if k = ''STEP'' then Some ''TASK'' else None)"

definition child_kind_for :: "string \<Rightarrow> string option" where
  "child_kind_for k = (if k = ''WORK_PACKAGE'' then Some ''TASK''
     else if k = ''TASK'' then Some ''STEP'' else None)"

definition nodes_parent_kind_insert :: "db \<Rightarrow> node_row \<Rightarrow> string option" where
  "nodes_parent_kind_insert d n = (case n_parent_id n of
     None \<Rightarrow> None
   | Some p \<Rightarrow> if kind_of d p \<noteq> parent_kind_for (n_kind n)
       then Some ''invalid parent kind for node'' else None)"

definition nodes_parent_kind_update :: "db \<Rightarrow> node_row \<Rightarrow> string option" where
  "nodes_parent_kind_update d n =
     (if n_parent_id n = Some (n_id n) then Some ''node cannot be its own parent''
      else if (case n_parent_id n of None \<Rightarrow> False
               | Some p \<Rightarrow> kind_of d p \<noteq> parent_kind_for (n_kind n))
        then Some ''invalid parent kind for node''
      else if (case n_parent_id n of None \<Rightarrow> False
               | Some p \<Rightarrow> (case find_node d p of None \<Rightarrow> False
                           | Some q \<Rightarrow> n_project_id q \<noteq> n_project_id n))
        then Some ''cross-project move''
      else if (\<exists>c \<in> set (nodes d). n_parent_id c = Some (n_id n) \<and>
                 Some (n_kind c) \<noteq> child_kind_for (n_kind n))
        then Some ''children invalid for new kind''
      else None)"

text \<open>\<open>WITH RECURSIVE downstream\<close>: everything the new blocked node already blocks.\<close>

definition downstream :: "db \<Rightarrow> string \<Rightarrow> string list" where
  "downstream d i = closure (dep_edges d) [i] []"

definition dependencies_no_cycle :: "db \<Rightarrow> string \<Rightarrow> string \<Rightarrow> string option" where
  "dependencies_no_cycle d blocker blocked =
     (if List.member (downstream d blocked) blocker
      then Some ''dependency would create a cycle'' else None)"

definition event_kind_ok :: "string \<Rightarrow> bool" where
  "event_kind_ok k \<longleftrightarrow> k = ''NODE_CREATED'' \<or> k = ''NODE_UPDATED'' \<or> k = ''NODE_DELETED'' \<or>
     k = ''STATUS_SET'' \<or> k = ''DEP_ADDED'' \<or> k = ''DEP_REMOVED'' \<or>
     k = ''AGENT_REPORTED'' \<or> k = ''VERDICT_SET'' \<or> k = ''COMMENT''"

definition check_verification :: "verification_row \<Rightarrow> bool" where
  "check_verification v \<longleftrightarrow>
     (v_agent_result v = None \<or> v_agent_result v = Some ''PASS'' \<or> v_agent_result v = Some ''FAIL'') \<and>
     (v_human_verdict v = None \<or> v_human_verdict v = Some ''ACCEPTED'' \<or> v_human_verdict v = Some ''REJECTED'') \<and>
     (v_agent_result v = None \<or> v_agent_at v \<noteq> None) \<and>
     (v_human_verdict v = None \<or> v_human_at v \<noteq> None)"

section \<open>Statements on nodes\<close>

text \<open>
  \<open>INSERT INTO nodes\<close>, plain or \<open>OR IGNORE\<close>. A trigger's \<open>RAISE(ABORT)\<close> and a foreign-key
  failure are errors in both forms; a failed \<open>CHECK\<close> or a key that exists skips the row under
  \<open>OR IGNORE\<close>.
\<close>

definition insert_node :: "bool \<Rightarrow> env \<Rightarrow> node_row \<Rightarrow> (db, unit) stmt" where
  "insert_node or_ignore E n d =
     (case nodes_parent_kind_insert d n of
        Some m \<Rightarrow> Inl (from_db_message m)
      | None \<Rightarrow>
          (case check_node n of
             Some v \<Rightarrow> if or_ignore then Inr ((), d) else Inl (violation_error E v)
           | None \<Rightarrow>
               if n_id n \<in> node_ids d
               then (if or_ignore then Inr ((), d) else Inl (violation_error E (UniqueFailed ''nodes'')))
               else if n_project_id n \<in> project_ids d \<and>
                 (case n_parent_id n of None \<Rightarrow> True | Some p \<Rightarrow> p = n_id n \<or> p \<in> node_ids d)
               then Inr ((), d\<lparr>nodes := nodes d @ [n]\<rparr>)
               else Inl (violation_error E ForeignKeyFailed)))"

text \<open>The row as stored by an update: \<open>nodes_touch\<close> stamps the time of the change.\<close>

definition put_node :: "env \<Rightarrow> string \<Rightarrow> (node_row \<Rightarrow> node_row) \<Rightarrow> db \<Rightarrow> db" where
  "put_node E i f d =
     d\<lparr>nodes := map (\<lambda>m. if n_id m = i then (f m)\<lparr>n_updated_at := clock E\<rparr> else m) (nodes d)\<rparr>"

text \<open>\<open>UPDATE nodes SET <column> = ... WHERE id = ?\<close> for a column no trigger watches.\<close>

definition update_node :: "env \<Rightarrow> string \<Rightarrow> (node_row \<Rightarrow> node_row) \<Rightarrow> (db, unit) stmt" where
  "update_node E i f d = (case find_node d i of
     None \<Rightarrow> Inr ((), d)
   | Some n \<Rightarrow> (case check_node (f n) of
       Some v \<Rightarrow> Inl (violation_error E v)
     | None \<Rightarrow> Inr ((), put_node E i f d)))"

text \<open>\<open>UPDATE nodes SET parent_id = ..., kind = ..., position = ... WHERE id = ?\<close>.\<close>

definition update_node_place ::
  "env \<Rightarrow> string \<Rightarrow> string option \<Rightarrow> string \<Rightarrow> int \<Rightarrow> (db, unit) stmt" where
  "update_node_place E i parent kind pos d = (case find_node d i of
     None \<Rightarrow> Inr ((), d)
   | Some n \<Rightarrow>
       (let f = (\<lambda>m. m\<lparr>n_parent_id := parent, n_kind := kind, n_position := pos\<rparr>) in
        case nodes_parent_kind_update d (f n) of
          Some m \<Rightarrow> Inl (from_db_message m)
        | None \<Rightarrow> (case check_node (f n) of
            Some v \<Rightarrow> Inl (violation_error E v)
          | None \<Rightarrow> if (case parent of None \<Rightarrow> True | Some p \<Rightarrow> p \<in> node_ids d)
              then Inr ((), put_node E i f d)
              else Inl (violation_error E ForeignKeyFailed))))"

text \<open>
  \<open>DELETE FROM nodes WHERE id = ?\<close> with the cascades of the foreign keys: the rows below the
  deleted one, and the verifications, dependency edges and events of every deleted node.
\<close>

definition subtree :: "db \<Rightarrow> string \<Rightarrow> string list" where
  "subtree d i = closure (parent_edges d) [i] []"

definition drop_nodes :: "string list \<Rightarrow> db \<Rightarrow> db" where
  "drop_nodes gone d = d\<lparr>
     nodes := filter (\<lambda>n. n_id n \<notin> set gone) (nodes d),
     verifications := filter (\<lambda>v. v_node_id v \<notin> set gone) (verifications d),
     dependencies := filter (\<lambda>e. d_blocker_id e \<notin> set gone \<and> d_blocked_id e \<notin> set gone) (dependencies d),
     events := filter (\<lambda>e. case e_node_id e of None \<Rightarrow> True | Some i \<Rightarrow> i \<notin> set gone) (events d)\<rparr>"

definition delete_node :: "string \<Rightarrow> (db, unit) stmt" where
  "delete_node i d = (if i \<in> node_ids d then Inr ((), drop_nodes (subtree d i) d) else Inr ((), d))"

section \<open>Statements on dependencies\<close>

definition insert_dependency :: "env \<Rightarrow> string \<Rightarrow> string \<Rightarrow> (db, unit) stmt" where
  "insert_dependency E blocker blocked d =
     (case dependencies_no_cycle d blocker blocked of
        Some m \<Rightarrow> Inl (from_db_message m)
      | None \<Rightarrow>
          if blocker = blocked \<or> (blocker, blocked) \<in> set (dep_edges d) then Inr ((), d)
          else if blocker \<in> node_ids d \<and> blocked \<in> node_ids d
          then Inr ((), d\<lparr>dependencies := dependencies d @
                 [\<lparr>d_blocker_id = blocker, d_blocked_id = blocked, d_created_at = clock E\<rparr>]\<rparr>)
          else Inl (violation_error E ForeignKeyFailed))"

definition delete_dependency :: "string \<Rightarrow> string \<Rightarrow> (db, unit) stmt" where
  "delete_dependency blocker blocked d = Inr ((), d\<lparr>dependencies :=
     filter (\<lambda>e. \<not> (d_blocker_id e = blocker \<and> d_blocked_id e = blocked)) (dependencies d)\<rparr>)"

section \<open>Statements on verifications\<close>

text \<open>\<open>INSERT ... ON CONFLICT(node_id) DO UPDATE\<close>: the row is checked, then merged or added.\<close>

definition upsert_verification ::
  "env \<Rightarrow> verification_row \<Rightarrow> (verification_row \<Rightarrow> verification_row) \<Rightarrow> (db, unit) stmt" where
  "upsert_verification E v f d =
     (if \<not> check_verification v then Inl (violation_error E (CheckFailed ''verifications''))
      else case find_verification d (v_node_id v) of
        Some old \<Rightarrow> if check_verification (f old)
          then Inr ((), d\<lparr>verifications :=
                 map (\<lambda>w. if v_node_id w = v_node_id v then f w else w) (verifications d)\<rparr>)
          else Inl (violation_error E (CheckFailed ''verifications''))
      | None \<Rightarrow> if v_node_id v \<in> node_ids d
          then Inr ((), d\<lparr>verifications := verifications d @ [v]\<rparr>)
          else Inl (violation_error E ForeignKeyFailed))"

definition upsert_report :: "env \<Rightarrow> string \<Rightarrow> string \<Rightarrow> string \<Rightarrow> string \<Rightarrow> (db, unit) stmt" where
  "upsert_report E i result author detail d =
     (let rev = map_option n_updated_at (find_node d i) in
      upsert_verification E
        \<lparr>v_node_id = i, v_agent_result = Some result, v_agent_name = Some author,
         v_agent_at = Some (clock E), v_agent_node_rev = rev, v_agent_detail = detail,
         v_human_verdict = None, v_human_at = None\<rparr>
        (\<lambda>w. w\<lparr>v_agent_result := Some result, v_agent_name := Some author,
               v_agent_at := Some (clock E), v_agent_node_rev := rev, v_agent_detail := detail\<rparr>) d)"

definition upsert_verdict :: "env \<Rightarrow> string \<Rightarrow> string \<Rightarrow> (db, unit) stmt" where
  "upsert_verdict E i verdict d =
     upsert_verification E
       \<lparr>v_node_id = i, v_agent_result = None, v_agent_name = None, v_agent_at = None,
        v_agent_node_rev = None, v_agent_detail = '''',
        v_human_verdict = Some verdict, v_human_at = Some (clock E)\<rparr>
       (\<lambda>w. w\<lparr>v_human_verdict := Some verdict, v_human_at := Some (clock E)\<rparr>) d"

definition clear_verdict :: "string \<Rightarrow> (db, unit) stmt" where
  "clear_verdict i d = Inr ((), d\<lparr>verifications :=
     map (\<lambda>w. if v_node_id w = i then w\<lparr>v_human_verdict := None, v_human_at := None\<rparr> else w)
       (verifications d)\<rparr>)"

definition delete_verification :: "string \<Rightarrow> (db, unit) stmt" where
  "delete_verification i d =
     Inr ((), d\<lparr>verifications := filter (\<lambda>w. v_node_id w \<noteq> i) (verifications d)\<rparr>)"

section \<open>Statements on events, the ledger and projects\<close>

text \<open>\<open>AUTOINCREMENT\<close> never reuses a number and fails once the largest is taken.\<close>

definition max_seq :: int where
  "max_seq = 9223372036854775807"

definition insert_event ::
  "env \<Rightarrow> string \<Rightarrow> string option \<Rightarrow> string \<Rightarrow> string \<Rightarrow> string \<Rightarrow> string \<Rightarrow> (db, event_row) stmt" where
  "insert_event E project node kind author summary payload d =
     (if last_seq d = max_seq then Inl (violation_error E SequenceFull)
      else if \<not> event_kind_ok kind then Inl (violation_error E (CheckFailed ''kind''))
      else if \<not> json_valid E payload then Inl (violation_error E (CheckFailed ''payload''))
      else if project \<in> project_ids d \<and> (case node of None \<Rightarrow> True | Some i \<Rightarrow> i \<in> node_ids d) then
        (let e = \<lparr>e_seq = last_seq d + 1, e_project_id = project, e_node_id = node, e_kind = kind,
                  e_author = author, e_summary = summary, e_payload = payload,
                  e_created_at = clock E\<rparr>
         in Inr (e, d\<lparr>events := events d @ [e], last_seq := last_seq d + 1\<rparr>))
      else Inl (violation_error E ForeignKeyFailed))"

definition find_ledger :: "db \<Rightarrow> string \<Rightarrow> string \<Rightarrow> idempotency_row option" where
  "find_ledger d scope key =
     find (\<lambda>r. i_project_id r = scope \<and> i_key r = key) (idempotency d)"

definition insert_ledger ::
  "env \<Rightarrow> string \<Rightarrow> string \<Rightarrow> int \<Rightarrow> string option \<Rightarrow> (db, unit) stmt" where
  "insert_ledger E scope key seq entity d =
     (if find_ledger d scope key \<noteq> None then Inr ((), d)
      else Inr ((), d\<lparr>idempotency := idempotency d @
             [\<lparr>i_project_id = scope, i_key = key, i_seq = seq, i_entity_id = entity,
               i_created_at = clock E\<rparr>]\<rparr>))"

definition insert_project :: "env \<Rightarrow> string \<Rightarrow> string \<Rightarrow> string \<Rightarrow> (db, unit) stmt" where
  "insert_project E i name description d =
     (if i \<in> project_ids d then Inl (violation_error E (UniqueFailed ''projects''))
      else Inr ((), d\<lparr>projects := projects d @
             [\<lparr>p_id = i, p_name = name, p_description = description, p_archived_at = None,
               p_created_at = clock E, p_updated_at = clock E\<rparr>]\<rparr>))"

definition update_project :: "string \<Rightarrow> (project_row \<Rightarrow> project_row) \<Rightarrow> (db, unit) stmt" where
  "update_project i f d =
     Inr ((), d\<lparr>projects := map (\<lambda>p. if p_id p = i then f p else p) (projects d)\<rparr>)"

section \<open>The derived view\<close>

text \<open>
  \<open>node_state.status\<close>: an open node is blocked while one of its direct blockers is not done.
\<close>

definition node_status :: "db \<Rightarrow> node_row \<Rightarrow> string" where
  "node_status d n =
     (if n_declared_status n = ''DONE'' then ''DONE''
      else if n_declared_status n = ''DEFERRED'' then ''DEFERRED''
      else if (\<exists>e \<in> set (dependencies d). \<exists>b \<in> set (nodes d).
                 n_id b = d_blocker_id e \<and> d_blocked_id e = n_id n \<and> n_declared_status b \<noteq> ''DONE'')
        then ''BLOCKED''
      else ''READY'')"

lemmas stmt_defs =
  insert_node_def update_node_def update_node_place_def delete_node_def insert_dependency_def
  delete_dependency_def upsert_verification_def upsert_report_def upsert_verdict_def
  clear_verdict_def delete_verification_def insert_event_def insert_ledger_def
  insert_project_def update_project_def

end
