(* ===== verification/Schema_Inv.thy ===== *)
theory Schema_Inv
  imports Schema
begin

text \<open>
  The invariant that the constraints and triggers of the schema enforce, and one lemma per
  statement that it keeps the invariant: unique keys, references that resolve, the fixed
  three-level hierarchy, an acyclic dependency graph, and an event log whose numbers
  increase. The collection \<open>stmt_pres\<close> holds the preservation lemmas.
\<close>

section \<open>The invariant\<close>

definition keys_inv :: "db \<Rightarrow> bool" where
  "keys_inv d \<longleftrightarrow> distinct (map p_id (projects d)) \<and> distinct (map n_id (nodes d)) \<and>
     distinct (map v_node_id (verifications d)) \<and> distinct (dep_edges d) \<and>
     distinct (map (\<lambda>r. (i_project_id r, i_key r)) (idempotency d))"

definition node_ok :: "db \<Rightarrow> node_row \<Rightarrow> bool" where
  "node_ok d n \<longleftrightarrow> check_node n = None \<and> n_project_id n \<in> project_ids d \<and>
     (case n_parent_id n of None \<Rightarrow> True | Some p \<Rightarrow> kind_of d p = parent_kind_for (n_kind n))"

definition hierarchy_inv :: "db \<Rightarrow> bool" where
  "hierarchy_inv d \<longleftrightarrow> (\<forall>n \<in> set (nodes d). node_ok d n)"

definition verification_ok :: "db \<Rightarrow> verification_row \<Rightarrow> bool" where
  "verification_ok d v \<longleftrightarrow> v_node_id v \<in> node_ids d \<and> check_verification v"

definition deps_inv :: "db \<Rightarrow> bool" where
  "deps_inv d \<longleftrightarrow> acyclic (set (dep_edges d)) \<and>
     (\<forall>e \<in> set (dependencies d). d_blocker_id e \<in> node_ids d \<and> d_blocked_id e \<in> node_ids d)"

definition event_ok :: "db \<Rightarrow> event_row \<Rightarrow> bool" where
  "event_ok d e \<longleftrightarrow> 0 < e_seq e \<and> e_seq e \<le> last_seq d \<and> event_kind_ok (e_kind e) \<and>
     e_project_id e \<in> project_ids d \<and>
     set_option (e_node_id e) \<subseteq> node_ids d"

definition log_inv :: "db \<Rightarrow> bool" where
  "log_inv d \<longleftrightarrow> sorted_wrt (<) (map e_seq (events d)) \<and> 0 \<le> last_seq d \<and> last_seq d \<le> max_seq \<and>
     (\<forall>e \<in> set (events d). event_ok d e)"

definition db_inv :: "db \<Rightarrow> bool" where
  "db_inv d \<longleftrightarrow> keys_inv d \<and> hierarchy_inv d \<and> (\<forall>v \<in> set (verifications d). verification_ok d v) \<and>
     deps_inv d \<and> log_inv d"

lemmas inv_defs = db_inv_def keys_inv_def hierarchy_inv_def deps_inv_def log_inv_def

lemma db_inv_empty: "db_inv empty_db"
  by (simp add: inv_defs empty_db_def dep_edges_def max_seq_def acyclic_def)

definition stmt_keeps :: "('d \<Rightarrow> bool) \<Rightarrow> ('d, 'a) stmt \<Rightarrow> bool" where
  "stmt_keeps I u \<longleftrightarrow> (\<forall>d x d'. I d \<longrightarrow> u d = Inr (x, d') \<longrightarrow> I d')"

lemma stmt_keepsI:
  "(\<And>d x d'. I d \<Longrightarrow> u d = Inr (x, d') \<Longrightarrow> I d') \<Longrightarrow> stmt_keeps I u"
  by (auto simp: stmt_keeps_def)

lemma stmt_keepsD: "stmt_keeps I u \<Longrightarrow> I d \<Longrightarrow> u d = Inr (x, d') \<Longrightarrow> I d'"
  by (auto simp: stmt_keeps_def)

section \<open>Lookups\<close>

lemma find_node_iff:
  "keys_inv d \<Longrightarrow> find_node d i = Some n \<longleftrightarrow> n \<in> set (nodes d) \<and> n_id n = i"
  by (auto simp: find_node_def keys_inv_def find_Some_iff_key)

lemma find_node_SomeD: "find_node d i = Some n \<Longrightarrow> n \<in> set (nodes d) \<and> n_id n = i"
  by (auto simp: find_node_def find_Some_iff)

lemma find_node_None: "find_node d i = None \<longleftrightarrow> i \<notin> node_ids d"
  by (simp add: find_node_def node_ids_def find_None_iff_key)

lemma find_node_in_ids: "find_node d i = Some n \<Longrightarrow> i \<in> node_ids d"
  using find_node_None [of d i] by auto

lemma node_ids_find: "i \<in> node_ids d \<Longrightarrow> \<exists>n. find_node d i = Some n"
  using find_node_None [of d i] by auto

lemma kind_of_Some: "kind_of d i = Some k \<Longrightarrow> i \<in> node_ids d"
  by (auto simp: kind_of_def dest: find_node_in_ids)

lemma find_node_cong: "nodes d' = nodes d \<Longrightarrow> find_node d' = find_node d"
  by (auto simp: find_node_def fun_eq_iff)

lemma parent_edges_iff:
  "(p, c) \<in> set (parent_edges d) \<longleftrightarrow> (\<exists>n \<in> set (nodes d). n_id n = c \<and> n_parent_id n = Some p)"
  by (force simp: parent_edges_def List.map_filter_def image_iff)

lemma dep_edges_iff:
  "(a, b) \<in> set (dep_edges d) \<longleftrightarrow>
     (\<exists>e \<in> set (dependencies d). d_blocker_id e = a \<and> d_blocked_id e = b)"
  by (auto simp: dep_edges_def)

section \<open>The hierarchy\<close>

lemma node_ok_parent:
  assumes "hierarchy_inv d" "n \<in> set (nodes d)" "n_parent_id n = Some p"
  shows "kind_of d p = parent_kind_for (n_kind n)" "p \<in> node_ids d"
proof -
  have ok: "node_ok d n" using assms by (auto simp: hierarchy_inv_def)
  then show k: "kind_of d p = parent_kind_for (n_kind n)"
    using assms(3) by (simp add: node_ok_def)
  have "n_kind n = ''TASK'' \<or> n_kind n = ''STEP''"
    using ok assms(3) by (auto simp: node_ok_def check_node_def shape_ok_def split: if_splits)
  then have "kind_of d p \<noteq> None" using k by (auto simp: parent_kind_for_def)
  then show "p \<in> node_ids d" by (auto dest: kind_of_Some)
qed

lemma node_ok_mono:
  assumes "node_ok d n" "project_ids d \<subseteq> project_ids d'"
    "\<And>p. n_parent_id n = Some p \<Longrightarrow> kind_of d' p = kind_of d p"
  shows "node_ok d' n"
  using assms by (auto simp: node_ok_def split: option.splits)

lemma hierarchy_inv_cong:
  assumes "hierarchy_inv d" "nodes d' = nodes d" "project_ids d \<subseteq> project_ids d'"
  shows "hierarchy_inv d'"
  using assms find_node_cong [OF assms(2)]
  by (auto simp: hierarchy_inv_def node_ok_def kind_of_def split: option.splits)

lemma log_inv_cong:
  assumes "log_inv d" "events d' = events d" "last_seq d' = last_seq d"
    "node_ids d \<subseteq> node_ids d'" "project_ids d \<subseteq> project_ids d'"
  shows "log_inv d'"
  using assms by (auto simp: log_inv_def event_ok_def split: option.splits)

lemma verification_ok_mono: "verification_ok d v \<Longrightarrow> node_ids d \<subseteq> node_ids d' \<Longrightarrow> verification_ok d' v"
  by (auto simp: verification_ok_def)

section \<open>Inserting nodes\<close>

lemma insert_node_cases:
  assumes "insert_node ign E n d = Inr (x, d')"
  shows "d' = d \<or> (d' = d\<lparr>nodes := nodes d @ [n]\<rparr> \<and> check_node n = None \<and> n_id n \<notin> node_ids d \<and>
    n_project_id n \<in> project_ids d \<and>
    (\<forall>p. n_parent_id n = Some p \<longrightarrow> kind_of d p = parent_kind_for (n_kind n)))"
  using assms
  by (auto simp: insert_node_def nodes_parent_kind_insert_def split: option.splits if_splits)

lemma insert_node_keeps [stmt_pres]: "stmt_keeps db_inv (insert_node ign E n)"
proof (rule stmt_keepsI)
  fix d x d'
  assume inv: "db_inv d" and step: "insert_node ign E n d = Inr (x, d')"
  consider "d' = d" | (new) "d' = d\<lparr>nodes := nodes d @ [n]\<rparr>" "check_node n = None" "n_id n \<notin> node_ids d"
    "n_project_id n \<in> project_ids d"
    "\<forall>p. n_parent_id n = Some p \<longrightarrow> kind_of d p = parent_kind_for (n_kind n)"
    using insert_node_cases [OF step] by auto
  then show "db_inv d'"
  proof cases
    case 1
    then show ?thesis using inv by simp
  next
    case new
    have ids: "node_ids d' = insert (n_id n) (node_ids d)" and proj: "project_ids d' = project_ids d"
      using new(1) by (auto simp: node_ids_def project_ids_def)
    have kind: "kind_of d' p = kind_of d p" if "p \<in> node_ids d" for p
      using node_ids_find [OF that] new(1)
      by (auto simp: kind_of_def find_node_def find_append split: option.splits)
    have old: "node_ok d' m" if "m \<in> set (nodes d)" for m
    proof (rule node_ok_mono [of d])
      show "node_ok d m" using inv that by (auto simp: inv_defs)
      show "project_ids d \<subseteq> project_ids d'" using proj by simp
      show "kind_of d' p = kind_of d p" if p: "n_parent_id m = Some p" for p
      proof (rule kind)
        show "p \<in> node_ids d"
          using inv \<open>m \<in> set (nodes d)\<close> p by (auto simp: db_inv_def intro: node_ok_parent)
      qed
    qed
    have "node_ok d' n"
    proof (cases "n_parent_id n")
      case None
      then show ?thesis using new proj by (simp add: node_ok_def)
    next
      case (Some p)
      have "n_kind n = ''TASK'' \<or> n_kind n = ''STEP''"
        using new(2) Some by (auto simp: check_node_def shape_ok_def split: if_splits)
      then have "kind_of d p \<noteq> None" using new(5) Some by (auto simp: parent_kind_for_def)
      then have "p \<in> node_ids d" by (auto dest: kind_of_Some)
      then show ?thesis using new(2,4,5) Some kind [of p] proj by (simp add: node_ok_def)
    qed
    then have "hierarchy_inv d'" using old new(1) by (auto simp: hierarchy_inv_def)
    moreover have "keys_inv d'"
      using inv new(1,3) by (auto simp: inv_defs node_ids_def dep_edges_def)
    moreover have "\<forall>v \<in> set (verifications d'). verification_ok d' v"
      using inv new(1) ids by (auto simp: db_inv_def verification_ok_def)
    moreover have "deps_inv d'" using inv new(1) ids by (auto simp: inv_defs dep_edges_def)
    moreover have "log_inv d'"
      using inv new(1) ids proj by (auto simp: inv_defs event_ok_def split: option.splits)
    ultimately show ?thesis by (simp add: db_inv_def)
  qed
qed

section \<open>Updating nodes\<close>

text \<open>The columns of a row that no statement of the store changes.\<close>

definition keeps_id :: "(node_row \<Rightarrow> node_row) \<Rightarrow> bool" where
  "keeps_id f \<longleftrightarrow> (\<forall>m. n_id (f m) = n_id m \<and> n_project_id (f m) = n_project_id m)"

lemma check_node_touch [simp]: "check_node (m\<lparr>n_updated_at := t\<rparr>) = check_node m"
  by (simp add: check_node_def shape_ok_def)

lemma put_node_sel [simp]:
  "projects (put_node E i f d) = projects d" "verifications (put_node E i f d) = verifications d"
  "dependencies (put_node E i f d) = dependencies d" "events (put_node E i f d) = events d"
  "idempotency (put_node E i f d) = idempotency d" "last_seq (put_node E i f d) = last_seq d"
  by (simp_all add: put_node_def)

lemma put_node_ids:
  assumes "keeps_id f"
  shows "map n_id (nodes (put_node E i f d)) = map n_id (nodes d)"
    "node_ids (put_node E i f d) = node_ids d"
proof -
  show *: "map n_id (nodes (put_node E i f d)) = map n_id (nodes d)"
    using assms by (simp add: put_node_def keeps_id_def)
  show "node_ids (put_node E i f d) = node_ids d"
    using arg_cong [OF *, of set] by (simp add: node_ids_def)
qed

lemma find_put_node:
  assumes "keeps_id f"
  shows "find_node (put_node E i f d) j =
    (if j = i then map_option (\<lambda>m. (f m)\<lparr>n_updated_at := clock E\<rparr>) (find_node d j) else find_node d j)"
proof -
  let ?g = "\<lambda>m. if n_id m = i then (f m)\<lparr>n_updated_at := clock E\<rparr> else m"
  have "find_node (put_node E i f d) j = map_option ?g (find_node d j)"
    unfolding find_node_def put_node_def using assms
    by (simp add: find_key_map keeps_id_def)
  then show ?thesis
    by (cases "find_node d j") (auto dest: find_node_SomeD)
qed

text \<open>
  An update keeps the invariant when the new row passes the checks, its kind fits its parent
  and the children that stay below it fit its kind.
\<close>

lemma put_node_keeps:
  assumes inv: "db_inv d" and f: "keeps_id f" and n: "find_node d i = Some n"
    and chk: "check_node (f n) = None"
    and par: "\<And>p. n_parent_id (f n) = Some p \<Longrightarrow> p \<noteq> i \<and> kind_of d p = parent_kind_for (n_kind (f n))"
    and kids: "\<And>c. c \<in> set (nodes d) \<Longrightarrow> n_parent_id c = Some i \<Longrightarrow> n_id c \<noteq> i \<Longrightarrow>
      parent_kind_for (n_kind c) = Some (n_kind (f n))"
  shows "db_inv (put_node E i f d)"
proof -
  let ?d = "put_node E i f d"
  note ids = put_node_ids [OF f, of E i d]
  have proj: "project_ids ?d = project_ids d" by (simp add: project_ids_def)
  have kind: "kind_of ?d p = (if p = i then Some (n_kind (f n)) else kind_of d p)" for p
    using n by (simp add: kind_of_def find_put_node [OF f])
  have nn: "n \<in> set (nodes d)" "n_id n = i" using find_node_SomeD [OF n] by auto
  have "hierarchy_inv ?d"
    unfolding hierarchy_inv_def
  proof
    fix m'
    assume "m' \<in> set (nodes ?d)"
    then obtain m where m: "m \<in> set (nodes d)"
      and m': "m' = (if n_id m = i then (f m)\<lparr>n_updated_at := clock E\<rparr> else m)"
      by (auto simp: put_node_def)
    have okm: "node_ok d m" using inv m by (auto simp: inv_defs)
    show "node_ok ?d m'"
    proof (cases "n_id m = i")
      case True
      have "m = n" using inv m n True find_node_iff [of d i m] by (auto simp: db_inv_def)
      then show ?thesis
        using True m' chk par kind okm proj f
        by (auto simp: node_ok_def keeps_id_def split: option.splits)
    next
      case False
      then have "m' = m" using m' by simp
      moreover have "node_ok ?d m"
      proof (cases "n_parent_id m")
        case None
        then show ?thesis using okm proj by (simp add: node_ok_def)
      next
        case (Some p)
        have "kind_of ?d p = parent_kind_for (n_kind m)"
          using kind [of p] kids [OF m] Some False okm by (auto simp: node_ok_def)
        then show ?thesis using okm Some proj by (simp add: node_ok_def)
      qed
      ultimately show ?thesis by simp
    qed
  qed
  moreover have "keys_inv ?d" using inv ids(1) by (simp add: inv_defs dep_edges_def)
  moreover have "\<forall>v \<in> set (verifications ?d). verification_ok ?d v"
    using inv ids(2) by (simp add: db_inv_def verification_ok_def)
  moreover have "deps_inv ?d" using inv ids(2) by (simp add: inv_defs dep_edges_def)
  moreover have "log_inv ?d"
    using inv ids(2) proj by (simp add: inv_defs event_ok_def split: option.splits)
  ultimately show ?thesis by (simp add: db_inv_def)
qed

definition keeps_place :: "(node_row \<Rightarrow> node_row) \<Rightarrow> bool" where
  "keeps_place f \<longleftrightarrow> (\<forall>m. n_parent_id (f m) = n_parent_id m \<and> n_kind (f m) = n_kind m)"

lemma no_self_parent:
  assumes "db_inv d" "n \<in> set (nodes d)"
  shows "n_parent_id n \<noteq> Some (n_id n)"
proof
  assume p: "n_parent_id n = Some (n_id n)"
  have "kind_of d (n_id n) = parent_kind_for (n_kind n)"
    using assms p by (auto simp: db_inv_def intro: node_ok_parent)
  moreover have "find_node d (n_id n) = Some n"
    using assms find_node_iff [of d "n_id n" n] by (auto simp: db_inv_def)
  ultimately show False by (auto simp: kind_of_def parent_kind_for_def split: if_splits)
qed

lemma update_node_keeps [stmt_pres]:
  assumes "keeps_id f" "keeps_place f"
  shows "stmt_keeps db_inv (update_node E i f)"
proof (rule stmt_keepsI)
  fix d x d'
  assume inv: "db_inv d" and step: "update_node E i f d = Inr (x, d')"
  show "db_inv d'"
  proof (cases "find_node d i")
    case None
    then show ?thesis using step inv by (simp add: update_node_def)
  next
    case (Some n)
    then have d': "d' = put_node E i f d" and chk: "check_node (f n) = None"
      using step by (auto simp: update_node_def split: option.splits)
    have nn: "n \<in> set (nodes d)" "n_id n = i" using find_node_SomeD [OF Some] by auto
    show ?thesis unfolding d'
    proof (rule put_node_keeps [OF inv assms(1) Some chk])
      fix p
      assume "n_parent_id (f n) = Some p"
      then have p: "n_parent_id n = Some p" using assms(2) by (simp add: keeps_place_def)
      then show "p \<noteq> i \<and> kind_of d p = parent_kind_for (n_kind (f n))"
        using node_ok_parent [of d n p] no_self_parent [OF inv nn(1)] inv nn assms(2)
        by (auto simp: db_inv_def keeps_place_def)
    next
      fix c
      assume c: "c \<in> set (nodes d)" "n_parent_id c = Some i"
      then have "kind_of d i = parent_kind_for (n_kind c)"
        using inv by (auto simp: db_inv_def intro: node_ok_parent)
      then show "parent_kind_for (n_kind c) = Some (n_kind (f n))"
        using Some assms(2) by (simp add: kind_of_def keeps_place_def)
    qed
  qed
qed

lemma child_parent_kind: "child_kind_for k = Some k' \<Longrightarrow> parent_kind_for k' = Some k"
  by (auto simp: child_kind_for_def parent_kind_for_def split: if_splits)

lemma update_node_place_keeps [stmt_pres]:
  "stmt_keeps db_inv (update_node_place E i parent kind pos)"
proof (rule stmt_keepsI)
  fix d x d'
  assume inv: "db_inv d" and step: "update_node_place E i parent kind pos d = Inr (x, d')"
  let ?f = "\<lambda>m. m\<lparr>n_parent_id := parent, n_kind := kind, n_position := pos\<rparr>"
  show "db_inv d'"
  proof (cases "find_node d i")
    case None
    then show ?thesis using step inv by (simp add: update_node_place_def)
  next
    case (Some n)
    then have d': "d' = put_node E i ?f d" and chk: "check_node (?f n) = None"
      and trig: "nodes_parent_kind_update d (?f n) = None"
      using step by (auto simp: update_node_place_def split: option.splits if_splits)
    have nn: "n \<in> set (nodes d)" "n_id n = i" using find_node_SomeD [OF Some] by auto
    have keeps: "keeps_id ?f" by (simp add: keeps_id_def)
    show ?thesis unfolding d'
    proof (rule put_node_keeps [where f = ?f, OF inv keeps Some chk])
      fix p
      assume "n_parent_id (?f n) = Some p"
      then show "p \<noteq> i \<and> kind_of d p = parent_kind_for (n_kind (?f n))"
        using trig nn by (auto simp: nodes_parent_kind_update_def split: if_splits)
    next
      fix c
      assume c: "c \<in> set (nodes d)" "n_parent_id c = Some i"
      then have "Some (n_kind c) = child_kind_for kind"
        using trig nn by (auto simp: nodes_parent_kind_update_def split: if_splits)
      then show "parent_kind_for (n_kind c) = Some (n_kind (?f n))"
        using child_parent_kind [of kind "n_kind c"] by simp
    qed
  qed
qed

section \<open>Deleting nodes\<close>

lemma drop_nodes_sel [simp]:
  "projects (drop_nodes g d) = projects d" "idempotency (drop_nodes g d) = idempotency d"
  "last_seq (drop_nodes g d) = last_seq d"
  by (simp_all add: drop_nodes_def)

lemma node_ids_drop: "node_ids (drop_nodes g d) = node_ids d - set g"
  by (auto simp: node_ids_def drop_nodes_def)

lemma find_node_drop:
  assumes "keys_inv d"
  shows "find_node (drop_nodes g d) i = (if i \<in> set g then None else find_node d i)"
proof -
  have "find_node (drop_nodes g d) i =
      (case find_node d i of Some x \<Rightarrow> if n_id x \<notin> set g then Some x else None | None \<Rightarrow> None)"
    using assms by (simp add: find_node_def drop_nodes_def keys_inv_def find_key_filter)
  then show ?thesis
    by (auto dest: find_node_SomeD split: option.splits)
qed

lemma dep_edges_drop_subset: "set (dep_edges (drop_nodes g d)) \<subseteq> set (dep_edges d)"
  by (auto simp: dep_edges_def drop_nodes_def)

lemma drop_nodes_keeps:
  assumes inv: "db_inv d"
    and closed: "\<And>n p. n \<in> set (nodes d) \<Longrightarrow> n_parent_id n = Some p \<Longrightarrow> p \<in> set g \<Longrightarrow> n_id n \<in> set g"
  shows "db_inv (drop_nodes g d)"
proof -
  let ?d = "drop_nodes g d"
  have keys: "keys_inv d" using inv by (simp add: db_inv_def)
  have proj: "project_ids ?d = project_ids d" by (simp add: project_ids_def)
  have "hierarchy_inv ?d"
    unfolding hierarchy_inv_def
  proof
    fix n
    assume "n \<in> set (nodes ?d)"
    then have n: "n \<in> set (nodes d)" "n_id n \<notin> set g" by (auto simp: drop_nodes_def)
    show "node_ok ?d n"
    proof (rule node_ok_mono [of d])
      show "node_ok d n" using inv n by (auto simp: inv_defs)
      show "project_ids d \<subseteq> project_ids ?d" using proj by simp
      show "kind_of ?d p = kind_of d p" if "n_parent_id n = Some p" for p
        using closed [OF n(1) that] n(2) by (auto simp: kind_of_def find_node_drop [OF keys])
    qed
  qed
  moreover have "keys_inv ?d"
    using keys by (auto simp: keys_inv_def drop_nodes_def dep_edges_def distinct_map_filter_key)
  moreover have "\<forall>v \<in> set (verifications ?d). verification_ok ?d v"
    using inv by (auto simp: db_inv_def verification_ok_def node_ids_drop) (auto simp: drop_nodes_def)
  moreover have "deps_inv ?d"
  proof -
    have "acyclic (set (dep_edges ?d))"
      using inv dep_edges_drop_subset by (auto simp: inv_defs intro: acyclic_subset)
    then show ?thesis
      using inv by (auto simp: inv_defs node_ids_drop) (auto simp: drop_nodes_def)
  qed
  moreover have "log_inv ?d"
  proof -
    have "sorted_wrt (<) (map e_seq (events ?d))"
      using inv by (simp add: inv_defs drop_nodes_def sorted_wrt_filter_map)
    moreover have "event_ok ?d e" if "e \<in> set (events ?d)" for e
    proof -
      have "event_ok d e" and "\<forall>i. e_node_id e = Some i \<longrightarrow> i \<notin> set g"
        using inv that by (auto simp: inv_defs drop_nodes_def split: option.splits)
      then show ?thesis
        by (auto simp: event_ok_def proj node_ids_drop split: option.splits)
    qed
    ultimately show ?thesis using inv by (simp add: inv_defs)
  qed
  ultimately show ?thesis by (simp add: db_inv_def)
qed

lemma subtree_self: "i \<in> set (subtree d i)"
  unfolding subtree_def by (rule sql_union.reach_refl)

lemma subtree_closed:
  assumes "n \<in> set (nodes d)" "n_parent_id n = Some p" "p \<in> set (subtree d i)"
  shows "n_id n \<in> set (subtree d i)"
  using assms sql_union.reach_step [of p "parent_edges d" i "n_id n"]
  by (auto simp: subtree_def parent_edges_iff)

lemma delete_node_keeps [stmt_pres]: "stmt_keeps db_inv (delete_node i)"
  by (rule stmt_keepsI)
    (auto simp: delete_node_def split: if_splits intro!: drop_nodes_keeps subtree_closed)

section \<open>Dependencies\<close>

lemma dep_guard_None:
  "dependencies_no_cycle d a b = None \<longleftrightarrow> (b, a) \<notin> (set (dep_edges d))\<^sup>*"
  using sql_union.reach_set [of "dep_edges d" b]
  by (simp add: dependencies_no_cycle_def downstream_def)

lemma insert_dependency_cases:
  assumes "insert_dependency E a b d = Inr (x, d')"
  shows "d' = d \<or> (d' = d\<lparr>dependencies := dependencies d @
       [\<lparr>d_blocker_id = a, d_blocked_id = b, d_created_at = clock E\<rparr>]\<rparr> \<and>
     (b, a) \<notin> (set (dep_edges d))\<^sup>* \<and> (a, b) \<notin> set (dep_edges d) \<and>
     a \<in> node_ids d \<and> b \<in> node_ids d)"
  using assms
  by (auto simp: insert_dependency_def dep_guard_None split: option.splits if_splits)

lemma insert_dependency_keeps [stmt_pres]: "stmt_keeps db_inv (insert_dependency E a b)"
proof (rule stmt_keepsI)
  fix d x d'
  assume inv: "db_inv d" and step: "insert_dependency E a b d = Inr (x, d')"
  consider "d' = d" | (new) "d' = d\<lparr>dependencies := dependencies d @
       [\<lparr>d_blocker_id = a, d_blocked_id = b, d_created_at = clock E\<rparr>]\<rparr>"
    "(b, a) \<notin> (set (dep_edges d))\<^sup>*" "(a, b) \<notin> set (dep_edges d)"
    "a \<in> node_ids d" "b \<in> node_ids d"
    using insert_dependency_cases [OF step] by auto
  then show "db_inv d'"
  proof cases
    case 1
    then show ?thesis using inv by simp
  next
    case new
    have edges: "dep_edges d' = dep_edges d @ [(a, b)]" using new(1) by (simp add: dep_edges_def)
    have same: "nodes d' = nodes d" "node_ids d' = node_ids d" "project_ids d' = project_ids d"
      using new(1) by (simp_all add: node_ids_def project_ids_def)
    have "acyclic (set (dep_edges d'))"
      using inv new(2) edges sql_union.guard_keeps_acyclic [of "dep_edges d" a b]
      by (simp add: inv_defs sql_union.reach_set del: closure.simps)
    then have "deps_inv d'" using inv new same by (auto simp: inv_defs)
    moreover have "hierarchy_inv d'"
      using inv same by (auto simp: db_inv_def intro: hierarchy_inv_cong)
    moreover have "keys_inv d'" using inv new(1,3) edges by (auto simp: inv_defs)
    moreover have "\<forall>v \<in> set (verifications d'). verification_ok d' v"
      using inv new(1) same by (simp add: db_inv_def verification_ok_def)
    moreover have "log_inv d'"
      using inv new(1) same log_inv_cong [of d d'] by (simp add: db_inv_def)
    ultimately show ?thesis by (simp add: db_inv_def)
  qed
qed

lemma delete_dependency_keeps [stmt_pres]: "stmt_keeps db_inv (delete_dependency a b)"
proof (rule stmt_keepsI)
  fix d x d'
  assume inv: "db_inv d" and step: "delete_dependency a b d = Inr (x, d')"
  have sub: "set (dep_edges d') \<subseteq> set (dep_edges d)"
    using step by (auto simp: delete_dependency_def dep_edges_def)
  have "acyclic (set (dep_edges d'))"
    using inv sub by (auto simp: inv_defs intro: acyclic_subset)
  then have "deps_inv d'"
    using inv step by (auto simp: inv_defs delete_dependency_def node_ids_def)
  moreover have "keys_inv d'"
    using inv step by (auto simp: inv_defs delete_dependency_def dep_edges_def distinct_map_filter_key)
  moreover have "hierarchy_inv d'"
    using inv step by (auto simp: db_inv_def delete_dependency_def project_ids_def intro: hierarchy_inv_cong)
  moreover have "log_inv d'"
    using inv step by (auto simp: db_inv_def delete_dependency_def node_ids_def project_ids_def
        intro: log_inv_cong)
  ultimately show "db_inv d'"
    using inv step by (auto simp: db_inv_def delete_dependency_def verification_ok_def node_ids_def)
qed

section \<open>Verifications, events, ledger, projects\<close>

lemma db_inv_verifications:
  assumes "db_inv d" "distinct (map v_node_id vs)" "\<forall>v \<in> set vs. verification_ok d v"
  shows "db_inv (d\<lparr>verifications := vs\<rparr>)"
proof -
  let ?d = "d\<lparr>verifications := vs\<rparr>"
  have same: "node_ids ?d = node_ids d" "project_ids ?d = project_ids d" "dep_edges ?d = dep_edges d"
    by (simp_all add: node_ids_def project_ids_def dep_edges_def)
  have "hierarchy_inv ?d" "log_inv ?d"
    using assms(1) hierarchy_inv_cong [of d ?d] log_inv_cong [of d ?d] same
    by (simp_all add: db_inv_def)
  then show ?thesis
    using assms same by (simp add: db_inv_def keys_inv_def deps_inv_def verification_ok_def)
qed

lemma db_inv_verifs:
  "db_inv d \<Longrightarrow> distinct (map v_node_id (verifications d))"
  "db_inv d \<Longrightarrow> v \<in> set (verifications d) \<Longrightarrow> verification_ok d v"
  by (simp_all add: db_inv_def keys_inv_def)

lemma upsert_verification_keeps:
  assumes f: "\<And>w. v_node_id (f w) = v_node_id w"
    and m: "\<And>w. check_verification w \<Longrightarrow> check_verification v \<Longrightarrow> check_verification (f w)"
  shows "stmt_keeps db_inv (upsert_verification E v f)"
proof (rule stmt_keepsI)
  fix d x d'
  assume inv: "db_inv d" and step: "upsert_verification E v f d = Inr (x, d')"
  have vs: "distinct (map v_node_id (verifications d))" "\<forall>v \<in> set (verifications d). verification_ok d v"
    using inv by (auto simp: inv_defs)
  show "db_inv d'"
  proof (cases "find_verification d (v_node_id v)")
    case None
    then have "d' = d\<lparr>verifications := verifications d @ [v]\<rparr>" "check_verification v" "v_node_id v \<in> node_ids d"
      using step by (auto simp: upsert_verification_def split: if_splits)
    moreover have "v_node_id v \<notin> v_node_id ` set (verifications d)"
      using None by (simp add: find_verification_def find_None_iff_key)
    ultimately show ?thesis
      using vs inv by (auto simp: verification_ok_def intro!: db_inv_verifications)
  next
    case (Some old)
    let ?vs = "map (\<lambda>w. if v_node_id w = v_node_id v then f w else w) (verifications d)"
    have "d' = d\<lparr>verifications := ?vs\<rparr>" and "check_verification v"
      using Some step by (auto simp: upsert_verification_def split: if_splits)
    moreover have "map v_node_id ?vs = map v_node_id (verifications d)" using f by simp
    moreover have "verification_ok d (f w)" if "w \<in> set (verifications d)" for w
      using vs(2) that m f \<open>check_verification v\<close> by (simp add: verification_ok_def)
    ultimately show ?thesis
      using vs inv by (auto intro!: db_inv_verifications simp del: map_map)
  qed
qed

lemma upsert_report_keeps [stmt_pres]: "stmt_keeps db_inv (upsert_report E i r a t)"
proof (rule stmt_keepsI)
  fix d x d'
  assume "db_inv d" and "upsert_report E i r a t d = Inr (x, d')"
  then show "db_inv d'"
    unfolding upsert_report_def Let_def
    by (rule stmt_keepsD [OF upsert_verification_keeps, rotated 2])
      (auto simp: check_verification_def)
qed

lemma upsert_verdict_keeps [stmt_pres]: "stmt_keeps db_inv (upsert_verdict E i r)"
proof (rule stmt_keepsI)
  fix d x d'
  assume "db_inv d" and "upsert_verdict E i r d = Inr (x, d')"
  then show "db_inv d'"
    unfolding upsert_verdict_def
    by (rule stmt_keepsD [OF upsert_verification_keeps, rotated 2])
      (auto simp: check_verification_def)
qed

lemma verification_ok_cleared:
  "verification_ok d w \<Longrightarrow> verification_ok d (w\<lparr>v_human_verdict := None, v_human_at := None\<rparr>)"
  by (simp add: verification_ok_def check_verification_def)

lemma clear_verdict_keeps [stmt_pres]: "stmt_keeps db_inv (clear_verdict i)"
proof (rule stmt_keepsI)
  fix d x d'
  assume inv: "db_inv d" and step: "clear_verdict i d = Inr (x, d')"
  let ?f = "\<lambda>w. if v_node_id w = i then w\<lparr>v_human_verdict := None, v_human_at := None\<rparr> else w"
  have "v_node_id \<circ> ?f = v_node_id" by auto
  then have "map v_node_id (map ?f (verifications d)) = map v_node_id (verifications d)"
    by simp
  then have "distinct (map v_node_id (map ?f (verifications d)))"
    using db_inv_verifs(1) [OF inv] by (simp only:)
  moreover have "\<forall>w \<in> set (map ?f (verifications d)). verification_ok d w"
    using db_inv_verifs(2) [OF inv] verification_ok_cleared by auto
  ultimately have "db_inv (d\<lparr>verifications := map ?f (verifications d)\<rparr>)"
    by (intro db_inv_verifications [OF inv])
  then show "db_inv d'" using step by (simp add: clear_verdict_def)
qed

lemma delete_verification_keeps [stmt_pres]: "stmt_keeps db_inv (delete_verification i)"
  by (rule stmt_keepsI)
    (auto simp: delete_verification_def distinct_map_filter_key db_inv_verifs intro!: db_inv_verifications)

lemma insert_event_cases:
  assumes "insert_event E p n k a s t d = Inr (e, d')"
  shows "e = \<lparr>e_seq = last_seq d + 1, e_project_id = p, e_node_id = n, e_kind = k, e_author = a,
        e_summary = s, e_payload = t, e_created_at = clock E\<rparr>"
    "d' = d\<lparr>events := events d @ [e], last_seq := last_seq d + 1\<rparr>"
    "last_seq d \<noteq> max_seq" "event_kind_ok k" "p \<in> project_ids d"
    "set_option n \<subseteq> node_ids d" "json_valid E t"
  using assms by (auto simp: insert_event_def Let_def split: if_splits option.splits)

lemma insert_event_keeps [stmt_pres]: "stmt_keeps db_inv (insert_event E p n k a s t)"
proof (rule stmt_keepsI)
  fix d e d'
  assume inv: "db_inv d" and step: "insert_event E p n k a s t d = Inr (e, d')"
  note c = insert_event_cases [OF step]
  have same: "nodes d' = nodes d" "node_ids d' = node_ids d" "project_ids d' = project_ids d"
    using c(2) by (simp_all add: node_ids_def project_ids_def)
  have le: "\<And>x. x \<in> set (events d) \<Longrightarrow> e_seq x < last_seq d + 1"
    using inv by (fastforce simp: inv_defs event_ok_def)
  have "sorted_wrt (<) (map e_seq (events d'))"
    using inv c(1,2) le by (auto simp: inv_defs sorted_wrt_append)
  moreover have "event_ok d' x" if "x \<in> set (events d')" for x
  proof (cases "x \<in> set (events d)")
    case True
    then have "event_ok d x" using inv by (simp add: inv_defs)
    then show ?thesis using c(2) same by (auto simp: event_ok_def)
  next
    case False
    then have "x = e" using that c(2) by simp
    then show ?thesis using inv c same by (auto simp: event_ok_def inv_defs)
  qed
  ultimately have "log_inv d'" using inv c(2,3) by (auto simp: inv_defs)
  moreover have "hierarchy_inv d'" using inv same by (auto simp: db_inv_def intro: hierarchy_inv_cong)
  ultimately show "db_inv d'"
    using inv c(2) same
    by (simp add: db_inv_def keys_inv_def deps_inv_def dep_edges_def verification_ok_def)
qed

lemma insert_ledger_keeps [stmt_pres]: "stmt_keeps db_inv (insert_ledger E s k q e)"
proof (rule stmt_keepsI)
  fix d x d'
  assume inv: "db_inv d" and step: "insert_ledger E s k q e d = Inr (x, d')"
  have d': "d' = d \<or> d' = d\<lparr>idempotency := idempotency d @
             [\<lparr>i_project_id = s, i_key = k, i_seq = q, i_entity_id = e,
               i_created_at = clock E\<rparr>]\<rparr> \<and> find_ledger d s k = None"
    using step by (auto simp: insert_ledger_def split: if_splits)
  have same: "nodes d' = nodes d" "node_ids d' = node_ids d" "project_ids d' = project_ids d"
    using d' by (auto simp: node_ids_def project_ids_def)
  have "keys_inv d'"
    using inv d' by (auto simp: inv_defs find_ledger_def find_None_iff dep_edges_def)
  moreover have "hierarchy_inv d'" using inv same by (auto simp: db_inv_def intro: hierarchy_inv_cong)
  ultimately show "db_inv d'"
    using inv d' same
    by (auto simp: db_inv_def deps_inv_def dep_edges_def verification_ok_def log_inv_def event_ok_def)
qed

lemma insert_project_keeps [stmt_pres]: "stmt_keeps db_inv (insert_project E i n t)"
proof (rule stmt_keepsI)
  fix d x d'
  assume inv: "db_inv d" and step: "insert_project E i n t d = Inr (x, d')"
  have d': "d' = d\<lparr>projects := projects d @
             [\<lparr>p_id = i, p_name = n, p_description = t, p_archived_at = None,
               p_created_at = clock E, p_updated_at = clock E\<rparr>]\<rparr>" "i \<notin> project_ids d"
    using step by (auto simp: insert_project_def split: if_splits)
  have same: "nodes d' = nodes d" "node_ids d' = node_ids d" "project_ids d \<subseteq> project_ids d'"
    using d' by (auto simp: node_ids_def project_ids_def)
  have "keys_inv d'" using inv d' by (auto simp: inv_defs dep_edges_def project_ids_def)
  moreover have "hierarchy_inv d'" using inv same by (auto simp: db_inv_def intro: hierarchy_inv_cong)
  moreover have "log_inv d'" using inv d' same log_inv_cong [of d d'] by (simp add: db_inv_def)
  ultimately show "db_inv d'"
    using inv d' same by (simp add: db_inv_def deps_inv_def dep_edges_def verification_ok_def)
qed

lemma update_project_keeps [stmt_pres]:
  assumes "\<And>p. p_id (f p) = p_id p"
  shows "stmt_keeps db_inv (update_project i f)"
proof (rule stmt_keepsI)
  fix d x d'
  assume inv: "db_inv d" and step: "update_project i f d = Inr (x, d')"
  let ?g = "\<lambda>p. if p_id p = i then f p else p"
  have "p_id \<circ> ?g = p_id" using assms by auto
  then have m: "map p_id (map ?g (projects d)) = map p_id (projects d)" by simp
  have d': "d' = d\<lparr>projects := map ?g (projects d)\<rparr>" using step by (simp add: update_project_def)
  have "project_ids d' = project_ids d"
    using arg_cong [OF m, of set] d' by (simp only: project_ids_def set_map) simp
  then have same: "nodes d' = nodes d" "node_ids d' = node_ids d" "project_ids d' = project_ids d"
    using d' by (auto simp: node_ids_def)
  have "keys_inv d'" using inv d' by (simp add: inv_defs dep_edges_def m del: map_map)
  moreover have "hierarchy_inv d'" using inv same by (auto simp: db_inv_def intro: hierarchy_inv_cong)
  moreover have "log_inv d'" using inv d' same log_inv_cong [of d d'] by (simp add: db_inv_def)
  ultimately show "db_inv d'"
    using inv d' same by (simp add: db_inv_def deps_inv_def dep_edges_def verification_ok_def)
qed

end
