(* ===== verification/Session_Rules.thy ===== *)
theory Session_Rules
  imports Schema_Inv
begin

text \<open>
  Reasoning about store operations as session programs: evaluation rules, invariants that
  hold of the live database and of the one a rollback returns to, and the outcomes of a
  transaction that starts on an idle session. The rules of the two invariants are collected
  in \<open>sm_rules\<close>.
\<close>

section \<open>Evaluation\<close>

lemma sm_bind_return [simp]: "sm_bind (sm_return x) f c = f x c"
  by (simp add: sm_bind_def sm_return_def)

lemma sm_bind_throw [simp]: "sm_bind (sm_throw e) f c = (Inl e, c)"
  by (simp add: sm_bind_def sm_throw_def)

lemma sm_bind_read: "sm_bind (read_db q) f c =
    (case q (live c) of Inl e \<Rightarrow> (Inl e, c) | Inr x \<Rightarrow> f x c)"
  by (simp add: sm_bind_def read_db_def split: sum.split)

lemma sm_bind_lift: "sm_bind (lift_res r) f c = (case r of Inl e \<Rightarrow> (Inl e, c) | Inr x \<Rightarrow> f x c)"
  by (simp add: sm_bind_def lift_res_def split: sum.split)

lemma sm_bind_run: "sm_bind (run_stmt u) f c =
    (case u (live c) of Inl e \<Rightarrow> (Inl e, c) | Inr (x, d) \<Rightarrow> f x (c\<lparr>live := d\<rparr>))"
  by (simp add: sm_bind_def run_stmt_def split: sum.split prod.split)

lemma sm_bind_run_ok: "u (live c) = Inr (x, d) \<Longrightarrow> sm_bind (run_stmt u) f c = f x (c\<lparr>live := d\<rparr>)"
  by (simp add: sm_bind_run)

lemma sm_bind_read_ok: "q (live c) = Inr x \<Longrightarrow> sm_bind (read_db q) f c = f x c"
  by (simp add: sm_bind_read)

lemma sm_bind_Inr: "m c = (Inr x, c1) \<Longrightarrow> sm_bind m f c = f x c1"
  by (simp add: sm_bind_def)

lemma sm_bind_Inl: "m c = (Inl e, c1) \<Longrightarrow> sm_bind m f c = (Inl e, c1)"
  by (simp add: sm_bind_def)

lemma sm_bind_assoc: "sm_bind (sm_bind m f) g c = sm_bind m (\<lambda>x. sm_bind (f x) g) c"
  by (simp add: sm_bind_def split: prod.split sum.split)

lemma sm_bind_InrE:
  assumes "sm_bind m f c = (Inr y, c')"
  obtains x c1 where "m c = (Inr x, c1)" "f x c1 = (Inr y, c')"
  using assms by (auto simp: sm_bind_def split: prod.splits sum.splits)

lemma run_stmt_eq_Inr:
  "run_stmt u c = (Inr x, c') \<longleftrightarrow> (\<exists>d. u (live c) = Inr (x, d) \<and> c' = c\<lparr>live := d\<rparr>)"
  by (auto simp: run_stmt_def split: sum.split)

lemma read_db_eq_Inr: "read_db q c = (Inr x, c') \<longleftrightarrow> q (live c) = Inr x \<and> c' = c"
  by (auto simp: read_db_def)

section \<open>Invariants of a session\<close>

definition conn_inv :: "('d \<Rightarrow> bool) \<Rightarrow> 'd conn \<Rightarrow> bool" where
  "conn_inv I c \<longleftrightarrow> I (live c) \<and> (\<forall>d. savepoint c = Some d \<longrightarrow> I d)"

definition sm_keeps :: "('d \<Rightarrow> bool) \<Rightarrow> ('d, 'a) sm \<Rightarrow> bool" where
  "sm_keeps I m \<longleftrightarrow> (\<forall>c. conn_inv I c \<longrightarrow> conn_inv I (snd (m c)))"

definition keeps_mark :: "('d, 'a) sm \<Rightarrow> bool" where
  "keeps_mark m \<longleftrightarrow> (\<forall>c. savepoint (snd (m c)) = savepoint c)"

lemma conn_inv_idle [simp]: "conn_inv I (idle d) = I d"
  by (simp add: conn_inv_def)

lemma conn_inv_durable: "conn_inv I c \<Longrightarrow> I (durable_db c)"
  by (simp add: conn_inv_def durable_db_def split: option.split)

lemma sm_keepsD: "sm_keeps I m \<Longrightarrow> conn_inv I c \<Longrightarrow> m c = (r, c') \<Longrightarrow> conn_inv I c'"
  by (metis sm_keeps_def snd_conv)

lemma keeps_markD: "keeps_mark m \<Longrightarrow> m c = (r, c') \<Longrightarrow> savepoint c' = savepoint c"
  by (metis keeps_mark_def snd_conv)

lemma sm_keeps_return [sm_rules]: "sm_keeps I (sm_return x)"
  by (simp add: sm_keeps_def sm_return_def)

lemma sm_keeps_throw [sm_rules]: "sm_keeps I (sm_throw e)"
  by (simp add: sm_keeps_def sm_throw_def)

lemma sm_keeps_read [sm_rules]: "sm_keeps I (read_db q)"
  by (simp add: sm_keeps_def read_db_def)

lemma sm_keeps_lift [sm_rules]: "sm_keeps I (lift_res r)"
  by (simp add: sm_keeps_def lift_res_def)

lemma sm_keeps_bind [sm_rules]:
  assumes "sm_keeps I m" "\<And>x. sm_keeps I (f x)"
  shows "sm_keeps I (sm_bind m f)"
  unfolding sm_keeps_def
proof (intro allI impI)
  fix c
  assume c: "conn_inv I c"
  obtain r c1 where m: "m c = (r, c1)" by fastforce
  have "conn_inv I c1" using sm_keepsD [OF assms(1) c m] .
  then show "conn_inv I (snd (sm_bind m f c))"
    using assms(2) m by (auto simp: sm_bind_def sm_keeps_def split: sum.split)
qed

lemma sm_keeps_run [sm_rules]:
  assumes "stmt_keeps I u"
  shows "sm_keeps I (run_stmt u)"
  using assms
  by (auto simp: sm_keeps_def run_stmt_def conn_inv_def split: sum.split dest: stmt_keepsD)

lemma sm_keeps_each [sm_rules]: "(\<And>x. sm_keeps I (f x)) \<Longrightarrow> sm_keeps I (sm_each f xs)"
  by (induction xs) (auto intro!: sm_rules)

lemma sm_keeps_if [sm_rules]: "sm_keeps I m \<Longrightarrow> sm_keeps I n \<Longrightarrow> sm_keeps I (if b then m else n)"
  by simp

lemma sm_keeps_option [sm_rules]:
  "sm_keeps I m \<Longrightarrow> (\<And>x. sm_keeps I (f x)) \<Longrightarrow> sm_keeps I (case z of None \<Rightarrow> m | Some x \<Rightarrow> f x)"
  by (cases z) auto

lemma sm_keeps_prod [sm_rules]: "(\<And>x y. sm_keeps I (f x y)) \<Longrightarrow> sm_keeps I (case p of (x, y) \<Rightarrow> f x y)"
  by (cases p) auto

lemma sm_keeps_tx [sm_rules]:
  assumes "sm_keeps I f"
  shows "sm_keeps I (in_tx E f)"
  unfolding sm_keeps_def
proof (intro allI impI)
  fix c
  assume c: "conn_inv I c"
  show "conn_inv I (snd (in_tx E f c))"
  proof (cases "savepoint c")
    case (Some d)
    then show ?thesis using c by (simp add: in_tx_def transaction_def sql_begin_def)
  next
    case None
    let ?c1 = "c\<lparr>savepoint := Some (live c)\<rparr>"
    obtain r c2 where f: "f ?c1 = (r, c2)" by fastforce
    have "conn_inv I ?c1" using c by (simp add: conn_inv_def)
    then have "conn_inv I c2" using sm_keepsD [OF assms _ f] by simp
    then show ?thesis using None f
      by (auto simp: in_tx_def transaction_def sql_begin_def sql_commit_def sql_rollback_def
          conn_inv_def split: sum.splits option.splits)
  qed
qed

text \<open>Programs without a transaction leave the savepoint alone.\<close>

lemma keeps_mark_return [sm_rules]: "keeps_mark (sm_return x)"
  by (simp add: keeps_mark_def sm_return_def)

lemma keeps_mark_throw [sm_rules]: "keeps_mark (sm_throw e)"
  by (simp add: keeps_mark_def sm_throw_def)

lemma keeps_mark_read [sm_rules]: "keeps_mark (read_db q)"
  by (simp add: keeps_mark_def read_db_def)

lemma keeps_mark_lift [sm_rules]: "keeps_mark (lift_res r)"
  by (simp add: keeps_mark_def lift_res_def)

lemma keeps_mark_run [sm_rules]: "keeps_mark (run_stmt u)"
  by (auto simp: keeps_mark_def run_stmt_def split: sum.split)

lemma keeps_mark_bind [sm_rules]:
  assumes "keeps_mark m" "\<And>x. keeps_mark (f x)"
  shows "keeps_mark (sm_bind m f)"
  using assms by (auto simp: keeps_mark_def sm_bind_def split: prod.split sum.split)
    (metis snd_conv)+

lemma keeps_mark_each [sm_rules]: "(\<And>x. keeps_mark (f x)) \<Longrightarrow> keeps_mark (sm_each f xs)"
  by (induction xs) (auto intro!: sm_rules)

lemma keeps_mark_if [sm_rules]: "keeps_mark m \<Longrightarrow> keeps_mark n \<Longrightarrow> keeps_mark (if b then m else n)"
  by simp

lemma keeps_mark_option [sm_rules]:
  "keeps_mark m \<Longrightarrow> (\<And>x. keeps_mark (f x)) \<Longrightarrow> keeps_mark (case z of None \<Rightarrow> m | Some x \<Rightarrow> f x)"
  by (cases z) auto

lemma keeps_mark_prod [sm_rules]: "(\<And>x y. keeps_mark (f x y)) \<Longrightarrow> keeps_mark (case p of (x, y) \<Rightarrow> f x y)"
  by (cases p) auto

section \<open>Outcomes of a transaction\<close>

text \<open>The session between \<open>BEGIN\<close> and \<open>COMMIT\<close>: a state \<open>d'\<close> over the database \<open>d\<close>.\<close>

definition within :: "'d \<Rightarrow> 'd \<Rightarrow> 'd conn" where
  "within d d' = \<lparr>live = d', savepoint = Some d\<rparr>"

lemma within_sel [simp]:
  "live (within d d') = d'" "savepoint (within d d') = Some d"
  "(within d d')\<lparr>live := x\<rparr> = within d x" "durable_db (within d d') = d"
  by (simp_all add: within_def durable_db_def)

lemma within_of_mark: "savepoint c = Some d \<Longrightarrow> c = within d (live c)"
  by (simp add: within_def)

lemma idle_of_mark: "savepoint c = None \<Longrightarrow> c = idle (live c)"
  by (simp add: idle_def)

lemma in_tx_idle:
  assumes "keeps_mark f"
  shows "in_tx E f (idle d) = (case f (within d d) of
      (Inl e, c) \<Rightarrow> (Inl e, idle d)
    | (Inr v, c) \<Rightarrow> (case commit_error E of
          Some m \<Rightarrow> (Inl (from_db_message m), within d (live c))
        | None \<Rightarrow> (Inr v, idle (live c))))"
proof -
  obtain r c where f: "f (within d d) = (r, c)" by fastforce
  have "savepoint c = Some d" using keeps_markD [OF assms f] by simp
  moreover have "\<lparr>live = d, savepoint = Some d\<rparr> = within d d" by (simp add: within_def)
  ultimately show ?thesis using f
    by (auto simp: in_tx_def transaction_def sql_begin_def sql_commit_def sql_rollback_def idle_def
        within_def split: sum.splits option.splits)
qed

lemma in_tx_open:
  "savepoint c = Some d \<Longrightarrow> in_tx E f c = (Inl (violation_error E NestedBegin), c)"
  by (simp add: in_tx_def transaction_def sql_begin_def)

text \<open>
  The durable database after an operation is the old one when the operation ends in an
  error, provided that what follows its transaction cannot fail.
\<close>

definition atomic_on :: "('d \<Rightarrow> bool) \<Rightarrow> ('d, 'a) sm \<Rightarrow> bool" where
  "atomic_on I m \<longleftrightarrow> (\<forall>c e c'. conn_inv I c \<longrightarrow> m c = (Inl e, c') \<longrightarrow> durable_db c' = durable_db c)"

text \<open>Programs that leave the whole session as it is.\<close>

definition reads_only :: "('d, 'a) sm \<Rightarrow> bool" where
  "reads_only m \<longleftrightarrow> (\<forall>c. snd (m c) = c)"

lemma reads_only_read [sm_rules]: "reads_only (read_db q)"
  by (simp add: reads_only_def read_db_def)

lemma reads_only_lift [sm_rules]: "reads_only (lift_res q)"
  by (simp add: reads_only_def lift_res_def)

lemma reads_only_return [sm_rules]: "reads_only (sm_return q)"
  by (simp add: reads_only_def sm_return_def)

lemma reads_only_throw [sm_rules]: "reads_only (sm_throw q)"
  by (simp add: reads_only_def sm_throw_def)

lemma reads_onlyD: "reads_only m \<Longrightarrow> m c = (r, c') \<Longrightarrow> c' = c"
  by (metis reads_only_def snd_conv)

lemma atomic_on_reads: "reads_only m \<Longrightarrow> atomic_on I m"
  by (auto simp: atomic_on_def dest: reads_onlyD)

lemma atomic_on_reads_bind:
  assumes "reads_only m" "\<And>x. atomic_on I (f x)"
  shows "atomic_on I (sm_bind m f)"
  unfolding atomic_on_def
proof (intro allI impI)
  fix c e c'
  assume inv: "conn_inv I c" and run: "sm_bind m f c = (Inl e, c')"
  obtain r c1 where m: "m c = (r, c1)" by fastforce
  with assms(1) have "c1 = c" by (auto dest: reads_onlyD)
  with m run assms(2) inv show "durable_db c' = durable_db c"
    by (auto simp: sm_bind_def atomic_on_def split: sum.splits)
qed

lemma atomic_on_if: "atomic_on I m \<Longrightarrow> atomic_on I n \<Longrightarrow> atomic_on I (if b then m else n)"
  by simp

lemma atomic_on_option:
  "atomic_on I m \<Longrightarrow> (\<And>x. atomic_on I (f x)) \<Longrightarrow> atomic_on I (case z of None \<Rightarrow> m | Some x \<Rightarrow> f x)"
  by (cases z) auto

lemma tx_error_durable:
  assumes inv: "conn_inv I c" and mark: "keeps_mark f" and keeps: "sm_keeps I f"
    and total: "\<And>x d. savepoint c = None \<Longrightarrow> f (within (live c) (live c)) = (Inr x, within (live c) d) \<Longrightarrow>
      I d \<Longrightarrow> \<exists>y c'. g x (idle d) = (Inr y, c')"
    and run: "sm_bind (in_tx E f) g c = (Inl e, c')"
  shows "durable_db c' = durable_db c"
proof (cases "savepoint c")
  case (Some d)
  then show ?thesis using run by (simp add: sm_bind_def in_tx_open)
next
  case None
  let ?d = "live c"
  have c: "c = idle ?d" using None by (rule idle_of_mark)
  obtain r c1 where f: "f (within ?d ?d) = (r, c1)" by fastforce
  have c1: "c1 = within ?d (live c1)"
    using keeps_markD [OF mark f] by (simp add: within_of_mark)
  have tx: "in_tx E f c = (case r of
      Inl e \<Rightarrow> (Inl e, idle ?d)
    | Inr v \<Rightarrow> (case commit_error E of
          Some m \<Rightarrow> (Inl (from_db_message m), within ?d (live c1))
        | None \<Rightarrow> (Inr v, idle (live c1))))"
    using in_tx_idle [OF mark, of E ?d] f c by (simp split: sum.splits)
  have "conn_inv I (within ?d ?d)" using inv by (simp add: conn_inv_def)
  then have "I (live c1)" using sm_keepsD [OF keeps _ f] by (simp add: conn_inv_def)
  then have ok: "\<exists>y c''. g v (idle (live c1)) = (Inr y, c'')" if "r = Inr v" for v
    using total [OF None, of v "live c1"] f c1 that by simp
  have "c' = idle ?d \<or> c' = within ?d (live c1)"
    using run ok tx by (auto simp: sm_bind_def split: sum.splits option.splits)
  then show ?thesis by (metis c durable_db_idle within_sel(4))
qed

lemma atomic_on_tx:
  assumes mark: "keeps_mark f" and keeps: "sm_keeps I f"
    and total: "\<And>x d. I d \<Longrightarrow> \<exists>y c'. g x (idle d) = (Inr y, c')"
  shows "atomic_on I (sm_bind (in_tx E f) g)"
  unfolding atomic_on_def
proof (intro allI impI)
  fix c e c'
  assume inv: "conn_inv I c" and run: "sm_bind (in_tx E f) g c = (Inl e, c')"
  show "durable_db c' = durable_db c"
    by (rule tx_error_durable [OF inv mark keeps _ run]) (rule total)
qed

end
