(* ===== verification/Proto.thy ===== *)
theory Proto
  imports Prelude
begin

text \<open>
  The messages and enumerations of the API, as the protobuf compiler generated them for the
  Rust code (\<open>flowcore/src/generated/flow.v1.rs\<close>): a message is a record with the fields in the
  order of the source, each prefixed by the message's initials; an enumeration-typed field
  holds the \<open>i32\<close> the wire carries, and the enumerations give the numbers their names.
\<close>

section \<open>Enumerations\<close>

datatype node_kind = NodeKind_Unspecified | NodeKind_WorkPackage | NodeKind_Task | NodeKind_Step

fun node_kind_i32 :: "node_kind \<Rightarrow> int" where
  "node_kind_i32 NodeKind_Unspecified = 0"
| "node_kind_i32 NodeKind_WorkPackage = 1"
| "node_kind_i32 NodeKind_Task = 2"
| "node_kind_i32 NodeKind_Step = 3"

fun node_kind_str_name :: "node_kind \<Rightarrow> string" where
  "node_kind_str_name NodeKind_Unspecified = ''NODE_KIND_UNSPECIFIED''"
| "node_kind_str_name NodeKind_WorkPackage = ''NODE_KIND_WORK_PACKAGE''"
| "node_kind_str_name NodeKind_Task = ''NODE_KIND_TASK''"
| "node_kind_str_name NodeKind_Step = ''NODE_KIND_STEP''"

definition node_kind_from_str_name :: "string \<Rightarrow> node_kind option" where
  "node_kind_from_str_name s = (
     if s = ''NODE_KIND_UNSPECIFIED'' then Some NodeKind_Unspecified
     else if s = ''NODE_KIND_WORK_PACKAGE'' then Some NodeKind_WorkPackage
     else if s = ''NODE_KIND_TASK'' then Some NodeKind_Task
     else if s = ''NODE_KIND_STEP'' then Some NodeKind_Step
     else None)"

datatype declared_status = DeclaredStatus_Unspecified | DeclaredStatus_Open | DeclaredStatus_Deferred | DeclaredStatus_Done

fun declared_status_i32 :: "declared_status \<Rightarrow> int" where
  "declared_status_i32 DeclaredStatus_Unspecified = 0"
| "declared_status_i32 DeclaredStatus_Open = 1"
| "declared_status_i32 DeclaredStatus_Deferred = 2"
| "declared_status_i32 DeclaredStatus_Done = 3"

fun declared_status_str_name :: "declared_status \<Rightarrow> string" where
  "declared_status_str_name DeclaredStatus_Unspecified = ''DECLARED_STATUS_UNSPECIFIED''"
| "declared_status_str_name DeclaredStatus_Open = ''DECLARED_STATUS_OPEN''"
| "declared_status_str_name DeclaredStatus_Deferred = ''DECLARED_STATUS_DEFERRED''"
| "declared_status_str_name DeclaredStatus_Done = ''DECLARED_STATUS_DONE''"

definition declared_status_from_str_name :: "string \<Rightarrow> declared_status option" where
  "declared_status_from_str_name s = (
     if s = ''DECLARED_STATUS_UNSPECIFIED'' then Some DeclaredStatus_Unspecified
     else if s = ''DECLARED_STATUS_OPEN'' then Some DeclaredStatus_Open
     else if s = ''DECLARED_STATUS_DEFERRED'' then Some DeclaredStatus_Deferred
     else if s = ''DECLARED_STATUS_DONE'' then Some DeclaredStatus_Done
     else None)"

datatype effective_status = EffectiveStatus_Unspecified | EffectiveStatus_Ready | EffectiveStatus_Blocked | EffectiveStatus_Deferred | EffectiveStatus_Done

fun effective_status_i32 :: "effective_status \<Rightarrow> int" where
  "effective_status_i32 EffectiveStatus_Unspecified = 0"
| "effective_status_i32 EffectiveStatus_Ready = 1"
| "effective_status_i32 EffectiveStatus_Blocked = 2"
| "effective_status_i32 EffectiveStatus_Deferred = 3"
| "effective_status_i32 EffectiveStatus_Done = 4"

fun effective_status_str_name :: "effective_status \<Rightarrow> string" where
  "effective_status_str_name EffectiveStatus_Unspecified = ''EFFECTIVE_STATUS_UNSPECIFIED''"
| "effective_status_str_name EffectiveStatus_Ready = ''EFFECTIVE_STATUS_READY''"
| "effective_status_str_name EffectiveStatus_Blocked = ''EFFECTIVE_STATUS_BLOCKED''"
| "effective_status_str_name EffectiveStatus_Deferred = ''EFFECTIVE_STATUS_DEFERRED''"
| "effective_status_str_name EffectiveStatus_Done = ''EFFECTIVE_STATUS_DONE''"

definition effective_status_from_str_name :: "string \<Rightarrow> effective_status option" where
  "effective_status_from_str_name s = (
     if s = ''EFFECTIVE_STATUS_UNSPECIFIED'' then Some EffectiveStatus_Unspecified
     else if s = ''EFFECTIVE_STATUS_READY'' then Some EffectiveStatus_Ready
     else if s = ''EFFECTIVE_STATUS_BLOCKED'' then Some EffectiveStatus_Blocked
     else if s = ''EFFECTIVE_STATUS_DEFERRED'' then Some EffectiveStatus_Deferred
     else if s = ''EFFECTIVE_STATUS_DONE'' then Some EffectiveStatus_Done
     else None)"

datatype work_package_state = WorkPackageState_Unspecified | WorkPackageState_Planned | WorkPackageState_Active | WorkPackageState_Done | WorkPackageState_Archived

fun work_package_state_i32 :: "work_package_state \<Rightarrow> int" where
  "work_package_state_i32 WorkPackageState_Unspecified = 0"
| "work_package_state_i32 WorkPackageState_Planned = 1"
| "work_package_state_i32 WorkPackageState_Active = 2"
| "work_package_state_i32 WorkPackageState_Done = 3"
| "work_package_state_i32 WorkPackageState_Archived = 4"

fun work_package_state_str_name :: "work_package_state \<Rightarrow> string" where
  "work_package_state_str_name WorkPackageState_Unspecified = ''WORK_PACKAGE_STATE_UNSPECIFIED''"
| "work_package_state_str_name WorkPackageState_Planned = ''WORK_PACKAGE_STATE_PLANNED''"
| "work_package_state_str_name WorkPackageState_Active = ''WORK_PACKAGE_STATE_ACTIVE''"
| "work_package_state_str_name WorkPackageState_Done = ''WORK_PACKAGE_STATE_DONE''"
| "work_package_state_str_name WorkPackageState_Archived = ''WORK_PACKAGE_STATE_ARCHIVED''"

definition work_package_state_from_str_name :: "string \<Rightarrow> work_package_state option" where
  "work_package_state_from_str_name s = (
     if s = ''WORK_PACKAGE_STATE_UNSPECIFIED'' then Some WorkPackageState_Unspecified
     else if s = ''WORK_PACKAGE_STATE_PLANNED'' then Some WorkPackageState_Planned
     else if s = ''WORK_PACKAGE_STATE_ACTIVE'' then Some WorkPackageState_Active
     else if s = ''WORK_PACKAGE_STATE_DONE'' then Some WorkPackageState_Done
     else if s = ''WORK_PACKAGE_STATE_ARCHIVED'' then Some WorkPackageState_Archived
     else None)"

datatype agent_result = AgentResult_Unspecified | AgentResult_Pass | AgentResult_Fail

fun agent_result_i32 :: "agent_result \<Rightarrow> int" where
  "agent_result_i32 AgentResult_Unspecified = 0"
| "agent_result_i32 AgentResult_Pass = 1"
| "agent_result_i32 AgentResult_Fail = 2"

fun agent_result_str_name :: "agent_result \<Rightarrow> string" where
  "agent_result_str_name AgentResult_Unspecified = ''AGENT_RESULT_UNSPECIFIED''"
| "agent_result_str_name AgentResult_Pass = ''AGENT_RESULT_PASS''"
| "agent_result_str_name AgentResult_Fail = ''AGENT_RESULT_FAIL''"

definition agent_result_from_str_name :: "string \<Rightarrow> agent_result option" where
  "agent_result_from_str_name s = (
     if s = ''AGENT_RESULT_UNSPECIFIED'' then Some AgentResult_Unspecified
     else if s = ''AGENT_RESULT_PASS'' then Some AgentResult_Pass
     else if s = ''AGENT_RESULT_FAIL'' then Some AgentResult_Fail
     else None)"

datatype human_verdict = HumanVerdict_Unspecified | HumanVerdict_Accepted | HumanVerdict_Rejected

fun human_verdict_i32 :: "human_verdict \<Rightarrow> int" where
  "human_verdict_i32 HumanVerdict_Unspecified = 0"
| "human_verdict_i32 HumanVerdict_Accepted = 1"
| "human_verdict_i32 HumanVerdict_Rejected = 2"

fun human_verdict_str_name :: "human_verdict \<Rightarrow> string" where
  "human_verdict_str_name HumanVerdict_Unspecified = ''HUMAN_VERDICT_UNSPECIFIED''"
| "human_verdict_str_name HumanVerdict_Accepted = ''HUMAN_VERDICT_ACCEPTED''"
| "human_verdict_str_name HumanVerdict_Rejected = ''HUMAN_VERDICT_REJECTED''"

definition human_verdict_from_str_name :: "string \<Rightarrow> human_verdict option" where
  "human_verdict_from_str_name s = (
     if s = ''HUMAN_VERDICT_UNSPECIFIED'' then Some HumanVerdict_Unspecified
     else if s = ''HUMAN_VERDICT_ACCEPTED'' then Some HumanVerdict_Accepted
     else if s = ''HUMAN_VERDICT_REJECTED'' then Some HumanVerdict_Rejected
     else None)"

datatype event_kind = EventKind_Unspecified | EventKind_NodeCreated | EventKind_NodeUpdated | EventKind_NodeDeleted | EventKind_StatusSet | EventKind_DepAdded | EventKind_DepRemoved | EventKind_AgentReported | EventKind_VerdictSet | EventKind_Comment

fun event_kind_i32 :: "event_kind \<Rightarrow> int" where
  "event_kind_i32 EventKind_Unspecified = 0"
| "event_kind_i32 EventKind_NodeCreated = 1"
| "event_kind_i32 EventKind_NodeUpdated = 2"
| "event_kind_i32 EventKind_NodeDeleted = 3"
| "event_kind_i32 EventKind_StatusSet = 4"
| "event_kind_i32 EventKind_DepAdded = 5"
| "event_kind_i32 EventKind_DepRemoved = 6"
| "event_kind_i32 EventKind_AgentReported = 7"
| "event_kind_i32 EventKind_VerdictSet = 8"
| "event_kind_i32 EventKind_Comment = 9"

fun event_kind_str_name :: "event_kind \<Rightarrow> string" where
  "event_kind_str_name EventKind_Unspecified = ''EVENT_KIND_UNSPECIFIED''"
| "event_kind_str_name EventKind_NodeCreated = ''EVENT_KIND_NODE_CREATED''"
| "event_kind_str_name EventKind_NodeUpdated = ''EVENT_KIND_NODE_UPDATED''"
| "event_kind_str_name EventKind_NodeDeleted = ''EVENT_KIND_NODE_DELETED''"
| "event_kind_str_name EventKind_StatusSet = ''EVENT_KIND_STATUS_SET''"
| "event_kind_str_name EventKind_DepAdded = ''EVENT_KIND_DEP_ADDED''"
| "event_kind_str_name EventKind_DepRemoved = ''EVENT_KIND_DEP_REMOVED''"
| "event_kind_str_name EventKind_AgentReported = ''EVENT_KIND_AGENT_REPORTED''"
| "event_kind_str_name EventKind_VerdictSet = ''EVENT_KIND_VERDICT_SET''"
| "event_kind_str_name EventKind_Comment = ''EVENT_KIND_COMMENT''"

definition event_kind_from_str_name :: "string \<Rightarrow> event_kind option" where
  "event_kind_from_str_name s = (
     if s = ''EVENT_KIND_UNSPECIFIED'' then Some EventKind_Unspecified
     else if s = ''EVENT_KIND_NODE_CREATED'' then Some EventKind_NodeCreated
     else if s = ''EVENT_KIND_NODE_UPDATED'' then Some EventKind_NodeUpdated
     else if s = ''EVENT_KIND_NODE_DELETED'' then Some EventKind_NodeDeleted
     else if s = ''EVENT_KIND_STATUS_SET'' then Some EventKind_StatusSet
     else if s = ''EVENT_KIND_DEP_ADDED'' then Some EventKind_DepAdded
     else if s = ''EVENT_KIND_DEP_REMOVED'' then Some EventKind_DepRemoved
     else if s = ''EVENT_KIND_AGENT_REPORTED'' then Some EventKind_AgentReported
     else if s = ''EVENT_KIND_VERDICT_SET'' then Some EventKind_VerdictSet
     else if s = ''EVENT_KIND_COMMENT'' then Some EventKind_Comment
     else None)"

lemmas enum_from_str_defs = node_kind_from_str_name_def declared_status_from_str_name_def effective_status_from_str_name_def work_package_state_from_str_name_def agent_result_from_str_name_def human_verdict_from_str_name_def event_kind_from_str_name_def

section \<open>Messages\<close>

record pb_project =
  pj_id :: string
  pj_name :: string
  pj_description :: string
  pj_created_at :: int
  pj_archived_at :: int

record pb_verification =
  vf_agent_result :: int
  vf_agent_name :: string
  vf_agent_at :: int
  vf_agent_detail :: string
  vf_human_verdict :: int
  vf_human_at :: int
  vf_stale :: bool

record pb_node =
  nd_id :: string
  nd_project_id :: string
  nd_parent_id :: string
  nd_kind :: int
  nd_title :: string
  nd_description :: string
  nd_condition :: string
  nd_declared_status :: int
  nd_status :: int
  nd_wp_state :: int
  nd_position :: int
  nd_verification :: "pb_verification option"
  nd_created_at :: int
  nd_updated_at :: int
  nd_reference :: string
  nd_note :: string

record pb_dependency =
  dy_blocker_id :: string
  dy_blocked_id :: string

record pb_event =
  ev_seq :: int
  ev_project_id :: string
  ev_node_id :: string
  ev_kind :: int
  ev_author :: string
  ev_summary :: string
  ev_payload_json :: string
  ev_created_at :: int

record pb_progress =
  pg_work_package_id :: string
  pg_total :: int
  pg_done :: int
  pg_ready :: int
  pg_blocked :: int
  pg_deferred :: int

record list_projects_request =
  lp_include_archived :: bool

record list_projects_response =
  lpr_projects :: "pb_project list"

record get_snapshot_request =
  gs_project_id :: string

record get_snapshot_response =
  gsr_project :: "pb_project option"
  gsr_nodes :: "pb_node list"
  gsr_dependencies :: "pb_dependency list"
  gsr_progress :: "pb_progress list"
  gsr_recent_events :: "pb_event list"
  gsr_seq :: int

record list_events_request =
  le_project_id :: string
  le_node_id :: string
  le_before_seq :: int
  le_limit :: int

record list_events_response =
  ler_events :: "pb_event list"
  ler_has_more :: bool

record search_request =
  sr_project_id :: string
  sr_query :: string
  sr_limit :: int

record search_response =
  srr_nodes :: "pb_node list"

record poll_changes_request =
  pc_project_id :: string
  pc_after_seq :: int
  pc_limit :: int

record poll_changes_response =
  pcr_events :: "pb_event list"
  pcr_seq :: int

record watch_request =
  wt_project_id :: string
  wt_from_seq :: int

record watch_response =
  wtr_events :: "pb_event list"
  wtr_changed_nodes :: "pb_node list"
  wtr_changed_progress :: "pb_progress list"
  wtr_seq :: int
  wtr_resync_required :: bool
  wtr_heartbeat :: bool

record write_meta =
  wm_author :: string
  wm_idempotency_key :: string

record create_node_request =
  cn_meta :: "write_meta option"
  cn_project_id :: string
  cn_parent_id :: string
  cn_kind :: int
  cn_title :: string
  cn_description :: string
  cn_condition :: string
  cn_position :: int
  cn_reference :: string
  cn_note :: string

record update_node_request =
  un_meta :: "write_meta option"
  un_node_id :: string
  un_update_mask :: "string list"
  un_title :: string
  un_description :: string
  un_condition :: string
  un_position :: int
  un_wp_state :: int
  un_reference :: string
  un_note :: string

record delete_node_request =
  dn_meta :: "write_meta option"
  dn_node_id :: string
  dn_fail_if_referenced :: bool

record set_status_request =
  ss_meta :: "write_meta option"
  ss_node_id :: string
  ss_declared_status :: int

record report_condition_request =
  rc_meta :: "write_meta option"
  rc_node_id :: string
  rc_result :: int
  rc_detail :: string

record set_verdict_request =
  sv_meta :: "write_meta option"
  sv_node_id :: string
  sv_verdict :: int

record add_comment_request =
  ac_meta :: "write_meta option"
  ac_node_id :: string
  ac_text :: string

record add_dependency_request =
  ad_meta :: "write_meta option"
  ad_blocker_id :: string
  ad_blocked_id :: string

record remove_dependency_request =
  rd_meta :: "write_meta option"
  rd_blocker_id :: string
  rd_blocked_id :: string

record undo_request =
  ud_meta :: "write_meta option"
  ud_project_id :: string
  ud_seq :: int

record create_project_request =
  cp_meta :: "write_meta option"
  cp_name :: string
  cp_description :: string

record create_project_response =
  cpr_project :: "pb_project option"

record update_project_request =
  up_meta :: "write_meta option"
  up_project_id :: string
  up_update_mask :: "string list"
  up_name :: string
  up_description :: string

record update_project_response =
  upr_project :: "pb_project option"

record archive_project_request =
  ap_meta :: "write_meta option"
  ap_project_id :: string
  ap_archived :: bool

record archive_project_response =
  apr_project :: "pb_project option"

record move_node_request =
  mv_meta :: "write_meta option"
  mv_node_id :: string
  mv_parent_id :: string
  mv_kind :: int

record mutation =
  mu_events :: "pb_event list"
  mu_changed_nodes :: "pb_node list"
  mu_changed_progress :: "pb_progress list"
  mu_seq :: int

record move_node_response =
  mvr_mutation :: "mutation option"

record create_node_response =
  cnr_mutation :: "mutation option"

record update_node_response =
  unr_mutation :: "mutation option"

record delete_node_response =
  dnr_mutation :: "mutation option"

record set_status_response =
  ssr_mutation :: "mutation option"

record report_condition_response =
  rcr_mutation :: "mutation option"

record set_verdict_response =
  svr_mutation :: "mutation option"

record add_comment_response =
  acr_mutation :: "mutation option"

record add_dependency_response =
  adr_mutation :: "mutation option"

record remove_dependency_response =
  rdr_mutation :: "mutation option"

record undo_response =
  udr_mutation :: "mutation option"

end
