(* ===== verification/Store_Rows.thy ===== *)
theory Store_Rows
  imports Session_Rules Proto
begin

text \<open>
  The free functions of \<open>flowcore/src/store.rs\<close> that turn result rows into messages and
  strings into codes. The columns a query selects are written out as a row, in the order of
  its \<open>SELECT\<close> list, and decoded with the typed getters; the lemmas of the last section show
  that decoding a typed row never fails, and what it returns.
\<close>

section \<open>Codes and their names\<close>

definition effective_status :: "string \<Rightarrow> int" where
  "effective_status s = (
     if s = ''READY'' then effective_status_i32 EffectiveStatus_Ready
     else if s = ''BLOCKED'' then effective_status_i32 EffectiveStatus_Blocked
     else if s = ''DEFERRED'' then effective_status_i32 EffectiveStatus_Deferred
     else if s = ''DONE'' then effective_status_i32 EffectiveStatus_Done
     else effective_status_i32 EffectiveStatus_Unspecified)"

definition kind_str :: "int \<Rightarrow> string" where
  "kind_str k = (if k = 1 then ''WORK_PACKAGE'' else if k = 2 then ''TASK'' else ''STEP'')"

definition declared_str :: "int \<Rightarrow> string" where
  "declared_str d = (if d = 1 then ''OPEN'' else if d = 2 then ''DEFERRED'' else ''DONE'')"

definition wp_str :: "int \<Rightarrow> string option" where
  "wp_str w = (if w = 1 then Some ''PLANNED'' else if w = 2 then Some ''ACTIVE''
     else if w = 3 then Some ''DONE'' else if w = 4 then Some ''ARCHIVED'' else None)"

definition wp_state_str :: "string option \<Rightarrow> string option" where
  "wp_state_str s = (
     if s = Some ''PLANNED'' then Some ''PLANNED''
     else if s = Some ''ACTIVE'' then Some ''ACTIVE''
     else if s = Some ''DONE'' then Some ''DONE''
     else if s = Some ''ARCHIVED'' then Some ''ARCHIVED''
     else None)"

definition declared_str_from :: "string \<Rightarrow> string" where
  "declared_str_from s = (if s = ''DEFERRED'' then ''DEFERRED''
     else if s = ''DONE'' then ''DONE'' else ''OPEN'')"

section \<open>Request metadata and JSON payloads\<close>

definition author_of :: "write_meta option \<Rightarrow> string" where
  "author_of meta = (case meta of None \<Rightarrow> '''' | Some m \<Rightarrow> wm_author m)"

definition idem_key :: "write_meta option \<Rightarrow> string option" where
  "idem_key meta = (case meta of None \<Rightarrow> None
     | Some m \<Rightarrow> (if wm_idempotency_key m = '''' then None else Some (wm_idempotency_key m)))"

definition payload_get :: "env \<Rightarrow> string \<Rightarrow> string \<Rightarrow> string option" where
  "payload_get E payload key = (case json_parse E payload of
     None \<Rightarrow> None
   | Some j \<Rightarrow> (case json_get j key of None \<Rightarrow> None | Some v \<Rightarrow> json_as_str v))"

definition str_val :: "json \<Rightarrow> string \<Rightarrow> string" where
  "str_val obj key = (case json_get obj key of
     None \<Rightarrow> '''' | Some v \<Rightarrow> (case json_as_str v of None \<Rightarrow> '''' | Some s \<Rightarrow> s))"

text \<open>\<open>json!({...}).to_string()\<close>: the keys of an object are printed in order.\<close>

definition node_before :: "pb_node \<Rightarrow> json" where
  "node_before n =
     (let wp = (if nd_kind n = node_kind_i32 NodeKind_WorkPackage then wp_str (nd_wp_state n) else None) in
      JObj [(''before'', JObj [
        (''condition'', JStr (nd_condition n)),
        (''declared_status'', JStr (declared_str (nd_declared_status n))),
        (''description'', JStr (nd_description n)),
        (''id'', JStr (nd_id n)),
        (''kind'', JStr (kind_str (nd_kind n))),
        (''note'', JStr (nd_note n)),
        (''parent_id'', JStr (nd_parent_id n)),
        (''position'', JInt (nd_position n)),
        (''project_id'', JStr (nd_project_id n)),
        (''reference'', JStr (nd_reference n)),
        (''title'', JStr (nd_title n)),
        (''wp_state'', json_of_opt wp)])])"

definition node_before_json :: "env \<Rightarrow> pb_node \<Rightarrow> string" where
  "node_before_json E n = json_text E (node_before n)"

section \<open>Rows of projects\<close>

definition coalesce_int :: "int option \<Rightarrow> sql_value" where
  "coalesce_int t = VInt (case t of None \<Rightarrow> 0 | Some n \<Rightarrow> n)"

definition coalesce_text :: "string option \<Rightarrow> sql_value" where
  "coalesce_text t = VText (case t of None \<Rightarrow> '''' | Some s \<Rightarrow> s)"

definition project_cells :: "project_row \<Rightarrow> row" where
  "project_cells p = [(''id'', VText (p_id p)), (''name'', VText (p_name p)),
     (''description'', VText (p_description p)),
     (''archived_at'', coalesce_int (p_archived_at p)),
     (''created_at'', VInt (p_created_at p))]"

definition row_to_project :: "row \<Rightarrow> pb_project res" where
  "row_to_project r =
     res_bind (get_str r ''id'') (\<lambda>i.
     res_bind (get_str r ''name'') (\<lambda>name.
     res_bind (get_str r ''description'') (\<lambda>description.
     res_bind (get_i64 r ''archived_at'') (\<lambda>archived_at.
     res_bind (get_i64 r ''created_at'') (\<lambda>created_at.
     Inr \<lparr>pj_id = i, pj_name = name, pj_description = description,
          pj_created_at = created_at, pj_archived_at = archived_at\<rparr>)))))"

section \<open>Rows of nodes\<close>

definition node_cells :: "db \<Rightarrow> node_row \<Rightarrow> row" where
  "node_cells d n = [(''id'', VText (n_id n)), (''project_id'', VText (n_project_id n)),
     (''parent_id'', coalesce_text (n_parent_id n)), (''kind'', VText (n_kind n)),
     (''title'', VText (n_title n)), (''description'', VText (n_description n)),
     (''condition'', VText (n_condition n)), (''note'', VText (n_note n)),
     (''reference'', coalesce_text (n_reference n)),
     (''declared_status'', VText (n_declared_status n)),
     (''wp_state'', value_of_opt_str (n_wp_state n)), (''position'', VInt (n_position n)),
     (''created_at'', VInt (n_created_at n)), (''updated_at'', VInt (n_updated_at n)),
     (''effective_status'', VText (node_status d n))]"

definition kind_of_str :: "string \<Rightarrow> node_kind" where
  "kind_of_str s = (if s = ''WORK_PACKAGE'' then NodeKind_WorkPackage
     else if s = ''TASK'' then NodeKind_Task else NodeKind_Step)"

definition declared_of_str :: "string \<Rightarrow> declared_status" where
  "declared_of_str s = (if s = ''DEFERRED'' then DeclaredStatus_Deferred
     else if s = ''DONE'' then DeclaredStatus_Done else DeclaredStatus_Open)"

definition wp_state_of_str :: "string option \<Rightarrow> work_package_state" where
  "wp_state_of_str s = (if s = Some ''ACTIVE'' then WorkPackageState_Active
     else if s = Some ''DONE'' then WorkPackageState_Done
     else if s = Some ''ARCHIVED'' then WorkPackageState_Archived
     else WorkPackageState_Planned)"

definition row_to_node :: "row \<Rightarrow> pb_node res" where
  "row_to_node r =
     res_bind (get_str r ''kind'') (\<lambda>kind.
     res_bind (get_str r ''declared_status'') (\<lambda>declared.
     res_bind (get_opt_str r ''wp_state'') (\<lambda>wp_state.
     res_bind (get_str r ''id'') (\<lambda>i.
     res_bind (get_str r ''project_id'') (\<lambda>project_id.
     res_bind (get_str r ''parent_id'') (\<lambda>parent_id.
     res_bind (get_str r ''title'') (\<lambda>title.
     res_bind (get_str r ''description'') (\<lambda>description.
     res_bind (get_str r ''condition'') (\<lambda>cond.
     res_bind (get_str r ''note'') (\<lambda>note.
     res_bind (get_str r ''reference'') (\<lambda>reference.
     res_bind (get_str r ''effective_status'') (\<lambda>status.
     res_bind (get_i32 r ''position'') (\<lambda>position.
     res_bind (get_i64 r ''created_at'') (\<lambda>created_at.
     res_bind (get_i64 r ''updated_at'') (\<lambda>updated_at.
     Inr \<lparr>nd_id = i, nd_project_id = project_id, nd_parent_id = parent_id,
          nd_kind = node_kind_i32 (kind_of_str kind), nd_title = title,
          nd_description = description, nd_condition = cond,
          nd_declared_status = declared_status_i32 (declared_of_str declared),
          nd_status = effective_status status,
          nd_wp_state = work_package_state_i32 (wp_state_of_str wp_state),
          nd_position = position, nd_verification = None, nd_created_at = created_at,
          nd_updated_at = updated_at, nd_reference = reference, nd_note = note\<rparr>)))))))))))))))"

section \<open>Rows of verifications\<close>

definition verification_cells :: "verification_row \<Rightarrow> node_row \<Rightarrow> row" where
  "verification_cells v n = [(''agent_result'', value_of_opt_str (v_agent_result v)),
     (''agent_name'', coalesce_text (v_agent_name v)),
     (''agent_at'', coalesce_int (v_agent_at v)), (''agent_detail'', VText (v_agent_detail v)),
     (''human_verdict'', value_of_opt_str (v_human_verdict v)),
     (''human_at'', coalesce_int (v_human_at v)),
     (''stale'', value_of_bool (case v_agent_node_rev v of
        None \<Rightarrow> False | Some seen \<Rightarrow> n_updated_at n > seen))]"

definition agent_result_of_str :: "string option \<Rightarrow> agent_result" where
  "agent_result_of_str s = (if s = Some ''PASS'' then AgentResult_Pass
     else if s = Some ''FAIL'' then AgentResult_Fail else AgentResult_Unspecified)"

definition human_verdict_of_str :: "string option \<Rightarrow> human_verdict" where
  "human_verdict_of_str s = (if s = Some ''ACCEPTED'' then HumanVerdict_Accepted
     else if s = Some ''REJECTED'' then HumanVerdict_Rejected else HumanVerdict_Unspecified)"

definition row_to_verification :: "row \<Rightarrow> pb_verification res" where
  "row_to_verification r =
     res_bind (get_opt_str r ''agent_result'') (\<lambda>agent_result.
     res_bind (get_opt_str r ''human_verdict'') (\<lambda>human_verdict.
     res_bind (get_str r ''agent_name'') (\<lambda>agent_name.
     res_bind (get_i64 r ''agent_at'') (\<lambda>agent_at.
     res_bind (get_opt_str r ''agent_detail'') (\<lambda>agent_detail.
     res_bind (get_i64 r ''human_at'') (\<lambda>human_at.
     res_bind (get_i64 r ''stale'') (\<lambda>stale.
     Inr \<lparr>vf_agent_result = agent_result_i32 (agent_result_of_str agent_result),
          vf_agent_name = agent_name, vf_agent_at = agent_at,
          vf_agent_detail = (case agent_detail of None \<Rightarrow> '''' | Some t \<Rightarrow> t),
          vf_human_verdict = human_verdict_i32 (human_verdict_of_str human_verdict),
          vf_human_at = human_at, vf_stale = (stale \<noteq> 0)\<rparr>)))))))"

section \<open>Rows of events\<close>

definition event_cells :: "event_row \<Rightarrow> row" where
  "event_cells e = [(''seq'', VInt (e_seq e)), (''project_id'', VText (e_project_id e)),
     (''node_id'', coalesce_text (e_node_id e)), (''kind'', VText (e_kind e)),
     (''author'', VText (e_author e)), (''summary'', VText (e_summary e)),
     (''payload_json'', VText (e_payload e)), (''created_at'', VInt (e_created_at e))]"

definition event_kind_of_str :: "string \<Rightarrow> event_kind" where
  "event_kind_of_str s = (
     if s = ''NODE_CREATED'' then EventKind_NodeCreated
     else if s = ''NODE_UPDATED'' then EventKind_NodeUpdated
     else if s = ''NODE_DELETED'' then EventKind_NodeDeleted
     else if s = ''STATUS_SET'' then EventKind_StatusSet
     else if s = ''DEP_ADDED'' then EventKind_DepAdded
     else if s = ''DEP_REMOVED'' then EventKind_DepRemoved
     else if s = ''AGENT_REPORTED'' then EventKind_AgentReported
     else if s = ''VERDICT_SET'' then EventKind_VerdictSet
     else if s = ''COMMENT'' then EventKind_Comment
     else EventKind_Unspecified)"

definition proto_event :: "row \<Rightarrow> pb_event res" where
  "proto_event r =
     res_bind (get_str r ''kind'') (\<lambda>kind.
     res_bind (get_i64 r ''seq'') (\<lambda>seq.
     res_bind (get_str r ''project_id'') (\<lambda>project_id.
     res_bind (get_str r ''node_id'') (\<lambda>node_id.
     res_bind (get_str r ''author'') (\<lambda>author.
     res_bind (get_str r ''summary'') (\<lambda>summary.
     res_bind (get_str r ''payload_json'') (\<lambda>payload_json.
     res_bind (get_i64 r ''created_at'') (\<lambda>created_at.
     Inr \<lparr>ev_seq = seq, ev_project_id = project_id, ev_node_id = node_id,
          ev_kind = event_kind_i32 (event_kind_of_str kind), ev_author = author,
          ev_summary = summary, ev_payload_json = payload_json,
          ev_created_at = created_at\<rparr>))))))))"

section \<open>What decoding returns\<close>

text \<open>The messages that the rows of the tables stand for.\<close>

definition project_msg :: "project_row \<Rightarrow> pb_project" where
  "project_msg p = \<lparr>pj_id = p_id p, pj_name = p_name p, pj_description = p_description p,
     pj_created_at = p_created_at p,
     pj_archived_at = (case p_archived_at p of None \<Rightarrow> 0 | Some t \<Rightarrow> t)\<rparr>"

definition bare_node_msg :: "db \<Rightarrow> node_row \<Rightarrow> pb_node" where
  "bare_node_msg d n = \<lparr>nd_id = n_id n, nd_project_id = n_project_id n,
     nd_parent_id = (case n_parent_id n of None \<Rightarrow> '''' | Some p \<Rightarrow> p),
     nd_kind = node_kind_i32 (kind_of_str (n_kind n)), nd_title = n_title n,
     nd_description = n_description n, nd_condition = n_condition n,
     nd_declared_status = declared_status_i32 (declared_of_str (n_declared_status n)),
     nd_status = effective_status (node_status d n),
     nd_wp_state = work_package_state_i32 (wp_state_of_str (n_wp_state n)),
     nd_position = wrap32 (n_position n), nd_verification = None,
     nd_created_at = n_created_at n, nd_updated_at = n_updated_at n,
     nd_reference = (case n_reference n of None \<Rightarrow> '''' | Some r \<Rightarrow> r), nd_note = n_note n\<rparr>"

definition verification_msg :: "verification_row \<Rightarrow> node_row \<Rightarrow> pb_verification" where
  "verification_msg v n = \<lparr>vf_agent_result = agent_result_i32 (agent_result_of_str (v_agent_result v)),
     vf_agent_name = (case v_agent_name v of None \<Rightarrow> '''' | Some a \<Rightarrow> a),
     vf_agent_at = (case v_agent_at v of None \<Rightarrow> 0 | Some t \<Rightarrow> t),
     vf_agent_detail = v_agent_detail v,
     vf_human_verdict = human_verdict_i32 (human_verdict_of_str (v_human_verdict v)),
     vf_human_at = (case v_human_at v of None \<Rightarrow> 0 | Some t \<Rightarrow> t),
     vf_stale = (case v_agent_node_rev v of None \<Rightarrow> False | Some seen \<Rightarrow> n_updated_at n > seen)\<rparr>"

definition event_msg :: "event_row \<Rightarrow> pb_event" where
  "event_msg e = \<lparr>ev_seq = e_seq e, ev_project_id = e_project_id e,
     ev_node_id = (case e_node_id e of None \<Rightarrow> '''' | Some i \<Rightarrow> i),
     ev_kind = event_kind_i32 (event_kind_of_str (e_kind e)), ev_author = e_author e,
     ev_summary = e_summary e, ev_payload_json = e_payload e, ev_created_at = e_created_at e\<rparr>"

lemmas coalesce_defs [row_simps] = coalesce_int_def coalesce_text_def value_of_bool_def

lemma row_to_project_ok [row_simps]: "row_to_project (project_cells p) = Inr (project_msg p)"
  by (simp add: row_to_project_def project_cells_def project_msg_def row_simps)

lemma case_value_of_opt_str [row_simps]:
  "(case value_of_opt_str s of VNull \<Rightarrow> Inr None | VInt i \<Rightarrow> f i | VReal r \<Rightarrow> g r
     | VText t \<Rightarrow> Inr (Some t) | VBlob b \<Rightarrow> h b) = Inr s"
  by (cases s) simp_all

lemma row_to_node_ok [row_simps]: "row_to_node (node_cells d n) = Inr (bare_node_msg d n)"
  by (simp add: row_to_node_def node_cells_def bare_node_msg_def row_simps)

lemma row_to_verification_ok [row_simps]:
  "row_to_verification (verification_cells v n) = Inr (verification_msg v n)"
  by (simp add: row_to_verification_def verification_cells_def verification_msg_def row_simps)

lemma proto_event_ok [row_simps]: "proto_event (event_cells e) = Inr (event_msg e)"
  by (simp add: proto_event_def event_cells_def event_msg_def row_simps)

lemma event_msg_sel [simp]:
  "ev_seq (event_msg e) = e_seq e" "ev_project_id (event_msg e) = e_project_id e"
  "ev_payload_json (event_msg e) = e_payload e"
  by (simp_all add: event_msg_def)

text \<open>Names and codes fit together on what the constraints admit.\<close>

lemma kind_str_of_row: "kind_ok k \<Longrightarrow> kind_str (node_kind_i32 (kind_of_str k)) = k"
  by (auto simp: kind_ok_def kind_str_def kind_of_str_def)

lemma declared_str_of_row:
  "declared_ok s \<Longrightarrow> declared_str (declared_status_i32 (declared_of_str s)) = s"
  by (auto simp: declared_ok_def declared_str_def declared_of_str_def)

lemma wp_str_of_row:
  "wp_state_ok s \<Longrightarrow> s \<noteq> None \<Longrightarrow> wp_str (work_package_state_i32 (wp_state_of_str s)) = s"
  by (auto simp: wp_state_ok_def wp_str_def wp_state_of_str_def)

lemma declared_ok_str [simp]: "declared_ok (declared_str k)" "declared_ok (declared_str_from s)"
  by (simp_all add: declared_ok_def declared_str_def declared_str_from_def)

lemma declared_str_from_id: "declared_ok s \<Longrightarrow> declared_str_from s = s"
  by (auto simp: declared_ok_def declared_str_from_def)

lemma wp_state_str_id: "wp_state_ok s \<Longrightarrow> wp_state_str s = s"
  by (auto simp: wp_state_ok_def wp_state_str_def)

lemma kind_ok_str [simp]: "kind_ok (kind_str k)"
  by (simp add: kind_ok_def kind_str_def)

end
