(* ===== verification/Store_Queries.thy ===== *)
theory Store_Queries
  imports Store_Rows
begin

text \<open>
  The shared helpers of the store that run SQL (the second half of \<open>flowcore/src/store.rs\<close>):
  single-row lookups, progress per work package, the idempotency ledger, new identifiers, the
  event log's \<open>append_event\<close>, and \<open>finish_mutation\<close>, which builds the answer to a write. A
  query is a function of the database; \<open>read_db\<close> runs it in a session. The ledger's laws are
  stated once, in the locale \<open>write_once_ledger\<close>.
\<close>

section \<open>Single rows\<close>

definition verification_for :: "string \<Rightarrow> db \<Rightarrow> pb_verification option res" where
  "verification_for i d = transpose_res row_to_verification
     (case find_verification d i of
        None \<Rightarrow> None
      | Some v \<Rightarrow> map_option (verification_cells v) (find_node d (v_node_id v)))"

definition fetch_node :: "string \<Rightarrow> db \<Rightarrow> pb_node option res" where
  "fetch_node i d =
     res_bind (transpose_res (\<lambda>n. row_to_node (node_cells d n)) (find_node d i)) (\<lambda>found.
     case found of
       None \<Rightarrow> Inr None
     | Some n \<Rightarrow> res_bind (verification_for (nd_id n) d) (\<lambda>v.
         Inr (Some (n\<lparr>nd_verification := v\<rparr>))))"

definition project_of :: "string \<Rightarrow> db \<Rightarrow> string res" where
  "project_of i d =
     res_bind (transpose_res (\<lambda>n. get_str [(''project_id'', VText (n_project_id n))] ''project_id'')
       (find_node d i)) (\<lambda>p.
     Inr (case p of None \<Rightarrow> '''' | Some s \<Rightarrow> s))"

definition fetch_project :: "string \<Rightarrow> db \<Rightarrow> pb_project option res" where
  "fetch_project i d = transpose_res (\<lambda>p. row_to_project (project_cells p)) (find_project d i)"

text \<open>A query whose first column is text, given by the rows it returns.\<close>

definition query_strings :: "row list \<Rightarrow> string list res" where
  "query_strings rs = collect_res (\<lambda>r. get_str_at r 0) rs"

text \<open>\<open>SELECT blocked_id FROM dependencies WHERE blocker_id = ?1\<close>.\<close>

definition blocked_rows :: "string \<Rightarrow> db \<Rightarrow> row list" where
  "blocked_rows i d = map (\<lambda>e. [(''blocked_id'', VText (d_blocked_id e))])
     (filter (\<lambda>e. d_blocker_id e = i) (dependencies d))"

definition downstream_of :: "string \<Rightarrow> db \<Rightarrow> string list res" where
  "downstream_of i d = query_strings (blocked_rows i d)"

section \<open>Progress\<close>

text \<open>
  The joined rows of the progress query before grouping: a task of the project with its
  steps, or the task itself when it has none, and the derived status of each such leaf.
\<close>

definition steps_of :: "db \<Rightarrow> node_row \<Rightarrow> node_row list" where
  "steps_of d t = filter (\<lambda>s. n_parent_id s = Some (n_id t) \<and> n_kind s = ''STEP'') (nodes d)"

definition leaf_ids :: "db \<Rightarrow> node_row \<Rightarrow> string list" where
  "leaf_ids d t = (case steps_of d t of [] \<Rightarrow> [n_id t] | s # ss \<Rightarrow> map n_id (s # ss))"

definition progress_pairs :: "string \<Rightarrow> db \<Rightarrow> (string option \<times> string) list" where
  "progress_pairs pid d = concat (map (\<lambda>t. concat (map (\<lambda>i.
       map (\<lambda>l. (n_parent_id t, node_status d l)) (filter (\<lambda>l. n_id l = i) (nodes d)))
     (leaf_ids d t)))
     (filter (\<lambda>t. n_kind t = ''TASK'' \<and> n_project_id t = pid) (nodes d)))"

definition count_of :: "'a \<Rightarrow> 'a list \<Rightarrow> int" where
  "count_of x xs = int (length (filter (\<lambda>y. y = x) xs))"

definition progress_cells :: "string option \<times> string list \<Rightarrow> row" where
  "progress_cells g = [(''wp_id'', value_of_opt_str (fst g)),
     (''total'', VInt (int (length (snd g)))),
     (''done'', VInt (count_of ''DONE'' (snd g))),
     (''deferred'', VInt (count_of ''DEFERRED'' (snd g))),
     (''ready'', VInt (count_of ''READY'' (snd g))),
     (''blocked'', VInt (count_of ''BLOCKED'' (snd g)))]"

text \<open>\<open>GROUP BY\<close> and \<open>ORDER BY\<close> the same column: one group per distinct key, in key order.\<close>

definition group_rows :: "('k :: linorder \<times> 'v) list \<Rightarrow> ('k \<times> 'v list) list" where
  "group_rows ps = map (\<lambda>k. (k, map snd (filter (\<lambda>p. fst p = k) ps))) (sort (remdups (map fst ps)))"

definition progress_row :: "row \<Rightarrow> pb_progress res" where
  "progress_row r =
     res_bind (get_str r ''wp_id'') (\<lambda>wp.
     res_bind (get_i32 r ''total'') (\<lambda>total.
     res_bind (get_i32 r ''done'') (\<lambda>dn.
     res_bind (get_i32 r ''ready'') (\<lambda>ready.
     res_bind (get_i32 r ''blocked'') (\<lambda>blocked.
     res_bind (get_i32 r ''deferred'') (\<lambda>deferred.
     Inr \<lparr>pg_work_package_id = wp, pg_total = total, pg_done = dn, pg_ready = ready,
          pg_blocked = blocked, pg_deferred = deferred\<rparr>))))))"

definition progress_for :: "string \<Rightarrow> db \<Rightarrow> pb_progress list res" where
  "progress_for pid d =
     collect_res (\<lambda>g. progress_row (progress_cells g)) (group_rows (progress_pairs pid d))"

section \<open>The idempotency ledger\<close>

definition check_idempotency :: "string \<Rightarrow> string option \<Rightarrow> db \<Rightarrow> int option res" where
  "check_idempotency pid key d = (case key of
     None \<Rightarrow> Inr None
   | Some k \<Rightarrow> transpose_res (\<lambda>r. get_i64 [(''seq'', VInt (i_seq r))] ''seq'') (find_ledger d pid k))"

definition record_idempotency ::
  "env \<Rightarrow> string \<Rightarrow> string option \<Rightarrow> int \<Rightarrow> (db, unit) sm" where
  "record_idempotency E pid key seq = (case key of
     None \<Rightarrow> sm_return ()
   | Some k \<Rightarrow> run_stmt (insert_ledger E pid k seq None))"

record idem_hit =
  hit_seq :: int
  hit_entity_id :: "string option"

definition check_idempotency_created ::
  "string \<Rightarrow> string option \<Rightarrow> db \<Rightarrow> idem_hit option res" where
  "check_idempotency_created scope key d = (case key of
     None \<Rightarrow> Inr None
   | Some k \<Rightarrow> transpose_res (\<lambda>r.
       (let cells = [(''seq'', VInt (i_seq r)), (''entity_id'', value_of_opt_str (i_entity_id r))] in
        res_bind (get_i64 cells ''seq'') (\<lambda>seq.
        res_bind (get_opt_str cells ''entity_id'') (\<lambda>entity.
        Inr \<lparr>hit_seq = seq, hit_entity_id = entity\<rparr>))))
       (find_ledger d scope k))"

definition record_idempotency_created ::
  "env \<Rightarrow> string \<Rightarrow> string option \<Rightarrow> int \<Rightarrow> string \<Rightarrow> (db, unit) sm" where
  "record_idempotency_created E scope key seq entity = (case key of
     None \<Rightarrow> sm_return ()
   | Some k \<Rightarrow> run_stmt (insert_ledger E scope k seq (Some entity)))"

section \<open>Identifiers, events and the answer to a write\<close>

definition new_id :: "env \<Rightarrow> string \<Rightarrow> string res" where
  "new_id E prefix =
     get_str_at [('''', VText (prefix @ ''-'' @ int_str (clock_ms E) @ ''-'' @ rand_hex E))] 0"

definition append_event ::
  "env \<Rightarrow> string \<Rightarrow> string \<Rightarrow> string \<Rightarrow> string \<Rightarrow> string \<Rightarrow> string \<Rightarrow> (db, pb_event) sm" where
  "append_event E pid i kind author summary payload =
     sm_bind (run_stmt (insert_event E pid (if i = '''' then None else Some i) kind author summary payload))
       (\<lambda>e. lift_res (proto_event (event_cells e)))"

definition empty_mutation :: "int \<Rightarrow> mutation" where
  "empty_mutation seq = \<lparr>mu_events = [], mu_changed_nodes = [], mu_changed_progress = [], mu_seq = seq\<rparr>"

fun changed_nodes :: "db \<Rightarrow> string list \<Rightarrow> string list \<Rightarrow> pb_node list res" where
  "changed_nodes d seen [] = Inr []"
| "changed_nodes d seen (i # is) =
     (if i \<in> set seen then changed_nodes d seen is
      else res_bind (fetch_node i d) (\<lambda>found.
           res_bind (changed_nodes d (i # seen) is) (\<lambda>ns.
           Inr (case found of None \<Rightarrow> ns | Some n \<Rightarrow> n # ns))))"

definition last_event_seq :: "pb_event list \<Rightarrow> int" where
  "last_event_seq evs = (if evs = [] then 0 else ev_seq (last evs))"

definition finish_mutation ::
  "string \<Rightarrow> pb_event list \<Rightarrow> string list \<Rightarrow> db \<Rightarrow> mutation res" where
  "finish_mutation pid evs affected d =
     res_bind (changed_nodes d [] affected) (\<lambda>ns.
     res_bind (progress_for pid d) (\<lambda>ps.
     Inr \<lparr>mu_events = evs, mu_changed_nodes = ns, mu_changed_progress = ps,
          mu_seq = last_event_seq evs\<rparr>))"

section \<open>What the lookups return\<close>

definition node_msg :: "db \<Rightarrow> node_row \<Rightarrow> pb_node" where
  "node_msg d n = (bare_node_msg d n)\<lparr>nd_verification :=
     (case find_verification d (n_id n) of None \<Rightarrow> None
      | Some v \<Rightarrow> map_option (verification_msg v) (find_node d (v_node_id v)))\<rparr>"

lemma node_msg_sel [simp]:
  "nd_id (node_msg d n) = n_id n" "nd_project_id (node_msg d n) = n_project_id n"
  "nd_status (node_msg d n) = effective_status (node_status d n)"
  "nd_kind (node_msg d n) = node_kind_i32 (kind_of_str (n_kind n))"
  "nd_declared_status (node_msg d n) = declared_status_i32 (declared_of_str (n_declared_status n))"
  "nd_parent_id (node_msg d n) = (case n_parent_id n of None \<Rightarrow> '''' | Some p \<Rightarrow> p)"
  by (simp_all add: node_msg_def bare_node_msg_def)

lemma verification_for_ok [row_simps]:
  "verification_for i d = Inr (case find_verification d i of None \<Rightarrow> None
      | Some v \<Rightarrow> map_option (verification_msg v) (find_node d (v_node_id v)))"
proof (cases "find_verification d i")
  case None
  then show ?thesis by (simp add: verification_for_def)
next
  case (Some v)
  then show ?thesis
    by (cases "find_node d (v_node_id v)") (simp_all add: verification_for_def row_simps)
qed

lemma fetch_node_ok [row_simps]: "fetch_node i d = Inr (map_option (node_msg d) (find_node d i))"
  by (cases "find_node d i") (simp_all add: fetch_node_def node_msg_def row_simps bare_node_msg_def)

lemma fetch_project_ok [row_simps]: "fetch_project i d = Inr (map_option project_msg (find_project d i))"
  by (cases "find_project d i") (simp_all add: fetch_project_def row_simps)

lemma project_of_ok [row_simps]:
  "project_of i d = Inr (case find_node d i of None \<Rightarrow> '''' | Some n \<Rightarrow> n_project_id n)"
  by (cases "find_node d i") (simp_all add: project_of_def row_simps)

lemma query_strings_ok [row_simps]: "query_strings (map (\<lambda>x. [(c, VText (f x))]) xs) = Inr (map f xs)"
  by (induction xs) (simp_all add: query_strings_def row_simps)

definition blocks :: "db \<Rightarrow> string \<Rightarrow> string list" where
  "blocks d i = map d_blocked_id (filter (\<lambda>e. d_blocker_id e = i) (dependencies d))"

lemma downstream_of_ok [row_simps]: "downstream_of i d = Inr (blocks d i)"
  by (simp add: downstream_of_def blocked_rows_def blocks_def row_simps)

lemma query_blocked_ok [row_simps]: "query_strings (blocked_rows i d) = Inr (blocks d i)"
  by (simp add: blocked_rows_def blocks_def row_simps)

lemma set_blocks: "set (blocks d i) = {j. (i, j) \<in> set (dep_edges d)}"
  by (auto simp: blocks_def dep_edges_def)

lemma check_idempotency_ok [row_simps]:
  "check_idempotency pid key d = Inr (case key of None \<Rightarrow> None
     | Some k \<Rightarrow> map_option i_seq (find_ledger d pid k))"
  by (cases key; cases "find_ledger d pid (the key)") (simp_all add: check_idempotency_def row_simps)

lemma check_created_ok [row_simps]:
  "check_idempotency_created scope key d = Inr (case key of None \<Rightarrow> None
     | Some k \<Rightarrow> map_option (\<lambda>r. \<lparr>hit_seq = i_seq r, hit_entity_id = i_entity_id r\<rparr>)
         (find_ledger d scope k))"
  by (cases key; cases "find_ledger d scope (the key)")
    (simp_all add: check_idempotency_created_def row_simps)

lemma new_id_ok [row_simps]: "new_id E prefix = Inr (prefix @ ''-'' @ int_str (clock_ms E) @ ''-'' @ rand_hex E)"
  by (simp add: new_id_def row_simps)

section \<open>Progress is total on good databases\<close>

definition progress_msg :: "string option \<times> string list \<Rightarrow> pb_progress" where
  "progress_msg g = \<lparr>pg_work_package_id = the (fst g), pg_total = wrap32 (int (length (snd g))),
     pg_done = wrap32 (count_of ''DONE'' (snd g)), pg_ready = wrap32 (count_of ''READY'' (snd g)),
     pg_blocked = wrap32 (count_of ''BLOCKED'' (snd g)),
     pg_deferred = wrap32 (count_of ''DEFERRED'' (snd g))\<rparr>"

lemma progress_row_ok:
  "fst g \<noteq> None \<Longrightarrow> progress_row (progress_cells g) = Inr (progress_msg g)"
  by (cases "fst g") (simp_all add: progress_row_def progress_cells_def progress_msg_def row_simps)

lemma task_has_parent:
  assumes "hierarchy_inv d" "t \<in> set (nodes d)" "n_kind t = ''TASK''"
  shows "n_parent_id t \<noteq> None"
  using assms by (auto simp: hierarchy_inv_def node_ok_def check_node_def shape_ok_def split: if_splits)

lemma progress_pairs_key:
  assumes "hierarchy_inv d" "x \<in> set (progress_pairs pid d)"
  shows "fst x \<noteq> None"
  using assms task_has_parent [OF assms(1)] by (auto simp: progress_pairs_def)

lemma group_rows_key: "g \<in> set (group_rows ps) \<Longrightarrow> fst g \<in> fst ` set ps"
  by (force simp: group_rows_def)

definition progress_of :: "string \<Rightarrow> db \<Rightarrow> pb_progress list" where
  "progress_of pid d = map progress_msg (group_rows (progress_pairs pid d))"

lemma progress_for_ok:
  assumes "hierarchy_inv d"
  shows "progress_for pid d = Inr (progress_of pid d)"
  unfolding progress_for_def progress_of_def
proof (rule collect_res_map)
  fix g
  assume "g \<in> set (group_rows (progress_pairs pid d))"
  then have "fst g \<noteq> None"
    using group_rows_key progress_pairs_key [OF assms] by fastforce
  then show "progress_row (progress_cells g) = Inr (progress_msg g)" by (rule progress_row_ok)
qed

section \<open>The answer to a write\<close>

fun firsts :: "'a list \<Rightarrow> 'a list \<Rightarrow> 'a list" where
  "firsts seen [] = []"
| "firsts seen (i # is) = (if i \<in> set seen then firsts seen is else i # firsts (i # seen) is)"

definition nodes_of :: "db \<Rightarrow> string list \<Rightarrow> pb_node list" where
  "nodes_of d is = List.map_filter (\<lambda>i. map_option (node_msg d) (find_node d i)) (firsts [] is)"

lemma set_firsts: "set (firsts seen is) = set is - set seen"
  by (induction seen "is" rule: firsts.induct) auto

lemma distinct_firsts: "distinct (firsts seen is)"
  by (induction seen "is" rule: firsts.induct) (auto simp: set_firsts)

lemma changed_nodes_ok:
  "changed_nodes d seen is =
     Inr (List.map_filter (\<lambda>i. map_option (node_msg d) (find_node d i)) (firsts seen is))"
  by (induction d seen "is" rule: changed_nodes.induct)
    (auto simp: row_simps map_filter_simps split: option.splits)

lemma finish_mutation_ok:
  assumes "hierarchy_inv d"
  shows "finish_mutation pid evs affected d =
    Inr \<lparr>mu_events = evs, mu_changed_nodes = nodes_of d affected,
         mu_changed_progress = progress_of pid d, mu_seq = last_event_seq evs\<rparr>"
  by (simp add: finish_mutation_def changed_nodes_ok progress_for_ok [OF assms] nodes_of_def)

lemma set_map_filter_iff: "y \<in> set (List.map_filter f xs) \<longleftrightarrow> (\<exists>x \<in> set xs. f x = Some y)"
  by (induction xs) (auto simp: map_filter_simps split: option.splits)

lemma nodes_of_iff:
  assumes "keys_inv d"
  shows "m \<in> set (nodes_of d is) \<longleftrightarrow> (\<exists>n \<in> set (nodes d). n_id n \<in> set is \<and> m = node_msg d n)"
proof -
  have "m \<in> set (nodes_of d is) \<longleftrightarrow>
      (\<exists>i \<in> set is. map_option (node_msg d) (find_node d i) = Some m)"
    by (simp only: nodes_of_def set_map_filter_iff set_firsts) simp
  also have "\<dots> \<longleftrightarrow> (\<exists>i \<in> set is. \<exists>n. (n \<in> set (nodes d) \<and> n_id n = i) \<and> node_msg d n = m)"
    by (simp only: map_option_eq_Some find_node_iff [OF assms])
  finally show ?thesis by blast
qed

end
