(* ===== verification/Paged_Log.thy ===== *)
theory Paged_Log
  imports Prelude
begin

text \<open>
  Reading a log in pages: the contract between a client that follows a cursor and the store
  that serves the pages. The log is strictly ordered by a key, a page is a bounded piece of
  it that begins behind the cursor, and the client goes on from the key of the last entry it
  got. The locale's theorem is that such a client sees every entry exactly once, in order.
\<close>

section \<open>The client\<close>

fun drain :: "nat \<Rightarrow> (int option \<Rightarrow> 'e list) \<Rightarrow> ('e \<Rightarrow> int) \<Rightarrow> int option \<Rightarrow> 'e list" where
  "drain 0 page key c = []"
| "drain (Suc n) page key c = (case page c of
     [] \<Rightarrow> []
   | e # es \<Rightarrow> (e # es) @ drain n page key (Some (key (last (e # es)))))"

section \<open>Strictly ordered lists\<close>

lemma filter_gt_take:
  assumes "sorted_wrt (<) (map key xs :: int list)" and "take k xs \<noteq> []"
  shows "filter (\<lambda>x. key (last (take k xs)) < key x) xs = drop k xs"
proof -
  have split: "xs = take k xs @ drop k xs" by simp
  then have s: "sorted_wrt (<) (map key (take k xs) @ map key (drop k xs))"
    using assms(1) by (metis map_append)
  have "\<And>x. x \<in> set (drop k xs) \<Longrightarrow> key (last (take k xs)) < key x"
    using s assms(2) by (simp add: sorted_wrt_append)
  moreover have "\<And>x. x \<in> set (take k xs) \<Longrightarrow> \<not> key (last (take k xs)) < key x"
  proof -
    fix x
    assume x: "x \<in> set (take k xs)"
    have "sorted_wrt (<) (map key (butlast (take k xs) @ [last (take k xs)]))"
      using s assms(2) by (simp add: sorted_wrt_append)
    moreover have "x \<in> set (butlast (take k xs) @ [last (take k xs)])"
      using x assms(2) by (simp add: append_butlast_last_id del: take_eq_Nil)
    ultimately show "\<not> key (last (take k xs)) < key x"
      by (auto simp: sorted_wrt_append)
  qed
  ultimately have "filter (\<lambda>x. key (last (take k xs)) < key x) (take k xs @ drop k xs) = drop k xs"
    by (simp add: filter_False del: append_take_drop_id)
  then show ?thesis by (simp only: append_take_drop_id)
qed

section \<open>The contract\<close>

locale paged_log =
  fixes good :: "'s \<Rightarrow> bool"
    and log :: "'s \<Rightarrow> 'e list"
    and key :: "'e \<Rightarrow> int"
    and size_ok :: "nat \<Rightarrow> bool"
    and page :: "nat \<Rightarrow> 's \<Rightarrow> int option \<Rightarrow> 'e list"
  assumes size_pos: "size_ok k \<Longrightarrow> 0 < k"
    and log_sorted: "good s \<Longrightarrow> sorted_wrt (<) (map key (log s))"
    and first_page: "good s \<Longrightarrow> size_ok k \<Longrightarrow> page k s None = take k (log s)"
    and next_page: "good s \<Longrightarrow> size_ok k \<Longrightarrow> e \<in> set (log s) \<Longrightarrow>
      page k s (Some (key e)) = take k (filter (\<lambda>x. key e < key x) (log s))"
begin

lemma drain_rest:
  assumes "good s" "size_ok k" "xs = log s \<and> c = None \<or>
      (\<exists>e \<in> set (log s). c = Some (key e) \<and> xs = filter (\<lambda>x. key e < key x) (log s))"
    "length xs \<le> n"
  shows "drain n (page k s) key c = xs"
  using assms(3,4)
proof (induction n arbitrary: xs c)
  case 0
  then show ?case by simp
next
  case (Suc n)
  have sorted: "sorted_wrt (<) (map key xs)"
    using Suc.prems(1) log_sorted [OF assms(1)] sorted_wrt_filter_map by auto
  have sub: "set xs \<subseteq> set (log s)" using Suc.prems(1) by auto
  have page: "page k s c = take k xs"
    using Suc.prems(1) first_page [OF assms(1,2)] next_page [OF assms(1,2)] by auto
  show ?case
  proof (cases "xs = []")
    case True
    then show ?thesis using page by simp
  next
    case False
    let ?p = "take k xs"
    have ne: "?p \<noteq> []" using False size_pos [OF assms(2)] by simp
    then have last: "last ?p \<in> set (log s)" using sub in_set_takeD [of "last ?p" k xs] last_in_set by blast
    have rest: "filter (\<lambda>x. key (last ?p) < key x) xs = drop k xs"
      using filter_gt_take [OF sorted ne] .
    have "filter (\<lambda>x. key (last ?p) < key x) (log s) = drop k xs"
    proof (cases "c = None")
      case True
      then show ?thesis using rest Suc.prems(1) by auto
    next
      case False
      then obtain e where e: "xs = filter (\<lambda>x. key e < key x) (log s)" using Suc.prems(1) by auto
      have "key e < key (last ?p)"
        using ne e last_in_set [OF ne] in_set_takeD [of "last ?p" k xs] by auto
      then have "filter (\<lambda>x. key (last ?p) < key x) (log s) = filter (\<lambda>x. key (last ?p) < key x) xs"
        unfolding e by (auto intro: filter_cong)
      then show ?thesis using rest by simp
    qed
    then have "drain n (page k s) key (Some (key (last ?p))) = drop k xs"
      using Suc.IH [of "drop k xs" "Some (key (last ?p))"] last Suc.prems(2) size_pos [OF assms(2)]
      by force
    moreover have "drain (Suc n) (page k s) key c = ?p @ drain n (page k s) key (Some (key (last ?p)))"
      using page ne by (cases ?p) simp_all
    ultimately show ?thesis by simp
  qed
qed

lemma drain_complete:
  assumes "good s" "size_ok k" "length (log s) \<le> n"
  shows "drain n (page k s) key None = log s"
  by (rule drain_rest [OF assms(1,2) _ assms(3)]) simp

end

end
