(* ===== verification/Store_Reads.thy ===== *)
theory Store_Reads
  imports Store_Queries Paged_Log "HOL-Library.Multiset"
begin

text \<open>
  The reading operations of \<open>flowcore/src/store.rs\<close>: projects, the project snapshot, the event
  feed forwards (\<open>events_after\<close>, \<open>poll_changes\<close>) and backwards (\<open>list_events\<close>), and search. The
  full-text index belongs to the SQL engine: the rows it matches, in rank order, are an
  argument of \<open>search\<close>. Machine arithmetic on limits wraps as in a release build.
\<close>

section \<open>Ordering and limits\<close>

text \<open>\<open>LIMIT\<close>: a negative limit is no limit.\<close>

definition sql_limit :: "int \<Rightarrow> 'a list \<Rightarrow> 'a list" where
  "sql_limit n xs = (if n < 0 then xs else take (nat n) xs)"

definition by_seq :: "event_row list \<Rightarrow> event_row list" where
  "by_seq es = sort_key e_seq es"

definition by_seq_desc :: "event_row list \<Rightarrow> event_row list" where
  "by_seq_desc es = sort_key (\<lambda>e. - e_seq e) es"

section \<open>Projects and snapshots\<close>

definition list_projects_locked :: "bool \<Rightarrow> db \<Rightarrow> pb_project list res" where
  "list_projects_locked include_archived d =
     collect_res (\<lambda>p. row_to_project (project_cells p))
       (sort_key p_created_at
         (filter (\<lambda>p. include_archived \<or> p_archived_at p = None) (projects d)))"

definition dependency_row_msg :: "dependency_row \<Rightarrow> pb_dependency res" where
  "dependency_row_msg e =
     (let r = [(''blocker_id'', VText (d_blocker_id e)), (''blocked_id'', VText (d_blocked_id e))] in
      res_bind (get_str r ''blocker_id'') (\<lambda>a.
      res_bind (get_str r ''blocked_id'') (\<lambda>b.
      Inr \<lparr>dy_blocker_id = a, dy_blocked_id = b\<rparr>)))"

definition project_nodes :: "string \<Rightarrow> db \<Rightarrow> node_row list" where
  "project_nodes pid d = filter (\<lambda>n. n_project_id n = pid) (nodes d)"

definition node_in_project :: "string \<Rightarrow> db \<Rightarrow> string \<Rightarrow> bool" where
  "node_in_project pid d i = (case find_node d i of None \<Rightarrow> False | Some n \<Rightarrow> n_project_id n = pid)"

definition with_verification :: "db \<Rightarrow> pb_node \<Rightarrow> pb_node res" where
  "with_verification d n = res_bind (verification_for (nd_id n) d) (\<lambda>v. Inr (n\<lparr>nd_verification := v\<rparr>))"

definition read_nodes :: "node_row list \<Rightarrow> db \<Rightarrow> pb_node list res" where
  "read_nodes ns d =
     res_bind (collect_res (\<lambda>n. row_to_node (node_cells d n)) ns) (collect_res (with_verification d))"

definition max_event_seq :: "db \<Rightarrow> int" where
  "max_event_seq d = (if events d = [] then 0 else Max (e_seq ` set (events d)))"

definition get_snapshot_locked :: "string \<Rightarrow> db \<Rightarrow> get_snapshot_response res" where
  "get_snapshot_locked pid d =
     res_bind (transpose_res (\<lambda>p. row_to_project (project_cells p)) (find_project d pid)) (\<lambda>project.
     res_bind (read_nodes (project_nodes pid d) d) (\<lambda>ns.
     res_bind (collect_res dependency_row_msg (filter (\<lambda>e. node_in_project pid d (d_blocker_id e) \<and>
         node_in_project pid d (d_blocked_id e)) (dependencies d))) (\<lambda>deps.
     res_bind (progress_for pid d) (\<lambda>progress.
     res_bind (collect_res (\<lambda>e. proto_event (event_cells e))
         (sql_limit 25 (by_seq_desc (filter (\<lambda>e. e_project_id e = pid) (events d))))) (\<lambda>recent.
     res_bind (get_i64_at [('''', VInt (max_event_seq d))] 0) (\<lambda>seq.
     Inr \<lparr>gsr_project = project, gsr_nodes = ns, gsr_dependencies = deps, gsr_progress = progress,
          gsr_recent_events = recent, gsr_seq = seq\<rparr>))))))"

section \<open>The event feed\<close>

definition events_after_locked :: "string \<Rightarrow> int \<Rightarrow> db \<Rightarrow> pb_event list res" where
  "events_after_locked pid from_seq d =
     collect_res (\<lambda>e. proto_event (event_cells e))
       (by_seq (filter (\<lambda>e. e_project_id e = pid \<and> e_seq e > from_seq) (events d)))"

definition poll_changes_locked :: "string \<Rightarrow> int \<Rightarrow> int \<Rightarrow> db \<Rightarrow> poll_changes_response res" where
  "poll_changes_locked pid after_seq lmt d =
     (let lim = (if lmt \<le> 0 then 1000 else lmt) in
      res_bind (collect_res (\<lambda>e. proto_event (event_cells e))
        (sql_limit lim (by_seq (filter (\<lambda>e. e_project_id e = pid \<and> e_seq e > after_seq) (events d)))))
        (\<lambda>evs.
      let seq = (if evs = [] then after_seq else ev_seq (last evs)) in
      Inr \<lparr>pcr_events = evs, pcr_seq = seq\<rparr>))"

definition list_events_locked ::
  "string \<Rightarrow> string \<Rightarrow> int \<Rightarrow> int \<Rightarrow> db \<Rightarrow> (pb_event list \<times> bool) res" where
  "list_events_locked pid i before_seq lmt d =
     (let lim = max lmt 1 in
      res_bind (collect_res (\<lambda>e. proto_event (event_cells e))
        (sql_limit (wrap32 (lim + 1)) (by_seq_desc (filter (\<lambda>e. e_project_id e = pid \<and>
            (i = '''' \<or> e_node_id e = Some i) \<and> (before_seq = 0 \<or> e_seq e < before_seq)) (events d)))))
        (\<lambda>rows.
      let has_more = wrap32 (int (length rows)) > lim in
      Inr (take (nat lim) rows, has_more)))"

section \<open>Search\<close>

text \<open>
  \<open>fts query d\<close> stands for the index: the ids of the indexed rows that match, in rank order,
  or the error of a query the engine cannot parse.
\<close>

definition search_locked ::
  "(string \<Rightarrow> db \<Rightarrow> string list res) \<Rightarrow> string \<Rightarrow> string \<Rightarrow> int \<Rightarrow> db \<Rightarrow> pb_node list res" where
  "search_locked fts pid query lmt d =
     res_bind (fts query d) (\<lambda>ids.
     read_nodes (sql_limit (max lmt 1)
       (filter (\<lambda>n. n_project_id n = pid) (List.map_filter (find_node d) ids))) d)"

section \<open>What the reads return\<close>

lemma read_nodes_ok [row_simps]:
  assumes "keys_inv d" "set ns \<subseteq> set (nodes d)"
  shows "read_nodes ns d = Inr (map (node_msg d) ns)"
proof -
  have "collect_res (\<lambda>n. row_to_node (node_cells d n)) ns = Inr (map (bare_node_msg d) ns)"
    by (rule collect_res_map) (simp add: row_simps)
  moreover have "collect_res (with_verification d) (map (bare_node_msg d) ns) = Inr (map (node_msg d) ns)"
    by (induction ns)
      (simp_all add: with_verification_def row_simps node_msg_def bare_node_msg_def)
  ultimately show ?thesis by (simp add: read_nodes_def)
qed

definition project_log :: "string \<Rightarrow> db \<Rightarrow> pb_event list" where
  "project_log pid d = map event_msg (filter (\<lambda>e. e_project_id e = pid) (events d))"

lemma events_decode [row_simps]:
  "collect_res (\<lambda>e. proto_event (event_cells e)) es = Inr (map event_msg es)"
  by (rule collect_res_map) (simp add: row_simps)

lemma seq_sorted:
  assumes "sorted_wrt (<) (map e_seq es)"
  shows "sorted (map e_seq es)" "sorted (map (\<lambda>e. - e_seq e) (rev es))" "inj_on (\<lambda>e. - e_seq e) (set es)"
proof -
  show "sorted (map e_seq es)" using assms by (rule strict_sorted_imp_sorted)
  then have "sorted_wrt (\<lambda>a b. e_seq a \<le> e_seq b) es" by (simp add: sorted_wrt_map)
  then show "sorted (map (\<lambda>e. - e_seq e) (rev es))" by (simp add: sorted_wrt_map sorted_wrt_rev)
  have "distinct (map e_seq es)" using assms by (simp add: strict_sorted_iff)
  then show "inj_on (\<lambda>e. - e_seq e) (set es)" by (auto simp: distinct_map inj_on_def)
qed

lemma by_seq_sorted: "sorted_wrt (<) (map e_seq es) \<Longrightarrow> by_seq es = es"
  unfolding by_seq_def by (rule sort_key_id_if_sorted) (rule seq_sorted)

lemma by_seq_desc_sorted:
  assumes "sorted_wrt (<) (map e_seq es)"
  shows "by_seq_desc es = rev es"
  unfolding by_seq_desc_def
  using seq_sorted [OF assms] by (intro sort_key_inj_key_eq) simp_all

section \<open>Pages of the event feed\<close>

definition node_log :: "string \<Rightarrow> string \<Rightarrow> db \<Rightarrow> pb_event list" where
  "node_log pid i d = map event_msg
     (filter (\<lambda>e. e_project_id e = pid \<and> (i = '''' \<or> e_node_id e = Some i)) (events d))"

lemma project_log_sorted: "log_inv d \<Longrightarrow> sorted_wrt (<) (map ev_seq (project_log pid d))"
  unfolding project_log_def log_inv_def map_map comp_def event_msg_sel
  by (rule sorted_wrt_filter_map) simp

lemma node_log_sorted: "log_inv d \<Longrightarrow> sorted_wrt (<) (map ev_seq (node_log pid i d))"
  unfolding node_log_def log_inv_def map_map comp_def event_msg_sel
  by (rule sorted_wrt_filter_map) simp

lemma project_log_pos: "log_inv d \<Longrightarrow> e \<in> set (project_log pid d) \<Longrightarrow> 0 < ev_seq e"
  by (auto simp: project_log_def log_inv_def event_ok_def)

lemma node_log_pos: "log_inv d \<Longrightarrow> e \<in> set (node_log pid i d) \<Longrightarrow> 0 < ev_seq e"
  by (auto simp: node_log_def log_inv_def event_ok_def)

lemma filter_event_msg:
  "filter (\<lambda>e. P (ev_seq e)) (map event_msg (filter Q es)) =
   map event_msg (filter (\<lambda>e. Q e \<and> P (e_seq e)) es)"
  by (simp add: filter_map comp_def conj_commute)

lemma log_filter_sorted: "log_inv d \<Longrightarrow> sorted_wrt (<) (map e_seq (filter P (events d)))"
  by (simp add: log_inv_def sorted_wrt_filter_map)

lemma events_after_ok:
  assumes "log_inv d"
  shows "events_after_locked pid a d = Inr (filter (\<lambda>e. a < ev_seq e) (project_log pid d))"
  unfolding events_after_locked_def project_log_def events_decode
    by_seq_sorted [OF log_filter_sorted [OF assms]] filter_event_msg by simp

lemma poll_changes_ok:
  assumes "log_inv d"
  shows "poll_changes_locked pid a l d =
    (let evs = take (nat (if l \<le> 0 then 1000 else l)) (filter (\<lambda>e. a < ev_seq e) (project_log pid d)) in
     Inr \<lparr>pcr_events = evs, pcr_seq = (if evs = [] then a else ev_seq (last evs))\<rparr>)"
  unfolding poll_changes_locked_def project_log_def events_decode
    by_seq_sorted [OF log_filter_sorted [OF assms]] filter_event_msg
  by (simp add: Let_def sql_limit_def take_map)

definition before_ok :: "int \<Rightarrow> pb_event \<Rightarrow> bool" where
  "before_ok b e \<longleftrightarrow> b = 0 \<or> ev_seq e < b"

lemma list_events_ok:
  assumes "log_inv d" "is_i32 l" "l < 2147483647"
  shows "list_events_locked pid i b l d =
    (let older = filter (before_ok b) (rev (node_log pid i d)); k = nat (max l 1) in
     Inr (take k older, wrap32 (int (min (k + 1) (length older))) > max l 1))"
proof -
  let ?es = "filter (\<lambda>e. e_project_id e = pid \<and> (i = '''' \<or> e_node_id e = Some i) \<and>
    (b = 0 \<or> e_seq e < b)) (events d)"
  have "filter (before_ok b) (rev (node_log pid i d)) = rev (map event_msg ?es)"
    by (simp add: node_log_def before_ok_def [abs_def] filter_event_msg [of "\<lambda>s. b = 0 \<or> s < b"]
        rev_filter [symmetric] conj_assoc)
  moreover have "wrap32 (max l 1 + 1) = max l 1 + 1"
    using assms(2,3) by (intro wrap32_id) (auto simp: is_i32_def)
  moreover have "nat (max l 1 + 1) = nat (max l 1) + 1" "\<not> max l 1 + 1 < 0" by simp_all
  ultimately show ?thesis
    unfolding list_events_locked_def events_decode
      by_seq_desc_sorted [OF log_filter_sorted [OF assms(1)]]
    by (simp add: Let_def sql_limit_def take_map [symmetric] rev_map min.commute)
qed

text \<open>A client's page requests: forwards by \<open>PollChanges\<close>, backwards by \<open>ListEvents\<close>.\<close>

definition poll_page :: "string \<Rightarrow> nat \<Rightarrow> db \<Rightarrow> int option \<Rightarrow> pb_event list" where
  "poll_page pid k d c =
     (case poll_changes_locked pid (case c of None \<Rightarrow> 0 | Some a \<Rightarrow> a) (int k) d of
        Inl e \<Rightarrow> [] | Inr r \<Rightarrow> pcr_events r)"

definition list_page :: "string \<Rightarrow> string \<Rightarrow> nat \<Rightarrow> db \<Rightarrow> int option \<Rightarrow> pb_event list" where
  "list_page pid i k d c =
     (case list_events_locked pid i (case c of None \<Rightarrow> 0 | Some a \<Rightarrow> - a) (int k) d of
        Inl e \<Rightarrow> [] | Inr r \<Rightarrow> fst r)"

interpretation poll: paged_log log_inv "project_log pid" ev_seq "\<lambda>k. 0 < k" "poll_page pid" for pid
proof unfold_locales
  fix d :: db and k :: nat
  assume "log_inv d" "0 < k"
  moreover have "filter (\<lambda>e. 0 < ev_seq e) (project_log pid d) = project_log pid d"
    using project_log_pos [OF \<open>log_inv d\<close>] by (simp add: filter_id_conv)
  ultimately show "poll_page pid k d None = take k (project_log pid d)"
    by (simp add: poll_page_def poll_changes_ok Let_def)
qed (simp_all add: project_log_sorted poll_page_def poll_changes_ok Let_def)

interpretation listing: paged_log log_inv "\<lambda>d. rev (node_log pid i d)" "\<lambda>e. - ev_seq e"
    "\<lambda>k. 0 < k \<and> int k < 2147483647" "list_page pid i" for pid i
proof unfold_locales
  fix d :: db
  assume d: "log_inv d"
  show "sorted_wrt (<) (map (\<lambda>e. - ev_seq e) (rev (node_log pid i d)))"
    using node_log_sorted [OF d] by (simp add: sorted_wrt_map sorted_wrt_rev)
  fix k :: nat
  assume k: "0 < k \<and> int k < 2147483647"
  then have l: "is_i32 (int k)" "int k < 2147483647" "max (int k) 1 = int k"
    by (auto simp: is_i32_def)
  show "list_page pid i k d None = take k (rev (node_log pid i d))"
    using l by (simp add: list_page_def list_events_ok [OF d] Let_def before_ok_def filter_True)
  fix e
  assume "e \<in> set (rev (node_log pid i d))"
  then have "before_ok (ev_seq e) = (\<lambda>x. - ev_seq e < - ev_seq x)"
    using node_log_pos [OF d, of e pid i] by (auto simp: before_ok_def)
  then show "list_page pid i k d (Some (- ev_seq e)) =
      take k (filter (\<lambda>x. - ev_seq e < - ev_seq x) (rev (node_log pid i d)))"
    using l by (simp add: list_page_def list_events_ok [OF d] Let_def)
qed simp

end
