(* ===== verification/Session_Order.thy ===== *)
theory Session_Order
  imports Session_Rules
begin

text \<open>
  Facts that only grow. A preorder on databases that every statement respects is respected by
  every session program, transactions that roll back included; the locale \<open>session_order\<close>
  proves this once. Its two instances are the idempotency ledger, whose rows are never
  changed or removed, and the event log, whose numbers are never given out twice.
\<close>

section \<open>Programs that respect a preorder\<close>

definition stmt_moves :: "('d \<Rightarrow> 'd \<Rightarrow> bool) \<Rightarrow> ('d, 'a) stmt \<Rightarrow> bool" where
  "stmt_moves R u \<longleftrightarrow> (\<forall>d x d'. u d = Inr (x, d') \<longrightarrow> R d d')"

definition sm_moves :: "('d \<Rightarrow> 'd \<Rightarrow> bool) \<Rightarrow> ('d, 'a) sm \<Rightarrow> bool" where
  "sm_moves R m \<longleftrightarrow> (\<forall>c. R (live c) (live (snd (m c))))"

lemma stmt_movesI: "(\<And>d x d'. u d = Inr (x, d') \<Longrightarrow> R d d') \<Longrightarrow> stmt_moves R u"
  by (auto simp: stmt_moves_def)

lemma sm_movesD: "sm_moves R m \<Longrightarrow> m c = (r, c') \<Longrightarrow> R (live c) (live c')"
  by (metis sm_moves_def snd_conv)

locale session_order =
  fixes R :: "'d \<Rightarrow> 'd \<Rightarrow> bool"
  assumes refl: "R d d"
    and trans: "R d e \<Longrightarrow> R e f \<Longrightarrow> R d f"
begin

lemma moves_reads [sm_rules]: "reads_only m \<Longrightarrow> sm_moves R m"
  by (simp add: sm_moves_def reads_only_def refl)

lemma moves_return [sm_rules]: "sm_moves R (sm_return x)"
  by (simp add: sm_moves_def sm_return_def refl)

lemma moves_throw [sm_rules]: "sm_moves R (sm_throw e)"
  by (simp add: sm_moves_def sm_throw_def refl)

lemma moves_read [sm_rules]: "sm_moves R (read_db q)"
  by (simp add: sm_moves_def read_db_def refl)

lemma moves_lift [sm_rules]: "sm_moves R (lift_res r)"
  by (simp add: sm_moves_def lift_res_def refl)

lemma moves_run [sm_rules]: "stmt_moves R u \<Longrightarrow> sm_moves R (run_stmt u)"
  by (auto simp: sm_moves_def run_stmt_def stmt_moves_def refl split: sum.split)

lemma moves_bind [sm_rules]:
  assumes "sm_moves R m" "\<And>x. sm_moves R (f x)"
  shows "sm_moves R (sm_bind m f)"
  unfolding sm_moves_def
proof
  fix c
  obtain r c1 where m: "m c = (r, c1)" by fastforce
  then have "R (live c) (live c1)" using sm_movesD [OF assms(1)] by simp
  then show "R (live c) (live (snd (sm_bind m f c)))"
    using assms(2) m trans by (auto simp: sm_bind_def sm_moves_def split: sum.split)
qed

lemma moves_each [sm_rules]: "(\<And>x. sm_moves R (f x)) \<Longrightarrow> sm_moves R (sm_each f xs)"
  by (induction xs) (auto intro!: moves_return moves_bind)

lemma moves_if [sm_rules]: "sm_moves R m \<Longrightarrow> sm_moves R n \<Longrightarrow> sm_moves R (if b then m else n)"
  by simp

lemma moves_option [sm_rules]:
  "sm_moves R m \<Longrightarrow> (\<And>x. sm_moves R (f x)) \<Longrightarrow> sm_moves R (case z of None \<Rightarrow> m | Some x \<Rightarrow> f x)"
  by (cases z) auto

lemma moves_prod [sm_rules]: "(\<And>x y. sm_moves R (f x y)) \<Longrightarrow> sm_moves R (case p of (x, y) \<Rightarrow> f x y)"
  by (cases p) auto

lemma moves_tx [sm_rules]:
  assumes "keeps_mark f" "sm_moves R f"
  shows "sm_moves R (in_tx E f)"
  unfolding sm_moves_def
proof
  fix c
  show "R (live c) (live (snd (in_tx E f c)))"
  proof (cases "savepoint c")
    case (Some d)
    then show ?thesis by (simp add: in_tx_open refl)
  next
    case None
    obtain r c2 where f: "f (within (live c) (live c)) = (r, c2)" by fastforce
    then have "R (live c) (live c2)" using sm_movesD [OF assms(2)] by fastforce
    moreover have "c = idle (live c)" using None by (rule idle_of_mark)
    then have "in_tx E f c = in_tx E f (idle (live c))" by simp
    ultimately show ?thesis
      using f by (simp add: in_tx_idle [OF assms(1)] refl split: sum.split option.split)
  qed
qed

end

section \<open>The ledger\<close>

definition ledger_le :: "db \<Rightarrow> db \<Rightarrow> bool" where
  "ledger_le d d' \<longleftrightarrow> (\<forall>p k r. find_ledger d p k = Some r \<longrightarrow> find_ledger d' p k = Some r)"

interpretation ledger: session_order ledger_le
  by unfold_locales (auto simp: ledger_le_def)

lemma ledger_le_same: "idempotency d' = idempotency d \<Longrightarrow> ledger_le d d'"
  by (simp add: ledger_le_def find_ledger_def)

lemma insert_ledger_moves [stmt_pres]: "stmt_moves ledger_le (insert_ledger E s k q e)"
  by (rule stmt_movesI)
    (auto simp: insert_ledger_def ledger_le_def find_ledger_def find_append split: if_splits)

section \<open>The event numbers\<close>

definition log_grows :: "db \<Rightarrow> db \<Rightarrow> bool" where
  "log_grows d d' \<longleftrightarrow> last_seq d \<le> last_seq d' \<and>
     (\<forall>e \<in> set (events d'). e \<in> set (events d) \<or> last_seq d < e_seq e)"

lemma log_grows_trans:
  assumes "log_grows a b" "log_grows b c"
  shows "log_grows a c"
proof -
  have "last_seq a \<le> last_seq b" using assms(1) by (simp add: log_grows_def)
  then show ?thesis using assms unfolding log_grows_def by (meson order_trans order_le_less_trans)
qed

interpretation evlog: session_order log_grows
  by unfold_locales (simp add: log_grows_def, rule log_grows_trans)

lemma log_grows_subset:
  "last_seq d' = last_seq d \<Longrightarrow> set (events d') \<subseteq> set (events d) \<Longrightarrow> log_grows d d'"
  by (auto simp: log_grows_def)

lemma insert_event_moves [stmt_pres]: "stmt_moves log_grows (insert_event E p n k a s t)"
  by (rule stmt_movesI) (frule insert_event_cases(1), drule insert_event_cases(2), simp add: log_grows_def)

section \<open>The remaining statements\<close>

text \<open>Statements that touch neither the ledger nor the log, up to the cascade of a deletion.\<close>

definition quiet :: "(db, 'a) stmt \<Rightarrow> bool" where
  "quiet u \<longleftrightarrow> (\<forall>d x d'. u d = Inr (x, d') \<longrightarrow> idempotency d' = idempotency d \<and>
     last_seq d' = last_seq d \<and> set (events d') \<subseteq> set (events d))"

lemma quiet_ledger [stmt_pres]: "quiet u \<Longrightarrow> stmt_moves ledger_le u"
  by (auto simp: quiet_def intro!: stmt_movesI ledger_le_same)

lemma quiet_log [stmt_pres]: "quiet u \<Longrightarrow> stmt_moves log_grows u"
  unfolding quiet_def by (rule stmt_movesI) (blast intro: log_grows_subset)

lemma quiet_nodes [stmt_pres]:
  "quiet (insert_node ign E n)" "quiet (update_node E i f)"
  "quiet (update_node_place E i parent kind pos)" "quiet (delete_node i)"
  by (auto simp: quiet_def stmt_defs drop_nodes_def Let_def split: option.splits if_splits)

lemma quiet_dependencies [stmt_pres]:
  "quiet (insert_dependency E a b)" "quiet (delete_dependency a b)"
  by (auto simp: quiet_def stmt_defs split: option.splits if_splits)

lemma quiet_verifications [stmt_pres]:
  "quiet (upsert_report E i r a t)" "quiet (upsert_verdict E i r)" "quiet (clear_verdict i)"
  "quiet (delete_verification i)"
  by (auto simp: quiet_def stmt_defs Let_def split: option.splits if_splits)

lemma quiet_projects [stmt_pres]: "quiet (insert_project E i n t)" "quiet (update_project i g)"
  by (auto simp: quiet_def stmt_defs split: if_splits)

lemma insert_ledger_log [stmt_pres]: "stmt_moves log_grows (insert_ledger E s k q e)"
  by (rule stmt_movesI) (auto simp: insert_ledger_def log_grows_def split: if_splits)

lemma insert_event_ledger [stmt_pres]: "stmt_moves ledger_le (insert_event E p n k a s t)"
  by (rule stmt_movesI) (auto dest: insert_event_cases(2) intro!: ledger_le_same)

end
