(* ===== verification/Store_Rules.thy ===== *)
theory Store_Rules
  imports Store_Queries Session_Order
begin

text \<open>
  The rules by which a store operation is shown to be safe. The body of a transaction is
  \<open>safe_body\<close> when it keeps the invariant of the schema, forgets no ledger row and gives out
  no event number twice; an operation is \<open>safe_op\<close> when, in addition, it leaves the durable
  database unchanged whenever it reports an error.
\<close>

section \<open>Bodies of transactions\<close>

definition safe_body :: "(db, 'a) sm \<Rightarrow> bool" where
  "safe_body m \<longleftrightarrow> keeps_mark m \<and> sm_keeps db_inv m \<and> sm_moves ledger_le m \<and> sm_moves log_grows m"

named_theorems safe_rules \<open>rules for safe bodies and operations\<close>

lemma safe_body_return [safe_rules]: "safe_body (sm_return x)"
  by (simp add: safe_body_def sm_rules)

lemma safe_body_throw [safe_rules]: "safe_body (sm_throw x)"
  by (simp add: safe_body_def sm_rules)

lemma safe_body_read [safe_rules]: "safe_body (read_db q)"
  by (simp add: safe_body_def sm_rules)

lemma safe_body_lift [safe_rules]: "safe_body (lift_res q)"
  by (simp add: safe_body_def sm_rules)

lemma safe_body_bind [safe_rules]:
  "safe_body m \<Longrightarrow> (\<And>x. safe_body (f x)) \<Longrightarrow> safe_body (sm_bind m f)"
  unfolding safe_body_def by (simp add: sm_rules)

lemma safe_body_each [safe_rules]: "(\<And>x. safe_body (f x)) \<Longrightarrow> safe_body (sm_each f xs)"
  by (induction xs) (auto intro!: safe_rules)

lemma safe_body_if [safe_rules]: "safe_body m \<Longrightarrow> safe_body n \<Longrightarrow> safe_body (if b then m else n)"
  by simp

lemma safe_body_option [safe_rules]:
  "safe_body m \<Longrightarrow> (\<And>x. safe_body (f x)) \<Longrightarrow> safe_body (case z of None \<Rightarrow> m | Some x \<Rightarrow> f x)"
  by (cases z) auto

lemma safe_body_prod [safe_rules]: "(\<And>x y. safe_body (f x y)) \<Longrightarrow> safe_body (case p of (x, y) \<Rightarrow> f x y)"
  by (cases p) auto

lemma safe_body_quiet [safe_rules]: "stmt_keeps db_inv u \<Longrightarrow> quiet u \<Longrightarrow> safe_body (run_stmt u)"
  by (simp add: safe_body_def sm_rules stmt_pres)

lemma safe_body_event [safe_rules]: "safe_body (run_stmt (insert_event E p n k a s t))"
  by (simp add: safe_body_def sm_rules stmt_pres)

lemma safe_body_ledger [safe_rules]: "safe_body (run_stmt (insert_ledger E s k q e))"
  by (simp add: safe_body_def sm_rules stmt_pres)

lemma safe_append_event [safe_rules]: "safe_body (append_event E p i k a s t)"
  unfolding append_event_def by (intro safe_rules)

lemma safe_record_idempotency [safe_rules]: "safe_body (record_idempotency E p k q)"
  unfolding record_idempotency_def by (intro safe_rules)

lemma safe_record_created [safe_rules]: "safe_body (record_idempotency_created E p k q e)"
  unfolding record_idempotency_created_def by (intro safe_rules)

section \<open>Operations\<close>

definition safe_op :: "(db, 'a) sm \<Rightarrow> bool" where
  "safe_op m \<longleftrightarrow> sm_keeps db_inv m \<and> atomic_on db_inv m \<and> sm_moves ledger_le m \<and> sm_moves log_grows m"

lemma reads_only_bind [sm_rules]:
  assumes "reads_only m" "\<And>x. reads_only (f x)"
  shows "reads_only (sm_bind m f)"
  using assms by (auto simp: reads_only_def sm_bind_def split: prod.split sum.split)
    (metis snd_conv)+

lemma reads_only_if [sm_rules]: "reads_only m \<Longrightarrow> reads_only n \<Longrightarrow> reads_only (if b then m else n)"
  by simp

lemma reads_only_option [sm_rules]:
  "reads_only m \<Longrightarrow> (\<And>x. reads_only (f x)) \<Longrightarrow> reads_only (case z of None \<Rightarrow> m | Some x \<Rightarrow> f x)"
  by (cases z) auto

lemma sm_keeps_reads: "reads_only m \<Longrightarrow> sm_keeps I m"
  by (simp add: reads_only_def sm_keeps_def)

lemma safe_op_reads: "reads_only m \<Longrightarrow> safe_op m"
  by (simp add: safe_op_def sm_keeps_reads atomic_on_reads ledger.moves_reads evlog.moves_reads)

lemma safe_op_reads_bind:
  assumes "reads_only m" "\<And>x. safe_op (f x)"
  shows "safe_op (sm_bind m f)"
  using assms
  by (simp add: safe_op_def sm_keeps_bind sm_keeps_reads atomic_on_reads_bind
      ledger.moves_bind ledger.moves_reads evlog.moves_bind evlog.moves_reads)

lemma safe_op_read_bind [safe_rules]: "(\<And>x. safe_op (f x)) \<Longrightarrow> safe_op (sm_bind (read_db q) f)"
  by (rule safe_op_reads_bind) (rule sm_rules)

lemma safe_op_return [safe_rules]: "safe_op (sm_return x)"
  by (rule safe_op_reads) (rule sm_rules)

lemma safe_op_throw [safe_rules]: "safe_op (sm_throw x)"
  by (rule safe_op_reads) (rule sm_rules)

lemma safe_op_read [safe_rules]: "safe_op (read_db q)"
  by (rule safe_op_reads) (rule sm_rules)

lemma safe_op_if [safe_rules]: "safe_op m \<Longrightarrow> safe_op n \<Longrightarrow> safe_op (if b then m else n)"
  by simp

lemma safe_op_option [safe_rules]:
  "safe_op m \<Longrightarrow> (\<And>x. safe_op (f x)) \<Longrightarrow> safe_op (case z of None \<Rightarrow> m | Some x \<Rightarrow> f x)"
  by (cases z) auto

text \<open>
  A transaction and the answer that is built after it. The answer must not fail on a good
  database: an error there would come after the commit.
\<close>

definition total_on :: "(db, 'a) sm \<Rightarrow> bool" where
  "total_on g \<longleftrightarrow> reads_only g \<and> (\<forall>c. db_inv (live c) \<longrightarrow> (\<exists>y. g c = (Inr y, c)))"

lemma safe_op_tx [safe_rules]:
  assumes body: "safe_body f" and after: "\<And>x. total_on (g x)"
  shows "safe_op (sm_bind (in_tx E f) g)"
proof -
  have r: "reads_only (g x)" for x using after [of x] by (simp add: total_on_def)
  have "\<exists>y c'. g x (idle d) = (Inr y, c')" if "db_inv d" for x d
    using after [of x] that unfolding total_on_def by (metis idle_sel(1))
  then have "atomic_on db_inv (sm_bind (in_tx E f) g)"
    using body by (intro atomic_on_tx) (simp_all add: safe_body_def)
  moreover have "sm_keeps db_inv (sm_bind (in_tx E f) g)"
    using body by (intro sm_keeps_bind [OF sm_keeps_tx sm_keeps_reads [OF r]]) (simp add: safe_body_def)
  moreover have "sm_moves ledger_le (sm_bind (in_tx E f) g)"
    using body by (intro ledger.moves_bind [OF ledger.moves_tx ledger.moves_reads [OF r]])
      (simp_all add: safe_body_def)
  moreover have "sm_moves log_grows (sm_bind (in_tx E f) g)"
    using body by (intro evlog.moves_bind [OF evlog.moves_tx evlog.moves_reads [OF r]])
      (simp_all add: safe_body_def)
  ultimately show ?thesis by (simp add: safe_op_def)
qed

lemma total_finish [safe_rules]: "total_on (read_db (finish_mutation pid evs is))"
proof -
  have "\<exists>y. finish_mutation pid evs is d = Inr y" if "db_inv d" for d
    using that by (simp add: db_inv_def finish_mutation_ok)
  then show ?thesis by (auto simp: total_on_def sm_rules read_db_def)
qed

lemma total_prod [safe_rules]: "(\<And>x y. total_on (f x y)) \<Longrightarrow> total_on (case p of (x, y) \<Rightarrow> f x y)"
  by (cases p) auto

section \<open>What a committed operation has done\<close>

lemma tx_committed:
  assumes "keeps_mark f" "sm_bind (in_tx E f) g (idle d) = (Inr y, c')"
  obtains x d1 where "f (within d d) = (Inr x, within d d1)" "g x (idle d1) = (Inr y, c')"
proof -
  obtain x c1 where t: "in_tx E f (idle d) = (Inr x, c1)" and g: "g x c1 = (Inr y, c')"
    using assms(2) by (rule sm_bind_InrE)
  obtain r c2 where f: "f (within d d) = (r, c2)" by fastforce
  have "r = Inr x" "c1 = idle (live c2)"
    using t f by (simp_all add: in_tx_idle [OF assms(1)] split: sum.splits option.splits)
  moreover have "c2 = within d (live c2)"
    using keeps_markD [OF assms(1) f] by (simp add: within_of_mark)
  ultimately show thesis using that [of x "live c2"] f g by simp
qed

text \<open>Databases that differ in the log and the ledger only.\<close>

definition same_graph :: "db \<Rightarrow> db \<Rightarrow> bool" where
  "same_graph d d' \<longleftrightarrow> projects d' = projects d \<and> nodes d' = nodes d \<and>
     verifications d' = verifications d \<and> dependencies d' = dependencies d"

lemma same_graph_refl [simp]: "same_graph d d"
  by (simp add: same_graph_def)

lemma same_graph_status: "same_graph d d' \<Longrightarrow> node_status d' = node_status d"
  by (simp add: same_graph_def node_status_def fun_eq_iff)

lemma same_graph_msg:
  assumes "same_graph d d'"
  shows "find_node d' = find_node d" "node_msg d' = node_msg d"
proof -
  show f: "find_node d' = find_node d"
    using assms by (intro find_node_cong) (simp add: same_graph_def)
  have "find_verification d' = find_verification d"
    using assms by (simp add: same_graph_def find_verification_def fun_eq_iff)
  then show "node_msg d' = node_msg d"
    unfolding node_msg_def [abs_def] bare_node_msg_def f same_graph_status [OF assms] by simp
qed

definition ledger_put :: "env \<Rightarrow> string \<Rightarrow> string option \<Rightarrow> int \<Rightarrow> string option \<Rightarrow> db \<Rightarrow> db" where
  "ledger_put E p key q entity d = (case key of
     None \<Rightarrow> d
   | Some k \<Rightarrow> (if find_ledger d p k \<noteq> None then d
       else d\<lparr>idempotency := idempotency d @ [\<lparr>i_project_id = p, i_key = k, i_seq = q,
         i_entity_id = entity, i_created_at = clock E\<rparr>]\<rparr>))"

lemma record_idempotency_eq:
  "record_idempotency E p key q c = (Inr (), c\<lparr>live := ledger_put E p key q None (live c)\<rparr>)"
  by (simp add: record_idempotency_def ledger_put_def sm_return_def run_stmt_def insert_ledger_def
      split: option.split)

lemma record_created_eq:
  "record_idempotency_created E p key q e c = (Inr (), c\<lparr>live := ledger_put E p key q (Some e) (live c)\<rparr>)"
  by (simp add: record_idempotency_created_def ledger_put_def sm_return_def run_stmt_def insert_ledger_def
      split: option.split)

lemma ledger_put_sel [simp]:
  "nodes (ledger_put E p key q e d) = nodes d" "dependencies (ledger_put E p key q e d) = dependencies d"
  "verifications (ledger_put E p key q e d) = verifications d" "events (ledger_put E p key q e d) = events d"
  "projects (ledger_put E p key q e d) = projects d" "last_seq (ledger_put E p key q e d) = last_seq d"
  by (simp_all add: ledger_put_def split: option.split)

lemma find_ledger_put:
  "find_ledger d p k = None \<Longrightarrow> find_ledger (ledger_put E p (Some k) q e d) p k =
     Some \<lparr>i_project_id = p, i_key = k, i_seq = q, i_entity_id = e, i_created_at = clock E\<rparr>"
  by (simp add: ledger_put_def find_ledger_def find_append)

lemma append_event_eq:
  "append_event E p i k a s t c = (case insert_event E p (if i = '''' then None else Some i) k a s t (live c) of
     Inl e \<Rightarrow> (Inl e, c) | Inr (e, d) \<Rightarrow> (Inr (event_msg e), c\<lparr>live := d\<rparr>))"
  by (simp add: append_event_def sm_bind_run lift_res_def row_simps split: sum.split prod.split)

text \<open>The row an append adds, and the database after it.\<close>

definition event_entry ::
  "env \<Rightarrow> string \<Rightarrow> string \<Rightarrow> string \<Rightarrow> string \<Rightarrow> string \<Rightarrow> string \<Rightarrow> db \<Rightarrow> event_row" where
  "event_entry E p i k a s t d = \<lparr>e_seq = last_seq d + 1, e_project_id = p,
     e_node_id = (if i = '''' then None else Some i), e_kind = k, e_author = a, e_summary = s,
     e_payload = t, e_created_at = clock E\<rparr>"

definition log_put :: "event_row \<Rightarrow> db \<Rightarrow> db" where
  "log_put e d = d\<lparr>events := events d @ [e], last_seq := last_seq d + 1\<rparr>"

lemma log_put_sel [simp]:
  "nodes (log_put e d) = nodes d" "dependencies (log_put e d) = dependencies d"
  "verifications (log_put e d) = verifications d" "projects (log_put e d) = projects d"
  "events (log_put e d) = events d @ [e]" "last_seq (log_put e d) = last_seq d + 1"
  "idempotency (log_put e d) = idempotency d"
  by (simp_all add: log_put_def)

lemma find_ledger_log [simp]: "find_ledger (log_put e d) = find_ledger d"
  by (simp add: find_ledger_def fun_eq_iff)

lemma append_event_InrD:
  assumes "append_event E p i k a s t c = (Inr ev, c')"
  shows "ev = event_msg (event_entry E p i k a s t (live c))"
    "c' = c\<lparr>live := log_put (event_entry E p i k a s t (live c)) (live c)\<rparr>"
    "event_kind_ok k" "p \<in> project_ids (live c)" "i = '''' \<or> i \<in> node_ids (live c)"
    "last_seq (live c) \<noteq> max_seq"
  using assms insert_event_cases
  by (fastforce simp: append_event_eq event_entry_def log_put_def split: sum.splits)+

text \<open>The common end of a transaction: one event and its ledger row.\<close>

definition log_tail ::
  "env \<Rightarrow> string \<Rightarrow> string \<Rightarrow> string \<Rightarrow> string \<Rightarrow> string \<Rightarrow> string \<Rightarrow> string option \<Rightarrow> db \<Rightarrow> db" where
  "log_tail E p i k a s t key d =
     ledger_put E p key (last_seq d + 1) None (log_put (event_entry E p i k a s t d) d)"

lemma log_tail_sel [simp]:
  "events (log_tail E p i k a s t key d) = events d @ [event_entry E p i k a s t d]"
  "last_seq (log_tail E p i k a s t key d) = last_seq d + 1"
  "same_graph d (log_tail E p i k a s t key d)"
  by (simp_all add: log_tail_def same_graph_def)

lemma event_entry_sel [simp]: "e_seq (event_entry E p i k a s t d) = last_seq d + 1"
  "e_kind (event_entry E p i k a s t d) = k" "e_project_id (event_entry E p i k a s t d) = p"
  "e_payload (event_entry E p i k a s t d) = t"
  "e_node_id (event_entry E p i k a s t d) = (if i = '''' then None else Some i)"
  by (simp_all add: event_entry_def)

lemma find_ledger_tail:
  "find_ledger d p k = None \<Longrightarrow> \<exists>r. find_ledger (log_tail E p i kd a s t (Some k) d) p k = Some r \<and>
     i_seq r = last_seq d + 1"
  using find_ledger_put [of "log_put (event_entry E p i kd a s t d) d" p k E "last_seq d + 1" None]
  by (simp add: log_tail_def)

lemma log_tail_InrD:
  assumes "sm_bind (append_event E p i k a s t) (\<lambda>event.
      sm_bind (record_idempotency E p key (ev_seq event)) (\<lambda>_. sm_return event)) c = (Inr ev, c')"
  shows "ev = event_msg (event_entry E p i k a s t (live c))"
    "c' = c\<lparr>live := log_tail E p i k a s t key (live c)\<rparr>"
    "event_kind_ok k" "p \<in> project_ids (live c)" "i = '''' \<or> i \<in> node_ids (live c)"
    "last_seq (live c) \<noteq> max_seq"
  using assms append_event_InrD [of E p i k a s t c]
  by (auto simp: log_tail_def record_idempotency_eq sm_return_def elim!: sm_bind_InrE)

lemma tx_committed_inv:
  assumes "safe_body f" "db_inv d" "sm_bind (in_tx E f) g (idle d) = (Inr y, c')"
  obtains x d1 where "f (within d d) = (Inr x, within d d1)" "db_inv d1" "g x (idle d1) = (Inr y, c')"
proof -
  obtain x d1 where f: "f (within d d) = (Inr x, within d d1)" "g x (idle d1) = (Inr y, c')"
    using tx_committed [OF _ assms(3)] assms(1) unfolding safe_body_def by blast
  have "conn_inv db_inv (within d d)" using assms(2) by (simp add: conn_inv_def)
  then have "conn_inv db_inv (within d d1)"
    using assms(1) f(1) sm_keepsD [of db_inv f "within d d"] unfolding safe_body_def by blast
  then show thesis using that f by (simp add: conn_inv_def)
qed

definition mutation_of :: "string \<Rightarrow> pb_event list \<Rightarrow> string list \<Rightarrow> db \<Rightarrow> mutation" where
  "mutation_of pid evs is d = \<lparr>mu_events = evs, mu_changed_nodes = nodes_of d is,
     mu_changed_progress = progress_of pid d, mu_seq = last_event_seq evs\<rparr>"

lemma mutation_of_sel [simp]:
  "mu_events (mutation_of pid evs is d) = evs" "mu_changed_nodes (mutation_of pid evs is d) = nodes_of d is"
  "mu_changed_progress (mutation_of pid evs is d) = progress_of pid d"
  "mu_seq (mutation_of pid evs is d) = last_event_seq evs"
  by (simp_all add: mutation_of_def)

lemma finish_read:
  "db_inv (live c) \<Longrightarrow> read_db (finish_mutation pid evs is) c = (Inr (mutation_of pid evs is (live c)), c)"
  by (simp add: read_db_def finish_mutation_ok db_inv_def mutation_of_def)

definition ledger_hit :: "db \<Rightarrow> string \<Rightarrow> string option \<Rightarrow> int option" where
  "ledger_hit d p key = (case key of None \<Rightarrow> None | Some k \<Rightarrow> map_option i_seq (find_ledger d p k))"

lemma check_ledger_hit: "check_idempotency pid key d = Inr (ledger_hit d pid key)"
  by (simp add: check_idempotency_ok ledger_hit_def)

lemma ledger_hit_cong:
  assumes "idempotency d' = idempotency d"
  shows "ledger_hit d' = ledger_hit d"
proof -
  have f: "find_ledger d' = find_ledger d" using assms by (simp add: find_ledger_def fun_eq_iff)
  show ?thesis unfolding ledger_hit_def [abs_def] f by simp
qed

lemma ledger_hit_le: "ledger_le d d' \<Longrightarrow> ledger_hit d p key = Some q \<Longrightarrow> ledger_hit d' p key = Some q"
  by (auto simp: ledger_hit_def ledger_le_def split: option.splits)

lemma ledger_hit_tail:
  "ledger_hit d p key = None \<Longrightarrow> key \<noteq> None \<Longrightarrow>
    ledger_hit (log_tail E p i kd a s t key d) p key = Some (last_seq d + 1)"
  using find_ledger_tail [of d p "the key" E i kd a s t]
  by (auto simp: ledger_hit_def split: option.splits)

text \<open>The shape of most writes: one statement, one event, the ledger, and the answer.\<close>

definition logged_write ::
  "env \<Rightarrow> (db, unit) sm \<Rightarrow> string \<Rightarrow> string \<Rightarrow> string \<Rightarrow> string \<Rightarrow> string \<Rightarrow> string \<Rightarrow> string option \<Rightarrow>
   (db, pb_event) sm" where
  "logged_write E u p i k a s t key = sm_bind u (\<lambda>_. sm_bind (append_event E p i k a s t) (\<lambda>event.
     sm_bind (record_idempotency E p key (ev_seq event)) (\<lambda>_. sm_return event)))"

lemma logged_write_outcome:
  assumes safe: "safe_body u" and inv: "db_inv d"
    and run: "sm_bind (in_tx E (logged_write E u p i k a s t key)) (\<lambda>event.
      read_db (finish_mutation p [event] is)) (idle d) = (Inr m, c')"
  obtains d1 d' where "u (within d d) = (Inr (), within d d1)" "d' = log_tail E p i k a s t key d1"
    "db_inv d1" "db_inv d'" "c' = idle d'"
    "m = mutation_of p [event_msg (event_entry E p i k a s t d1)] is d'"
    "i = '''' \<or> i \<in> node_ids d1"
proof -
  have "safe_body (logged_write E u p i k a s t key)"
    unfolding logged_write_def by (intro safe_rules safe)
  then obtain ev d2 where f: "logged_write E u p i k a s t key (within d d) = (Inr ev, within d d2)"
    and inv2: "db_inv d2" and g: "read_db (finish_mutation p [ev] is) (idle d2) = (Inr m, c')"
    using tx_committed_inv [OF _ inv run] by blast
  obtain c1 where u: "u (within d d) = (Inr (), c1)"
    and tail: "sm_bind (append_event E p i k a s t) (\<lambda>event.
      sm_bind (record_idempotency E p key (ev_seq event)) (\<lambda>_. sm_return event)) c1 = (Inr ev, within d d2)"
    using f unfolding logged_write_def by (rule sm_bind_InrE) auto
  note t = log_tail_InrD [OF tail]
  have c1: "c1 = within d (live c1)"
    using safe u keeps_markD [of u "within d d"] by (simp add: safe_body_def within_of_mark)
  have "conn_inv db_inv (within d d)" using inv by (simp add: conn_inv_def)
  then have "db_inv (live c1)"
    using safe u sm_keepsD [of db_inv u "within d d"] unfolding safe_body_def conn_inv_def by blast
  moreover have "d2 = log_tail E p i k a s t key (live c1)"
    using arg_cong [OF t(2), of live] by simp
  ultimately show thesis
    using that [of "live c1" d2] u c1 t(1,5) inv2 g by (simp add: finish_read)
qed

text \<open>The converse: when nothing stands in the way, the write is committed.\<close>

lemma insert_event_ok:
  assumes "last_seq d \<noteq> max_seq" "event_kind_ok k" "json_valid E t" "p \<in> project_ids d"
    "i = '''' \<or> i \<in> node_ids d"
  shows "insert_event E p (if i = '''' then None else Some i) k a s t d =
    Inr (event_entry E p i k a s t d, log_put (event_entry E p i k a s t d) d)"
  using assms by (auto simp: insert_event_def event_entry_def log_put_def Let_def)

lemma logged_write_run:
  assumes safe: "safe_body u" and inv: "db_inv d" and u: "u (within d d) = (Inr (), within d d1)"
    and ok: "last_seq d1 \<noteq> max_seq" "event_kind_ok k" "json_valid E t" "p \<in> project_ids d1"
      "i = '''' \<or> i \<in> node_ids d1" and commit: "commit_error E = None"
  shows "sm_bind (in_tx E (logged_write E u p i k a s t key)) (\<lambda>event.
      read_db (finish_mutation p [event] is)) (idle d) =
    (Inr (mutation_of p [event_msg (event_entry E p i k a s t d1)] is (log_tail E p i k a s t key d1)),
     idle (log_tail E p i k a s t key d1))"
proof -
  let ?w = "logged_write E u p i k a s t key" and ?d = "log_tail E p i k a s t key d1"
  have safe_w: "safe_body ?w" unfolding logged_write_def by (intro safe_rules safe)
  have run: "?w (within d d) = (Inr (event_msg (event_entry E p i k a s t d1)), within d ?d)"
    using u ok
    by (simp add: logged_write_def sm_bind_def append_event_eq insert_event_ok record_idempotency_eq
        sm_return_def log_tail_def)
  have mark: "keeps_mark ?w" using safe_w by (simp add: safe_body_def)
  have tx: "in_tx E ?w (idle d) = (Inr (event_msg (event_entry E p i k a s t d1)), idle ?d)"
    using in_tx_idle [OF mark] run commit by simp
  have "conn_inv db_inv (within d d)" using inv by (simp add: conn_inv_def)
  then have "db_inv ?d"
    using sm_keepsD [of db_inv ?w "within d d"] run safe_w unfolding safe_body_def conn_inv_def by fastforce
  then show ?thesis using tx by (simp add: sm_bind_def finish_read)
qed

section \<open>Nodes in answers\<close>

lemma same_id_same_node:
  "keys_inv d \<Longrightarrow> n \<in> set (nodes d) \<Longrightarrow> m \<in> set (nodes d) \<Longrightarrow> n_id n = n_id m \<Longrightarrow> n = m"
  by (metis find_node_iff option.inject)

lemma reported:
  assumes "db_inv d'" "n' \<in> set (nodes d')" "n_id n' \<in> set is"
  shows "node_msg d' n' \<in> set (nodes_of d' is)"
  using assms nodes_of_iff [of d' "node_msg d' n'" "is"] by (auto simp: db_inv_def)

end
