(* ===== verification/Store_Nodes.thy ===== *)
theory Store_Nodes
  imports Store_Rules
begin

text \<open>
  Creating, updating and deleting nodes (\<open>flowcore/src/store.rs\<close>). Each operation reads, runs its
  writes in one transaction and answers with \<open>finish_mutation\<close>; a key the ledger knows makes
  it answer from the ledger instead. The recursive query of \<open>delete_node\<close> is shown to end and
  to return what the cascade deletes.
\<close>

section \<open>Small helpers\<close>

text \<open>\<open>Option::ok_or_else\<close> and SQL's \<open>NULLIF(s, '')\<close>.\<close>

fun ok_or :: "domain_error \<Rightarrow> 'a option \<Rightarrow> 'a res" where
  "ok_or e None = Inl e"
| "ok_or e (Some x) = Inr x"

definition nullif :: "string \<Rightarrow> string option" where
  "nullif s = (if s = '''' then None else Some s)"

definition require_node :: "string \<Rightarrow> db \<Rightarrow> pb_node res" where
  "require_node i d = res_bind (fetch_node i d) (ok_or (from_db_message ''node not found''))"

lemma require_node_ok [row_simps]:
  "require_node i d = (case find_node d i of
     None \<Rightarrow> Inl (from_db_message ''node not found'') | Some n \<Rightarrow> Inr (node_msg d n))"
  by (cases "find_node d i") (simp_all add: require_node_def row_simps)

section \<open>CreateNode\<close>

definition new_node_row :: "env \<Rightarrow> create_node_request \<Rightarrow> string \<Rightarrow> node_row" where
  "new_node_row E req i = \<lparr>n_id = i, n_project_id = cn_project_id req,
     n_parent_id = nullif (cn_parent_id req), n_kind = kind_str (cn_kind req),
     n_title = cn_title req, n_description = cn_description req, n_condition = cn_condition req,
     n_reference = nullif (cn_reference req), n_note = cn_note req,
     n_declared_status = ''OPEN'',
     n_wp_state = (if cn_kind req = node_kind_i32 NodeKind_WorkPackage then Some ''PLANNED'' else None),
     n_position = cn_position req, n_created_at = clock E, n_updated_at = clock E\<rparr>"

definition created_payload :: "string \<Rightarrow> string \<Rightarrow> json" where
  "created_payload i title = JObj [(''after'', JObj [(''id'', JStr i), (''title'', JStr title)])]"

definition create_node_tx :: "env \<Rightarrow> create_node_request \<Rightarrow> (db, pb_event \<times> string) sm" where
  "create_node_tx E req =
     sm_bind (lift_res (new_id E ''node'')) (\<lambda>i.
     sm_bind (run_stmt (insert_node False E (new_node_row E req i))) (\<lambda>_.
     sm_bind (append_event E (cn_project_id req) i ''NODE_CREATED'' (author_of (cn_meta req))
       (''created '' @ i) (json_text E (created_payload i (cn_title req)))) (\<lambda>event.
     sm_bind (record_idempotency_created E (cn_project_id req) (idem_key (cn_meta req))
       (ev_seq event) i) (\<lambda>_.
     sm_return (event, i)))))"

definition create_node_locked :: "env \<Rightarrow> create_node_request \<Rightarrow> (db, mutation) sm" where
  "create_node_locked E req =
     sm_bind (read_db (check_idempotency_created (cn_project_id req) (idem_key (cn_meta req)))) (\<lambda>hit.
     case hit of
       Some h \<Rightarrow> (case hit_entity_id h of
           Some eid \<Rightarrow> sm_bind (read_db (fetch_node eid)) (\<lambda>found. case found of
               Some n \<Rightarrow> sm_return \<lparr>mu_events = [], mu_changed_nodes = [n],
                 mu_changed_progress = [], mu_seq = hit_seq h\<rparr>
             | None \<Rightarrow> sm_return (empty_mutation (hit_seq h)))
         | None \<Rightarrow> sm_return (empty_mutation (hit_seq h)))
     | None \<Rightarrow>
         sm_bind (in_tx E (create_node_tx E req)) (\<lambda>(event, i).
         read_db (finish_mutation (cn_project_id req) [event] [i])))"

section \<open>UpdateNode\<close>

definition update_field :: "env \<Rightarrow> update_node_request \<Rightarrow> string \<Rightarrow> (db, unit) sm" where
  "update_field E req f = (let set_col = (\<lambda>g. run_stmt (update_node E (un_node_id req) g)) in
     if f = ''title'' then set_col (\<lambda>n. n\<lparr>n_title := un_title req\<rparr>)
     else if f = ''description'' then set_col (\<lambda>n. n\<lparr>n_description := un_description req\<rparr>)
     else if f = ''condition'' then set_col (\<lambda>n. n\<lparr>n_condition := un_condition req\<rparr>)
     else if f = ''position'' then set_col (\<lambda>n. n\<lparr>n_position := un_position req\<rparr>)
     else if f = ''reference'' then set_col (\<lambda>n. n\<lparr>n_reference := Some (un_reference req)\<rparr>)
     else if f = ''note'' then set_col (\<lambda>n. n\<lparr>n_note := un_note req\<rparr>)
     else if f = ''wp_state'' then set_col (\<lambda>n. n\<lparr>n_wp_state := wp_str (un_wp_state req)\<rparr>)
     else sm_throw (from_db_message (''unknown update_mask field: '' @ f)))"

definition update_node_tx :: "env \<Rightarrow> update_node_request \<Rightarrow> string \<Rightarrow> (db, pb_event) sm" where
  "update_node_tx E req pid =
     sm_bind (sm_each (update_field E req) (un_update_mask req)) (\<lambda>_.
     sm_bind (append_event E pid (un_node_id req) ''NODE_UPDATED'' (author_of (un_meta req))
       (''updated '' @ un_node_id req) ''{}'') (\<lambda>event.
     sm_bind (record_idempotency E pid (idem_key (un_meta req)) (ev_seq event)) (\<lambda>_.
     sm_return event)))"

definition update_node_locked :: "env \<Rightarrow> update_node_request \<Rightarrow> (db, mutation) sm" where
  "update_node_locked E req =
     sm_bind (read_db (require_node (un_node_id req))) (\<lambda>current.
     (let pid = nd_project_id current in
     sm_bind (read_db (check_idempotency pid (idem_key (un_meta req)))) (\<lambda>hit. case hit of
       Some seq \<Rightarrow> sm_return (empty_mutation seq)
     | None \<Rightarrow>
         if un_update_mask req = [] then sm_throw (from_db_message ''update_mask cannot be empty'')
         else sm_bind (in_tx E (update_node_tx E req pid)) (\<lambda>event.
           read_db (finish_mutation pid [event] [un_node_id req])))))"

section \<open>DeleteNode\<close>

text \<open>
  The common table expression \<open>subtree\<close> is a \<open>UNION ALL\<close> recursion over the parent column. A
  run of it that does not end is represented by an error; \<open>subtree_rows_ok\<close> shows that there
  is none on a database of the program.
\<close>

definition subtree_rows :: "string \<Rightarrow> db \<Rightarrow> string list res" where
  "subtree_rows i d = (case walk_all (parent_edges d) [i] [] of
     None \<Rightarrow> Inl (internal ''the recursive query does not end'')
   | Some is \<Rightarrow> Inr is)"

text \<open>\<open>SELECT DISTINCT d.blocked_id ... WHERE d.blocked_id NOT IN (SELECT id FROM subtree)\<close>.\<close>

definition external_dependents :: "string \<Rightarrow> db \<Rightarrow> string list res" where
  "external_dependents i d = res_bind (subtree_rows i d) (\<lambda>is.
     query_strings (map (\<lambda>s. [(''blocked_id'', VText s)])
       (firsts [] (concat (map (\<lambda>e. map (\<lambda>_. d_blocked_id e) (filter (\<lambda>s. s = d_blocker_id e) is))
         (filter (\<lambda>e. d_blocked_id e \<notin> set is) (dependencies d)))))))"

definition descendants :: "string \<Rightarrow> db \<Rightarrow> string list res" where
  "descendants i d = res_bind (subtree_rows i d) (\<lambda>is.
     query_strings (map (\<lambda>s. [(''id'', VText s)]) (filter (\<lambda>s. s \<noteq> i) is)))"

definition count_edges_at :: "string \<Rightarrow> db \<Rightarrow> int res" where
  "count_edges_at i d = get_i64_at
     [('''', VInt (int (length (filter (\<lambda>e. d_blocker_id e = i \<or> d_blocked_id e = i) (dependencies d)))))] 0"

definition deleted_payload :: "string \<Rightarrow> json" where
  "deleted_payload i = JObj [(''before'', JObj [(''id'', JStr i)])]"

definition delete_event :: "env \<Rightarrow> string \<Rightarrow> string \<Rightarrow> string \<Rightarrow> (db, pb_event) sm" where
  "delete_event E pid author cid = append_event E pid '''' ''NODE_DELETED'' author
     (''deleted '' @ cid) (json_text E (deleted_payload cid))"

definition delete_node_tx ::
  "env \<Rightarrow> delete_node_request \<Rightarrow> string \<Rightarrow> string \<Rightarrow> string list \<Rightarrow> (db, pb_event list) sm" where
  "delete_node_tx E req pid prior desc =
     (let author = author_of (dn_meta req) in
     sm_bind (run_stmt (delete_node (dn_node_id req))) (\<lambda>_.
     sm_bind (sm_each (delete_event E pid author) desc) (\<lambda>evs.
     sm_bind (append_event E pid '''' ''NODE_DELETED'' author (''deleted '' @ dn_node_id req) prior) (\<lambda>e.
     (let all = evs @ [e] in
     sm_bind (record_idempotency E pid (idem_key (dn_meta req)) (last_event_seq all)) (\<lambda>_.
     sm_return all))))))"

definition delete_node_locked :: "env \<Rightarrow> delete_node_request \<Rightarrow> (db, mutation) sm" where
  "delete_node_locked E req =
     sm_bind (read_db (require_node (dn_node_id req))) (\<lambda>current.
     (let pid = nd_project_id current in
     sm_bind (read_db (check_idempotency pid (idem_key (dn_meta req)))) (\<lambda>hit. case hit of
       Some seq \<Rightarrow> sm_return (empty_mutation seq)
     | None \<Rightarrow>
         sm_bind (if dn_fail_if_referenced req
           then sm_bind (read_db (count_edges_at (dn_node_id req))) (\<lambda>deps.
             if deps > 0 then sm_throw (from_db_message ''node has dependents'') else sm_return ())
           else sm_return ()) (\<lambda>_.
         (let prior = node_before_json E current in
         sm_bind (read_db (external_dependents (dn_node_id req))) (\<lambda>deps.
         sm_bind (read_db (descendants (dn_node_id req))) (\<lambda>desc.
         sm_bind (in_tx E (delete_node_tx E req pid prior desc)) (\<lambda>evs.
         read_db (finish_mutation pid evs deps)))))))))"

section \<open>The parent column is a forest\<close>

lemma parent_edges_snd: "map snd (parent_edges d) = map n_id (filter (\<lambda>n. n_parent_id n \<noteq> None) (nodes d))"
  by (simp add: parent_edges_def List.map_filter_def) (induction "nodes d", auto)

definition depth_of :: "string option \<Rightarrow> nat" where
  "depth_of k = (if k = Some ''STEP'' then 2 else if k = Some ''TASK'' then 1 else 0)"

lemma parent_edge_depth:
  assumes "db_inv d" "(p, c) \<in> set (parent_edges d)"
  shows "depth_of (kind_of d p) < depth_of (kind_of d c)"
proof -
  obtain n where n: "n \<in> set (nodes d)" "n_id n = c" "n_parent_id n = Some p"
    using assms(2) by (auto simp: parent_edges_iff)
  have "find_node d c = Some n" using assms(1) n find_node_iff [of d c n] by (simp add: db_inv_def)
  then have "kind_of d c = Some (n_kind n)" by (simp add: kind_of_def)
  moreover have "kind_of d p = parent_kind_for (n_kind n)"
    using assms(1) n by (auto simp: db_inv_def intro: node_ok_parent)
  moreover have "n_kind n = ''TASK'' \<or> n_kind n = ''STEP''"
    using assms(1) n by (auto simp: inv_defs node_ok_def check_node_def shape_ok_def split: if_splits)
  ultimately show ?thesis by (auto simp: depth_of_def parent_kind_for_def)
qed

lemma parent_forest:
  assumes "db_inv d"
  shows "forest (parent_edges d)"
proof -
  have "set (parent_edges d) \<subseteq> measure (\<lambda>i. depth_of (kind_of d i))"
    using parent_edge_depth [OF assms] by auto
  then have "acyclic (set (parent_edges d))"
    by (meson wf_measure wf_subset wf_acyclic)
  moreover have "distinct (map snd (parent_edges d))"
    using assms by (simp add: parent_edges_snd inv_defs distinct_map_filter_key)
  ultimately show ?thesis by (simp add: forest_def)
qed

lemma subtree_rows_ok [row_simps]: "db_inv d \<Longrightarrow> subtree_rows i d = Inr (subtree d i)"
  by (simp add: subtree_rows_def subtree_def walk_all_root [OF parent_forest] del: closure.simps)

section \<open>What the queries of DeleteNode return\<close>

definition outer_dependents :: "db \<Rightarrow> string list \<Rightarrow> string list" where
  "outer_dependents d is = firsts [] (concat (map (\<lambda>e. map (\<lambda>_. d_blocked_id e) (filter (\<lambda>s. s = d_blocker_id e) is))
     (filter (\<lambda>e. d_blocked_id e \<notin> set is) (dependencies d))))"

lemma external_dependents_ok [row_simps]:
  "db_inv d \<Longrightarrow> external_dependents i d = Inr (outer_dependents d (subtree d i))"
  using query_strings_ok [of "''blocked_id''" "\<lambda>x. x"]
  by (simp add: external_dependents_def outer_dependents_def row_simps)

lemma set_outer_dependents:
  "j \<in> set (outer_dependents d is) \<longleftrightarrow> j \<notin> set is \<and> (\<exists>i \<in> set is. (i, j) \<in> set (dep_edges d))"
  by (auto simp: outer_dependents_def set_firsts dep_edges_iff)

lemma descendants_ok [row_simps]:
  "db_inv d \<Longrightarrow> descendants i d = Inr (filter (\<lambda>s. s \<noteq> i) (subtree d i))"
  using query_strings_ok [of "''id''" "\<lambda>x. x"]
  by (simp add: descendants_def row_simps)

lemma count_edges_at_ok [row_simps]:
  "count_edges_at i d = Inr (int (length (filter (\<lambda>e. d_blocker_id e = i \<or> d_blocked_id e = i) (dependencies d))))"
  by (simp add: count_edges_at_def row_simps)

section \<open>Safety\<close>

lemma keeps_id_simps [simp]:
  "keeps_id (\<lambda>n. n\<lparr>n_title := t\<rparr>)" "keeps_id (\<lambda>n. n\<lparr>n_description := t\<rparr>)"
  "keeps_id (\<lambda>n. n\<lparr>n_condition := t\<rparr>)" "keeps_id (\<lambda>n. n\<lparr>n_position := p\<rparr>)"
  "keeps_id (\<lambda>n. n\<lparr>n_reference := r\<rparr>)" "keeps_id (\<lambda>n. n\<lparr>n_note := t\<rparr>)"
  "keeps_id (\<lambda>n. n\<lparr>n_wp_state := r\<rparr>)" "keeps_id (\<lambda>n. n\<lparr>n_declared_status := t\<rparr>)"
  by (simp_all add: keeps_id_def)

lemma keeps_place_simps [simp]:
  "keeps_place (\<lambda>n. n\<lparr>n_title := t\<rparr>)" "keeps_place (\<lambda>n. n\<lparr>n_description := t\<rparr>)"
  "keeps_place (\<lambda>n. n\<lparr>n_condition := t\<rparr>)" "keeps_place (\<lambda>n. n\<lparr>n_position := p\<rparr>)"
  "keeps_place (\<lambda>n. n\<lparr>n_reference := r\<rparr>)" "keeps_place (\<lambda>n. n\<lparr>n_note := t\<rparr>)"
  "keeps_place (\<lambda>n. n\<lparr>n_wp_state := r\<rparr>)" "keeps_place (\<lambda>n. n\<lparr>n_declared_status := t\<rparr>)"
  by (simp_all add: keeps_place_def)

lemma safe_update_node [safe_rules]:
  "keeps_id g \<Longrightarrow> keeps_place g \<Longrightarrow> safe_body (run_stmt (update_node E i g))"
  by (intro safe_rules stmt_pres)

lemma safe_update_field [safe_rules]: "safe_body (update_field E req f)"
  unfolding update_field_def Let_def
  by (intro safe_body_if safe_update_node safe_body_throw) simp_all

lemma create_node_safe [safe_rules]: "safe_op (create_node_locked E req)"
  unfolding create_node_locked_def create_node_tx_def by (intro safe_rules stmt_pres)

lemma update_node_safe [safe_rules]: "safe_op (update_node_locked E req)"
  unfolding update_node_locked_def update_node_tx_def Let_def by (intro safe_rules)

lemma safe_delete_event [safe_rules]: "safe_body (delete_event E pid author cid)"
  unfolding delete_event_def by (intro safe_rules)

lemma delete_node_safe [safe_rules]: "safe_op (delete_node_locked E req)"
  unfolding delete_node_locked_def delete_node_tx_def Let_def
  by (intro safe_rules safe_op_reads_bind sm_rules stmt_pres)

section \<open>The common beginning of the writes to a node\<close>

lemma node_prologue:
  "sm_bind (read_db (require_node i)) (\<lambda>current.
     sm_bind (read_db (check_idempotency (nd_project_id current) key)) (\<lambda>hit. case hit of
       Some seq \<Rightarrow> sm_return (empty_mutation seq) | None \<Rightarrow> rest current)) c =
   (case find_node (live c) i of
      None \<Rightarrow> (Inl (from_db_message ''node not found''), c)
    | Some n \<Rightarrow> (case ledger_hit (live c) (n_project_id n) key of
        Some seq \<Rightarrow> (Inr (empty_mutation seq), c)
      | None \<Rightarrow> rest (node_msg (live c) n) c))"
  by (simp add: sm_bind_read require_node_ok check_ledger_hit sm_return_def split: option.split)

text \<open>A write to a node that succeeds was a retry, or its transaction has been committed.\<close>

lemma node_write_outcome:
  assumes "db_inv d"
    and "sm_bind (read_db (require_node i)) (\<lambda>current.
     sm_bind (read_db (check_idempotency (nd_project_id current) key)) (\<lambda>hit. case hit of
       Some seq \<Rightarrow> sm_return (empty_mutation seq) | None \<Rightarrow> rest current)) (idle d) = (Inr m, c')"
  obtains (retry) n seq where "find_node d i = Some n" "ledger_hit d (n_project_id n) key = Some seq"
      "m = empty_mutation seq" "c' = idle d"
  | (fresh) n where "find_node d i = Some n" "ledger_hit d (n_project_id n) key = None"
      "rest (node_msg d n) (idle d) = (Inr m, c')"
  using assms unfolding node_prologue by (auto split: option.splits)

section \<open>Outcomes\<close>

text \<open>The events a deletion logs for the descendants.\<close>

definition is_deletion :: "string \<Rightarrow> event_row \<Rightarrow> bool" where
  "is_deletion pid e \<longleftrightarrow> e_kind e = ''NODE_DELETED'' \<and> e_node_id e = None \<and> e_project_id e = pid"

lemma delete_event_InrD:
  assumes "delete_event E pid author x c = (Inr ev, c')"
  shows "\<exists>e. ev = event_msg e \<and> c' = c\<lparr>live := log_put e (live c)\<rparr> \<and> is_deletion pid e \<and>
    e_payload e = json_text E (deleted_payload x)"
  using append_event_InrD [OF assms [unfolded delete_event_def]] by (auto simp: is_deletion_def)

lemma delete_events_InrD:
  assumes "sm_each (delete_event E pid author) xs c = (Inr evs, c')"
  shows "\<exists>es. evs = map event_msg es \<and> same_graph (live c) (live c') \<and> savepoint c' = savepoint c \<and>
    events (live c') = events (live c) @ es \<and> idempotency (live c') = idempotency (live c) \<and>
    (\<forall>e \<in> set es. is_deletion pid e) \<and> map e_payload es = map (\<lambda>x. json_text E (deleted_payload x)) xs"
  using assms
proof (induction xs arbitrary: c evs)
  case Nil
  then show ?case by (simp add: sm_return_def)
next
  case (Cons x xs)
  obtain ev c1 evs' where 1: "delete_event E pid author x c = (Inr ev, c1)"
    and 2: "sm_each (delete_event E pid author) xs c1 = (Inr evs', c')" and 3: "evs = ev # evs'"
    using Cons.prems by (auto simp: sm_return_def elim!: sm_bind_InrE)
  obtain e where e: "ev = event_msg e" "c1 = c\<lparr>live := log_put e (live c)\<rparr>" "is_deletion pid e"
      "e_payload e = json_text E (deleted_payload x)"
    using delete_event_InrD [OF 1] by blast
  obtain es where "evs' = map event_msg es" "same_graph (live c1) (live c')" "savepoint c' = savepoint c1"
    "events (live c') = events (live c1) @ es" "idempotency (live c') = idempotency (live c1)"
    "\<forall>e \<in> set es. is_deletion pid e" "map e_payload es = map (\<lambda>x. json_text E (deleted_payload x)) xs"
    using Cons.IH [OF 2] by blast
  then show ?case using e 3 by (intro exI [of _ "e # es"]) (simp add: same_graph_def)
qed

lemma delete_node_outcome:
  assumes inv: "db_inv d" and run: "delete_node_locked E req (idle d) = (Inr m, c')"
  obtains (retry) n seq where "find_node d (dn_node_id req) = Some n"
      "ledger_hit d (n_project_id n) (idem_key (dn_meta req)) = Some seq"
      "m = empty_mutation seq" "c' = idle d"
  | (fresh) n d' es where "find_node d (dn_node_id req) = Some n"
      "ledger_hit d (n_project_id n) (idem_key (dn_meta req)) = None"
      "same_graph (drop_nodes (subtree d (dn_node_id req)) d) d'" "db_inv d'" "c' = idle d'"
      "events d' = events (drop_nodes (subtree d (dn_node_id req)) d) @ es"
      "\<forall>e \<in> set es. is_deletion (n_project_id n) e"
      "map e_payload es = map (\<lambda>x. json_text E (deleted_payload x))
          (filter (\<lambda>s. s \<noteq> dn_node_id req) (subtree d (dn_node_id req))) @ [node_before_json E (node_msg d n)]"
      "m = mutation_of (n_project_id n) (map event_msg es) (outer_dependents d (subtree d (dn_node_id req))) d'"
  using inv run [unfolded delete_node_locked_def Let_def]
proof (cases rule: node_write_outcome)
  case (retry n seq)
  then show ?thesis using that(1) by blast
next
  case (fresh n)
  let ?i = "dn_node_id req" and ?p = "n_project_id n" and ?key = "idem_key (dn_meta req)"
  let ?desc = "filter (\<lambda>s. s \<noteq> ?i) (subtree d ?i)" and ?b = "node_before_json E (node_msg d n)"
  let ?deps = "outer_dependents d (subtree d ?i)"
  have guard: "sm_bind (if dn_fail_if_referenced req
           then sm_bind (read_db (count_edges_at ?i)) (\<lambda>deps.
             if deps > 0 then sm_throw (from_db_message ''node has dependents'') else sm_return ())
           else sm_return ()) g (idle d) = (Inr m, c') \<Longrightarrow> g () (idle d) = (Inr m, c')" for g
    by (auto simp: sm_bind_def read_db_def sm_throw_def sm_return_def row_simps split: if_splits)
  have tx: "sm_bind (in_tx E (delete_node_tx E req ?p ?b ?desc))
      (\<lambda>evs. read_db (finish_mutation ?p evs ?deps)) (idle d) = (Inr m, c')"
    using guard [OF fresh(3)] inv by (simp add: sm_bind_read external_dependents_ok descendants_ok)
  have safe: "safe_body (delete_node_tx E req ?p ?b ?desc)"
    unfolding delete_node_tx_def Let_def by (intro safe_rules stmt_pres)
  obtain evs d2 where f: "delete_node_tx E req ?p ?b ?desc (within d d) = (Inr evs, within d d2)"
    and inv2: "db_inv d2" and g: "read_db (finish_mutation ?p evs ?deps) (idle d2) = (Inr m, c')"
    using tx_committed_inv [OF safe inv tx] by blast
  have del: "delete_node ?i d = Inr ((), drop_nodes (subtree d ?i) d)"
    using find_node_in_ids [OF fresh(1)] by (simp add: delete_node_def)
  obtain evs1 c1 e c2 where each: "sm_each (delete_event E ?p (author_of (dn_meta req))) ?desc
      (within d (drop_nodes (subtree d ?i) d)) = (Inr evs1, c1)"
    and last: "append_event E ?p '''' ''NODE_DELETED'' (author_of (dn_meta req)) (''deleted '' @ ?i) ?b c1 = (Inr e, c2)"
    and evs: "evs = evs1 @ [e]" "within d d2 = c2\<lparr>live := ledger_put E ?p ?key (last_event_seq evs) None (live c2)\<rparr>"
    using f unfolding delete_node_tx_def Let_def
    by (simp add: sm_bind_run del) (auto simp: sm_return_def record_idempotency_eq elim!: sm_bind_InrE)
  obtain es1 where es1: "evs1 = map event_msg es1" "same_graph (drop_nodes (subtree d ?i) d) (live c1)"
    "events (live c1) = events (drop_nodes (subtree d ?i) d) @ es1"
    "\<forall>e \<in> set es1. is_deletion ?p e" "map e_payload es1 = map (\<lambda>x. json_text E (deleted_payload x)) ?desc"
    using delete_events_InrD [OF each] by auto
  note l = append_event_InrD [OF last]
  let ?e = "event_entry E ?p '''' ''NODE_DELETED'' (author_of (dn_meta req)) (''deleted '' @ ?i) ?b (live c1)"
  have d2: "d2 = ledger_put E ?p ?key (last_event_seq evs) None (log_put ?e (live c1))"
    using arg_cong [OF evs(2), of live] l(2) by simp
  show ?thesis
  proof (rule that(2) [OF fresh(1,2), of d2 "es1 @ [?e]"])
    show "same_graph (drop_nodes (subtree d ?i) d) d2" using es1(2) by (simp add: d2 same_graph_def)
    show "c' = idle d2" "m = mutation_of ?p (map event_msg (es1 @ [?e])) ?deps d2"
      using g inv2 l(1) evs(1) es1(1) by (simp_all add: finish_read)
  qed (use inv2 es1 in \<open>simp_all add: d2 is_deletion_def\<close>)
qed

lemma create_node_outcome:
  assumes inv: "db_inv d" and run: "create_node_locked E req (idle d) = (Inr m, c')"
    and miss: "ledger_hit d (cn_project_id req) (idem_key (cn_meta req)) = None"
  obtains i d' where "i = ''node-'' @ int_str (clock_ms E) @ ''-'' @ rand_hex E"
    "insert_node False E (new_node_row E req i) d = Inr ((), d\<lparr>nodes := nodes d @ [new_node_row E req i]\<rparr>)"
    "d' = ledger_put E (cn_project_id req) (idem_key (cn_meta req)) (last_seq d + 1) (Some i)
      (log_put (event_entry E (cn_project_id req) i ''NODE_CREATED'' (author_of (cn_meta req)) (''created '' @ i)
        (json_text E (created_payload i (cn_title req))) d) (d\<lparr>nodes := nodes d @ [new_node_row E req i]\<rparr>))"
    "db_inv d'" "c' = idle d'"
    "m = mutation_of (cn_project_id req) [event_msg (event_entry E (cn_project_id req) i ''NODE_CREATED''
      (author_of (cn_meta req)) (''created '' @ i) (json_text E (created_payload i (cn_title req))) d)] [i] d'"
proof -
  let ?p = "cn_project_id req" and ?key = "idem_key (cn_meta req)"
  define i where "i = ''node-'' @ int_str (clock_ms E) @ ''-'' @ rand_hex E"
  have new: "new_id E ''node'' = Inr i" by (simp add: new_id_ok i_def)
  let ?n = "new_node_row E req i"
  have "check_idempotency_created ?p ?key d = Inr None"
    using miss by (auto simp: check_created_ok ledger_hit_def split: option.splits)
  then have tx: "sm_bind (in_tx E (create_node_tx E req)) (\<lambda>(event, i).
      read_db (finish_mutation ?p [event] [i])) (idle d) = (Inr m, c')"
    using run by (simp add: create_node_locked_def sm_bind_read)
  have safe: "safe_body (create_node_tx E req)"
    unfolding create_node_tx_def by (intro safe_rules stmt_pres)
  obtain r d2 where f: "create_node_tx E req (within d d) = (Inr r, within d d2)"
    and inv2: "db_inv d2" and g: "(case r of (event, i) \<Rightarrow> read_db (finish_mutation ?p [event] [i])) (idle d2) = (Inr m, c')"
    using tx_committed_inv [OF safe inv tx] by blast
  obtain d1 ev c1 where ins: "insert_node False E ?n d = Inr ((), d1)"
    and app: "append_event E ?p i ''NODE_CREATED'' (author_of (cn_meta req)) (''created '' @ i)
      (json_text E (created_payload i (cn_title req))) (within d d1) = (Inr ev, c1)"
    and r: "r = (ev, i)" and d2: "within d d2 = c1\<lparr>live := ledger_put E ?p ?key (ev_seq ev) (Some i) (live c1)\<rparr>"
    using f unfolding create_node_tx_def
    by (auto simp: sm_bind_lift sm_bind_run new record_created_eq sm_return_def
        elim!: sm_bind_InrE split: sum.splits)
  have d1: "d1 = d\<lparr>nodes := nodes d @ [?n]\<rparr>"
    using ins by (auto simp: insert_node_def split: option.splits if_splits)
  note l = append_event_InrD [OF app]
  have e: "event_entry E ?p i k a s t d1 = event_entry E ?p i k a s t d" for k a s t
    by (simp add: d1 event_entry_def)
  have d2': "d2 = ledger_put E ?p ?key (last_seq d + 1) (Some i)
      (log_put (event_entry E ?p i ''NODE_CREATED'' (author_of (cn_meta req)) (''created '' @ i)
        (json_text E (created_payload i (cn_title req))) d) d1)"
    using arg_cong [OF d2, of live] l(1,2) by (simp add: e)
  show thesis
    by (rule that [OF i_def _ d2' [unfolded d1] inv2])
      (use ins d1 g l(1) inv2 in \<open>simp_all add: r finish_read e [unfolded d1]\<close>)
qed

end
