(* ===== verification/Store_Graph.thy ===== *)
theory Store_Graph
  imports Store_Nodes
begin

text \<open>
  Declared status and dependency edges (\<open>set_status_locked\<close>, \<open>add_dependency_locked\<close> and
  \<open>remove_dependency_locked\<close> of \<open>flowcore/src/store.rs\<close>): the three writes that change what is
  ready and what is blocked.
\<close>

section \<open>SetStatus\<close>

definition status_payload :: "string \<Rightarrow> string \<Rightarrow> json" where
  "status_payload prior new = JObj [(''after'', JStr new), (''before'', JStr prior)]"

definition set_status_tx ::
  "env \<Rightarrow> set_status_request \<Rightarrow> string \<Rightarrow> string \<Rightarrow> string \<Rightarrow> (db, pb_event) sm" where
  "set_status_tx E req pid prior new =
     sm_bind (run_stmt (update_node E (ss_node_id req) (\<lambda>n. n\<lparr>n_declared_status := new\<rparr>))) (\<lambda>_.
     sm_bind (append_event E pid (ss_node_id req) ''STATUS_SET'' (author_of (ss_meta req))
       (ss_node_id req @ '' -> '' @ new) (json_text E (status_payload prior new))) (\<lambda>event.
     sm_bind (record_idempotency E pid (idem_key (ss_meta req)) (ev_seq event)) (\<lambda>_.
     sm_return event)))"

definition set_status_locked :: "env \<Rightarrow> set_status_request \<Rightarrow> (db, mutation) sm" where
  "set_status_locked E req =
     sm_bind (read_db (require_node (ss_node_id req))) (\<lambda>current.
     (let pid = nd_project_id current in
     sm_bind (read_db (check_idempotency pid (idem_key (ss_meta req)))) (\<lambda>hit. case hit of
       Some seq \<Rightarrow> sm_return (empty_mutation seq)
     | None \<Rightarrow>
         (let prior = declared_str (nd_declared_status current);
              new = declared_str (ss_declared_status req) in
         sm_bind (read_db (\<lambda>d. query_strings (blocked_rows (ss_node_id req) d))) (\<lambda>dependents.
         sm_bind (in_tx E (set_status_tx E req pid prior new)) (\<lambda>event.
         read_db (finish_mutation pid [event] (ss_node_id req # dependents))))))))"

section \<open>AddDependency and RemoveDependency\<close>

definition edge_payload :: "string \<Rightarrow> string \<Rightarrow> json" where
  "edge_payload blocker blocked = JObj [(''blocked_id'', JStr blocked), (''blocker_id'', JStr blocker)]"

definition add_dependency_tx :: "env \<Rightarrow> add_dependency_request \<Rightarrow> string \<Rightarrow> (db, pb_event) sm" where
  "add_dependency_tx E req pid =
     sm_bind (run_stmt (insert_dependency E (ad_blocker_id req) (ad_blocked_id req))) (\<lambda>_.
     sm_bind (append_event E pid '''' ''DEP_ADDED'' (author_of (ad_meta req))
       (ad_blocker_id req @ '' blocks '' @ ad_blocked_id req)
       (json_text E (edge_payload (ad_blocker_id req) (ad_blocked_id req)))) (\<lambda>event.
     sm_bind (record_idempotency E pid (idem_key (ad_meta req)) (ev_seq event)) (\<lambda>_.
     sm_return event)))"

definition add_dependency_locked :: "env \<Rightarrow> add_dependency_request \<Rightarrow> (db, mutation) sm" where
  "add_dependency_locked E req =
     sm_bind (read_db (project_of (ad_blocker_id req))) (\<lambda>pid.
     sm_bind (read_db (check_idempotency pid (idem_key (ad_meta req)))) (\<lambda>hit. case hit of
       Some seq \<Rightarrow> sm_return (empty_mutation seq)
     | None \<Rightarrow>
         sm_bind (in_tx E (add_dependency_tx E req pid)) (\<lambda>event.
         read_db (finish_mutation pid [event] [ad_blocked_id req]))))"

definition remove_dependency_tx :: "env \<Rightarrow> remove_dependency_request \<Rightarrow> string \<Rightarrow> (db, pb_event) sm" where
  "remove_dependency_tx E req pid =
     sm_bind (run_stmt (delete_dependency (rd_blocker_id req) (rd_blocked_id req))) (\<lambda>_.
     sm_bind (append_event E pid '''' ''DEP_REMOVED'' (author_of (rd_meta req))
       (rd_blocker_id req @ '' no longer blocks '' @ rd_blocked_id req)
       (json_text E (edge_payload (rd_blocker_id req) (rd_blocked_id req)))) (\<lambda>event.
     sm_bind (record_idempotency E pid (idem_key (rd_meta req)) (ev_seq event)) (\<lambda>_.
     sm_return event)))"

definition remove_dependency_locked :: "env \<Rightarrow> remove_dependency_request \<Rightarrow> (db, mutation) sm" where
  "remove_dependency_locked E req =
     sm_bind (read_db (project_of (rd_blocker_id req))) (\<lambda>pid.
     sm_bind (read_db (check_idempotency pid (idem_key (rd_meta req)))) (\<lambda>hit. case hit of
       Some seq \<Rightarrow> sm_return (empty_mutation seq)
     | None \<Rightarrow>
         sm_bind (in_tx E (remove_dependency_tx E req pid)) (\<lambda>event.
         read_db (finish_mutation pid [event] [rd_blocked_id req]))))"

section \<open>Safety\<close>

lemma set_status_safe [safe_rules]: "safe_op (set_status_locked E req)"
  unfolding set_status_locked_def set_status_tx_def Let_def
  by (intro safe_op_read_bind safe_op_option safe_op_return safe_op_tx safe_rules keeps_id_simps
      keeps_place_simps)

lemma add_dependency_safe [safe_rules]: "safe_op (add_dependency_locked E req)"
  unfolding add_dependency_locked_def add_dependency_tx_def by (intro safe_rules stmt_pres)

lemma remove_dependency_safe [safe_rules]: "safe_op (remove_dependency_locked E req)"
  unfolding remove_dependency_locked_def remove_dependency_tx_def by (intro safe_rules stmt_pres)

section \<open>Outcomes\<close>

lemma set_status_outcome:
  assumes inv: "db_inv d" and run: "set_status_locked E req (idle d) = (Inr m, c')"
  obtains (retry) n seq where "find_node d (ss_node_id req) = Some n"
      "ledger_hit d (n_project_id n) (idem_key (ss_meta req)) = Some seq"
      "m = empty_mutation seq" "c' = idle d"
  | (fresh) n d1 d' where "find_node d (ss_node_id req) = Some n"
      "ledger_hit d (n_project_id n) (idem_key (ss_meta req)) = None"
      "d1 = put_node E (ss_node_id req) (\<lambda>n. n\<lparr>n_declared_status := declared_str (ss_declared_status req)\<rparr>) d"
      "d' = log_tail E (n_project_id n) (ss_node_id req) ''STATUS_SET'' (author_of (ss_meta req))
        (ss_node_id req @ '' -> '' @ declared_str (ss_declared_status req))
        (json_text E (status_payload (n_declared_status n) (declared_str (ss_declared_status req))))
        (idem_key (ss_meta req)) d1"
      "db_inv d'" "c' = idle d'"
      "m = mutation_of (n_project_id n) [event_msg (event_entry E (n_project_id n) (ss_node_id req)
        ''STATUS_SET'' (author_of (ss_meta req))
        (ss_node_id req @ '' -> '' @ declared_str (ss_declared_status req))
        (json_text E (status_payload (n_declared_status n) (declared_str (ss_declared_status req)))) d1)]
        (ss_node_id req # blocks d (ss_node_id req)) d'"
  using inv run [unfolded set_status_locked_def Let_def]
proof (cases rule: node_write_outcome)
  case (retry n seq)
  then show ?thesis using that(1) by blast
next
  case (fresh n)
  let ?i = "ss_node_id req" and ?p = "n_project_id n" and ?new = "declared_str (ss_declared_status req)"
  let ?old = "declared_str (nd_declared_status (node_msg d n))"
  have "n \<in> set (nodes d)" using find_node_SomeD [OF fresh(1)] by simp
  then have "declared_ok (n_declared_status n)"
    using inv by (auto simp: inv_defs node_ok_def check_node_def split: if_splits)
  then have old: "?old = n_declared_status n" by (simp add: declared_str_of_row)
  let ?f = "\<lambda>n. n\<lparr>n_declared_status := ?new\<rparr>"
  have tx: "sm_bind (in_tx E (logged_write E (run_stmt (update_node E ?i ?f)) ?p ?i ''STATUS_SET''
        (author_of (ss_meta req)) (?i @ '' -> '' @ ?new) (json_text E (status_payload ?old ?new))
        (idem_key (ss_meta req)))) (\<lambda>event.
      read_db (finish_mutation ?p [event] (?i # blocks d ?i))) (idle d) = (Inr m, c')"
    using fresh(3) by (simp add: sm_bind_read query_blocked_ok set_status_tx_def logged_write_def)
  have safe: "safe_body (run_stmt (update_node E ?i ?f))"
    by (intro safe_rules keeps_id_simps keeps_place_simps)
  show ?thesis
  proof (rule logged_write_outcome [OF safe inv tx])
    fix d1 d'
    assume u: "run_stmt (update_node E ?i ?f) (within d d) = (Inr (), within d d1)"
      and rest: "d' = log_tail E ?p ?i ''STATUS_SET'' (author_of (ss_meta req)) (?i @ '' -> '' @ ?new)
          (json_text E (status_payload ?old ?new)) (idem_key (ss_meta req)) d1" "db_inv d'" "c' = idle d'"
        "m = mutation_of ?p [event_msg (event_entry E ?p ?i ''STATUS_SET'' (author_of (ss_meta req))
          (?i @ '' -> '' @ ?new) (json_text E (status_payload ?old ?new)) d1)] (?i # blocks d ?i) d'"
    have "d1 = put_node E ?i ?f d"
      using u fresh(1) by (auto simp: run_stmt_eq_Inr update_node_def within_def split: option.splits)
    then show thesis using that(2) [OF fresh(1,2)] rest old by simp
  qed
qed

lemma edge_prologue:
  "sm_bind (read_db (project_of i)) (\<lambda>pid. sm_bind (read_db (check_idempotency pid key)) (\<lambda>hit. case hit of
       Some seq \<Rightarrow> sm_return (empty_mutation seq) | None \<Rightarrow> rest pid)) c =
   (let p = (case find_node (live c) i of None \<Rightarrow> '''' | Some n \<Rightarrow> n_project_id n) in
    case ledger_hit (live c) p key of
      Some seq \<Rightarrow> (Inr (empty_mutation seq), c) | None \<Rightarrow> rest p c)"
  by (simp add: sm_bind_read project_of_ok check_ledger_hit sm_return_def Let_def split: option.split)

text \<open>The project that a write to an edge is filed under: the blocker's.\<close>

definition edge_project :: "db \<Rightarrow> string \<Rightarrow> string" where
  "edge_project d i = (case find_node d i of None \<Rightarrow> '''' | Some n \<Rightarrow> n_project_id n)"

lemma add_dependency_outcome:
  assumes inv: "db_inv d" and run: "add_dependency_locked E req (idle d) = (Inr m, c')"
  obtains (retry) seq where "ledger_hit d (edge_project d (ad_blocker_id req)) (idem_key (ad_meta req)) = Some seq"
      "m = empty_mutation seq" "c' = idle d"
  | (fresh) d1 d' where "ledger_hit d (edge_project d (ad_blocker_id req)) (idem_key (ad_meta req)) = None"
      "insert_dependency E (ad_blocker_id req) (ad_blocked_id req) d = Inr ((), d1)"
      "d' = log_tail E (edge_project d (ad_blocker_id req)) '''' ''DEP_ADDED'' (author_of (ad_meta req))
        (ad_blocker_id req @ '' blocks '' @ ad_blocked_id req)
        (json_text E (edge_payload (ad_blocker_id req) (ad_blocked_id req))) (idem_key (ad_meta req)) d1"
      "db_inv d'" "c' = idle d'" "mu_changed_nodes m = nodes_of d' [ad_blocked_id req]"
      "mu_seq m = last_seq d1 + 1"
      "mu_events m = [event_msg (event_entry E (edge_project d (ad_blocker_id req)) '''' ''DEP_ADDED'' (author_of (ad_meta req))
        (ad_blocker_id req @ '' blocks '' @ ad_blocked_id req)
        (json_text E (edge_payload (ad_blocker_id req) (ad_blocked_id req))) d1)]"
proof -
  let ?a = "ad_blocker_id req" and ?b = "ad_blocked_id req" and ?p = "edge_project d (ad_blocker_id req)"
  let ?key = "idem_key (ad_meta req)"
  show thesis
  proof (cases "ledger_hit d ?p ?key")
    case (Some seq)
    then show ?thesis
      using that(1) run by (simp add: add_dependency_locked_def edge_prologue edge_project_def Let_def)
  next
    case None
    have safe: "safe_body (run_stmt (insert_dependency E ?a ?b))" by (intro safe_rules stmt_pres)
    have tx: "sm_bind (in_tx E (logged_write E (run_stmt (insert_dependency E ?a ?b)) ?p '''' ''DEP_ADDED''
        (author_of (ad_meta req)) (?a @ '' blocks '' @ ?b) (json_text E (edge_payload ?a ?b)) ?key))
        (\<lambda>event. read_db (finish_mutation ?p [event] [?b])) (idle d) = (Inr m, c')"
      using run None
      by (simp add: add_dependency_locked_def edge_prologue edge_project_def Let_def add_dependency_tx_def
          logged_write_def)
    show ?thesis
    proof (rule logged_write_outcome [OF safe inv tx])
      fix d1 d'
      assume "run_stmt (insert_dependency E ?a ?b) (within d d) = (Inr (), within d d1)"
        and rest: "d' = log_tail E ?p '''' ''DEP_ADDED'' (author_of (ad_meta req)) (?a @ '' blocks '' @ ?b)
          (json_text E (edge_payload ?a ?b)) ?key d1" "db_inv d'" "c' = idle d'"
          "m = mutation_of ?p [event_msg (event_entry E ?p '''' ''DEP_ADDED'' (author_of (ad_meta req))
            (?a @ '' blocks '' @ ?b) (json_text E (edge_payload ?a ?b)) d1)] [?b] d'"
      then have "insert_dependency E ?a ?b d = Inr ((), d1)"
        by (auto simp: run_stmt_eq_Inr within_def)
      then show thesis using that(2) [OF None] rest by (simp add: last_event_seq_def)
    qed
  qed
qed

lemma remove_dependency_outcome:
  assumes inv: "db_inv d" and run: "remove_dependency_locked E req (idle d) = (Inr m, c')"
  obtains (retry) seq where "ledger_hit d (edge_project d (rd_blocker_id req)) (idem_key (rd_meta req)) = Some seq"
      "m = empty_mutation seq" "c' = idle d"
  | (fresh) d1 d' where "ledger_hit d (edge_project d (rd_blocker_id req)) (idem_key (rd_meta req)) = None"
      "delete_dependency (rd_blocker_id req) (rd_blocked_id req) d = Inr ((), d1)"
      "d' = log_tail E (edge_project d (rd_blocker_id req)) '''' ''DEP_REMOVED'' (author_of (rd_meta req))
        (rd_blocker_id req @ '' no longer blocks '' @ rd_blocked_id req)
        (json_text E (edge_payload (rd_blocker_id req) (rd_blocked_id req))) (idem_key (rd_meta req)) d1"
      "db_inv d'" "c' = idle d'" "mu_changed_nodes m = nodes_of d' [rd_blocked_id req]"
      "mu_seq m = last_seq d1 + 1"
      "mu_events m = [event_msg (event_entry E (edge_project d (rd_blocker_id req)) '''' ''DEP_REMOVED'' (author_of (rd_meta req))
        (rd_blocker_id req @ '' no longer blocks '' @ rd_blocked_id req)
        (json_text E (edge_payload (rd_blocker_id req) (rd_blocked_id req))) d1)]"
proof -
  let ?a = "rd_blocker_id req" and ?b = "rd_blocked_id req" and ?p = "edge_project d (rd_blocker_id req)"
  let ?key = "idem_key (rd_meta req)"
  show thesis
  proof (cases "ledger_hit d ?p ?key")
    case (Some seq)
    then show ?thesis
      using that(1) run by (simp add: remove_dependency_locked_def edge_prologue edge_project_def Let_def)
  next
    case None
    have safe: "safe_body (run_stmt (delete_dependency ?a ?b))" by (intro safe_rules stmt_pres)
    have tx: "sm_bind (in_tx E (logged_write E (run_stmt (delete_dependency ?a ?b)) ?p '''' ''DEP_REMOVED''
        (author_of (rd_meta req)) (?a @ '' no longer blocks '' @ ?b) (json_text E (edge_payload ?a ?b)) ?key))
        (\<lambda>event. read_db (finish_mutation ?p [event] [?b])) (idle d) = (Inr m, c')"
      using run None
      by (simp add: remove_dependency_locked_def edge_prologue edge_project_def Let_def
          remove_dependency_tx_def logged_write_def)
    show ?thesis
    proof (rule logged_write_outcome [OF safe inv tx])
      fix d1 d'
      assume "run_stmt (delete_dependency ?a ?b) (within d d) = (Inr (), within d d1)"
        and rest: "d' = log_tail E ?p '''' ''DEP_REMOVED'' (author_of (rd_meta req)) (?a @ '' no longer blocks '' @ ?b)
          (json_text E (edge_payload ?a ?b)) ?key d1" "db_inv d'" "c' = idle d'"
          "m = mutation_of ?p [event_msg (event_entry E ?p '''' ''DEP_REMOVED'' (author_of (rd_meta req))
            (?a @ '' no longer blocks '' @ ?b) (json_text E (edge_payload ?a ?b)) d1)] [?b] d'"
      then have "delete_dependency ?a ?b d = Inr ((), d1)"
        by (auto simp: run_stmt_eq_Inr within_def)
      then show thesis using that(2) [OF None] rest by (simp add: last_event_seq_def)
    qed
  qed
qed

section \<open>Whose derived status can change\<close>

lemma node_status_put:
  assumes f: "keeps_id f" and n: "n \<in> set (nodes d)" "n_id n \<noteq> i"
    and edge: "(i, n_id n) \<notin> set (dep_edges d)"
  shows "node_status (put_node E i f d) n = node_status d n"
proof -
  define g where "g = (\<lambda>m. if n_id m = i then (f m)\<lparr>n_updated_at := clock E\<rparr> else m)"
  have nodes: "nodes (put_node E i f d) = map g (nodes d)" by (simp add: put_node_def g_def)
  have "(\<exists>e \<in> set (dependencies d). \<exists>b \<in> set (nodes d).
      n_id (g b) = d_blocker_id e \<and> d_blocked_id e = n_id n \<and> n_declared_status (g b) \<noteq> ''DONE'') \<longleftrightarrow>
    (\<exists>e \<in> set (dependencies d). \<exists>b \<in> set (nodes d).
      n_id b = d_blocker_id e \<and> d_blocked_id e = n_id n \<and> n_declared_status b \<noteq> ''DONE'')"
  proof (intro bex_cong refl)
    fix e b
    assume "e \<in> set (dependencies d)"
    then have "d_blocker_id e = i \<Longrightarrow> d_blocked_id e \<noteq> n_id n"
      using edge by (auto simp: dep_edges_iff)
    then show "(n_id (g b) = d_blocker_id e \<and> d_blocked_id e = n_id n \<and> n_declared_status (g b) \<noteq> ''DONE'') =
      (n_id b = d_blocker_id e \<and> d_blocked_id e = n_id n \<and> n_declared_status b \<noteq> ''DONE'')"
      using f by (auto simp: keeps_id_def g_def)
  qed
  then show ?thesis by (simp add: node_status_def nodes)
qed

lemma blocked_iff:
  "(\<exists>e \<in> set (dependencies d). \<exists>b \<in> set ns. n_id b = d_blocker_id e \<and> d_blocked_id e = i \<and>
      n_declared_status b \<noteq> ''DONE'') \<longleftrightarrow>
    (\<exists>b \<in> set ns. (n_id b, i) \<in> set (dep_edges d) \<and> n_declared_status b \<noteq> ''DONE'')"
  by (auto simp: dep_edges_iff) metis+

lemma node_status_edges:
  assumes "\<And>a. (a, n_id n) \<in> set (dep_edges d') \<longleftrightarrow> (a, n_id n) \<in> set (dep_edges d)"
    "nodes d' = nodes d"
  shows "node_status d' n = node_status d n"
  using assms by (simp add: node_status_def blocked_iff)

end
