(* ===== verification/Store_Review.thy ===== *)
theory Store_Review
  imports Store_Nodes
begin

text \<open>
  What agents and operators say about a node (\<open>report_condition_locked\<close>, \<open>set_verdict_locked\<close>
  and \<open>add_comment_locked\<close> of \<open>flowcore/src/store.rs\<close>). A report and a verdict are the two
  independent halves of one verification row.
\<close>

section \<open>ReportCondition\<close>

definition report_payload :: "string \<Rightarrow> string \<Rightarrow> json" where
  "report_payload outcome detail = JObj [(''detail'', JStr detail), (''result'', JStr outcome)]"

definition agent_result_str :: "int \<Rightarrow> string res" where
  "agent_result_str r = (if r = 1 then Inr ''PASS'' else if r = 2 then Inr ''FAIL''
     else Inl (from_db_message ''invalid agent result''))"

definition report_condition_tx ::
  "env \<Rightarrow> report_condition_request \<Rightarrow> string \<Rightarrow> string \<Rightarrow> (db, pb_event) sm" where
  "report_condition_tx E req pid outcome =
     (let author = author_of (rc_meta req) in
     sm_bind (run_stmt (upsert_report E (rc_node_id req) outcome author (rc_detail req))) (\<lambda>_.
     sm_bind (append_event E pid (rc_node_id req) ''AGENT_REPORTED'' author
       (''agent reported '' @ outcome @ '' on '' @ rc_node_id req)
       (json_text E (report_payload outcome (rc_detail req)))) (\<lambda>event.
     sm_bind (record_idempotency E pid (idem_key (rc_meta req)) (ev_seq event)) (\<lambda>_.
     sm_return event))))"

definition report_condition_locked :: "env \<Rightarrow> report_condition_request \<Rightarrow> (db, mutation) sm" where
  "report_condition_locked E req =
     sm_bind (read_db (require_node (rc_node_id req))) (\<lambda>current.
     (let pid = nd_project_id current in
     sm_bind (read_db (check_idempotency pid (idem_key (rc_meta req)))) (\<lambda>hit. case hit of
       Some seq \<Rightarrow> sm_return (empty_mutation seq)
     | None \<Rightarrow>
         sm_bind (read_db (\<lambda>_. agent_result_str (rc_result req))) (\<lambda>outcome.
         sm_bind (in_tx E (report_condition_tx E req pid outcome)) (\<lambda>event.
         read_db (finish_mutation pid [event] [rc_node_id req]))))))"

section \<open>SetVerdict\<close>

definition verdict_stmt :: "env \<Rightarrow> set_verdict_request \<Rightarrow> (db, unit) sm" where
  "verdict_stmt E req =
     (if sv_verdict req = 1 then run_stmt (upsert_verdict E (sv_node_id req) ''ACCEPTED'')
      else if sv_verdict req = 2 then run_stmt (upsert_verdict E (sv_node_id req) ''REJECTED'')
      else run_stmt (clear_verdict (sv_node_id req)))"

definition set_verdict_tx :: "env \<Rightarrow> set_verdict_request \<Rightarrow> string \<Rightarrow> (db, pb_event) sm" where
  "set_verdict_tx E req pid =
     sm_bind (verdict_stmt E req) (\<lambda>_.
     sm_bind (append_event E pid (sv_node_id req) ''VERDICT_SET'' (author_of (sv_meta req))
       (''verdict set on '' @ sv_node_id req) ''{}'') (\<lambda>event.
     sm_bind (record_idempotency E pid (idem_key (sv_meta req)) (ev_seq event)) (\<lambda>_.
     sm_return event)))"

definition set_verdict_locked :: "env \<Rightarrow> set_verdict_request \<Rightarrow> (db, mutation) sm" where
  "set_verdict_locked E req =
     sm_bind (read_db (require_node (sv_node_id req))) (\<lambda>current.
     (let pid = nd_project_id current in
     sm_bind (read_db (check_idempotency pid (idem_key (sv_meta req)))) (\<lambda>hit. case hit of
       Some seq \<Rightarrow> sm_return (empty_mutation seq)
     | None \<Rightarrow>
         sm_bind (in_tx E (set_verdict_tx E req pid)) (\<lambda>event.
         read_db (finish_mutation pid [event] [sv_node_id req])))))"

section \<open>AddComment\<close>

text \<open>The first 96 characters, and the UTF-8 bytes of a horizontal ellipsis when some are left.\<close>

definition ellipsis :: string where
  "ellipsis = [char_of (226::nat), char_of (128::nat), char_of (166::nat)]"

definition comment_summary :: "string \<Rightarrow> string" where
  "comment_summary text =
     (let trimmed = concat (take 96 (utf8_chars text)) in
      if length (utf8_chars text) > 96 then trimmed @ ellipsis else text)"

definition comment_payload :: "string \<Rightarrow> string \<Rightarrow> json" where
  "comment_payload text author = JObj [(''author'', JStr author), (''text'', JStr text)]"

definition add_comment_tx :: "env \<Rightarrow> add_comment_request \<Rightarrow> string \<Rightarrow> (db, pb_event) sm" where
  "add_comment_tx E req pid =
     (let author = author_of (ac_meta req) in
     sm_bind (append_event E pid (ac_node_id req) ''COMMENT'' author (comment_summary (ac_text req))
       (json_text E (comment_payload (ac_text req) author))) (\<lambda>event.
     sm_bind (record_idempotency E pid (idem_key (ac_meta req)) (ev_seq event)) (\<lambda>_.
     sm_return event)))"

definition add_comment_locked :: "env \<Rightarrow> add_comment_request \<Rightarrow> (db, mutation) sm" where
  "add_comment_locked E req =
     sm_bind (read_db (require_node (ac_node_id req))) (\<lambda>current.
     (let pid = nd_project_id current in
     sm_bind (read_db (check_idempotency pid (idem_key (ac_meta req)))) (\<lambda>hit. case hit of
       Some seq \<Rightarrow> sm_return (empty_mutation seq)
     | None \<Rightarrow>
         sm_bind (in_tx E (add_comment_tx E req pid)) (\<lambda>event.
         read_db (finish_mutation pid [event] [ac_node_id req])))))"

section \<open>Safety\<close>

lemma report_condition_safe [safe_rules]: "safe_op (report_condition_locked E req)"
  unfolding report_condition_locked_def report_condition_tx_def Let_def
  by (intro safe_rules stmt_pres)

lemma set_verdict_safe [safe_rules]: "safe_op (set_verdict_locked E req)"
  unfolding set_verdict_locked_def set_verdict_tx_def verdict_stmt_def Let_def
  by (intro safe_rules stmt_pres)

lemma add_comment_safe [safe_rules]: "safe_op (add_comment_locked E req)"
  unfolding add_comment_locked_def add_comment_tx_def Let_def by (intro safe_rules)

section \<open>Summaries\<close>

lemma concat_take_le: "concat (take n xs) @ concat (drop n xs) = concat xs"
  by (metis append_take_drop_id concat_append)

end
