(* ===== verification/Store_Undo.thy ===== *)
theory Store_Undo
  imports Store_Nodes
begin

text \<open>
  Undoing an event of the log (\<open>undo_locked\<close> and \<open>restore_node\<close> of \<open>flowcore/src/store.rs\<close>): the
  inverse of the recorded act is run, and logged as an event of its own.
\<close>

section \<open>Restoring a deleted node\<close>

definition restored_row :: "env \<Rightarrow> json \<Rightarrow> node_row" where
  "restored_row E obj =
     (let kind = str_val obj ''kind'';
          wp = (if kind = ''WORK_PACKAGE''
            then wp_state_str (case json_get obj ''wp_state'' of None \<Rightarrow> None | Some v \<Rightarrow> json_as_str v)
            else None);
          pos = (case json_get obj ''position'' of None \<Rightarrow> None | Some v \<Rightarrow> json_as_i64 v)
      in \<lparr>n_id = str_val obj ''id'', n_project_id = str_val obj ''project_id'',
          n_parent_id = nullif (str_val obj ''parent_id''), n_kind = kind,
          n_title = str_val obj ''title'', n_description = str_val obj ''description'',
          n_condition = str_val obj ''condition'', n_reference = nullif (str_val obj ''reference''),
          n_note = str_val obj ''note'',
          n_declared_status = declared_str_from (str_val obj ''declared_status''),
          n_wp_state = wp, n_position = wrap32 (case pos of None \<Rightarrow> 0 | Some p \<Rightarrow> p),
          n_created_at = clock E, n_updated_at = clock E\<rparr>)"

definition restore_node :: "env \<Rightarrow> json \<Rightarrow> (db, unit) sm" where
  "restore_node E obj = run_stmt (insert_node True E (restored_row E obj))"

section \<open>The inverse of each kind of event\<close>

text \<open>
  Each inverse returns the ids to report, the kind and the summary of the new event, and the
  node that the new event belongs to.
\<close>

definition undo_status_set ::
  "env \<Rightarrow> string \<Rightarrow> string \<Rightarrow> (db, string list \<times> string \<times> string \<times> string) sm" where
  "undo_status_set E payload i =
     (let prior = (case payload_get E payload ''before'' of None \<Rightarrow> ''OPEN'' | Some s \<Rightarrow> s) in
     sm_bind (run_stmt (update_node E i (\<lambda>n. n\<lparr>n_declared_status := prior\<rparr>))) (\<lambda>_.
     sm_bind (read_db (downstream_of i)) (\<lambda>affected.
     sm_return (affected, ''STATUS_SET'', ''undid status set on '' @ i, i))))"

definition payload_edge :: "env \<Rightarrow> string \<Rightarrow> (string \<times> string) res" where
  "payload_edge E payload =
     res_bind (ok_or (from_db_message ''dep payload missing blocker'') (payload_get E payload ''blocker_id''))
       (\<lambda>blocker.
     res_bind (ok_or (from_db_message ''dep payload missing blocked'') (payload_get E payload ''blocked_id''))
       (\<lambda>blocked.
     Inr (blocker, blocked)))"

definition undo_dep_added ::
  "env \<Rightarrow> string \<Rightarrow> string \<Rightarrow> (db, string list \<times> string \<times> string \<times> string) sm" where
  "undo_dep_added E payload i =
     sm_bind (lift_res (payload_edge E payload)) (\<lambda>(blocker, blocked).
     sm_bind (run_stmt (delete_dependency blocker blocked)) (\<lambda>_.
     sm_return ([blocked], ''DEP_REMOVED'', ''undid: '' @ blocker @ '' no longer blocks '' @ blocked, i)))"

definition undo_dep_removed ::
  "env \<Rightarrow> string \<Rightarrow> string \<Rightarrow> (db, string list \<times> string \<times> string \<times> string) sm" where
  "undo_dep_removed E payload i =
     sm_bind (lift_res (payload_edge E payload)) (\<lambda>(blocker, blocked).
     sm_bind (run_stmt (insert_dependency E blocker blocked)) (\<lambda>_.
     sm_return ([blocked], ''DEP_ADDED'', ''undid: '' @ blocker @ '' blocks '' @ blocked, i)))"

definition undo_node_created ::
  "string \<Rightarrow> (db, string list \<times> string \<times> string \<times> string) sm" where
  "undo_node_created i =
     sm_bind (run_stmt (delete_node i)) (\<lambda>_.
     sm_return ([], ''NODE_DELETED'', ''undid creation of '' @ i, ''''))"

definition undo_node_deleted ::
  "env \<Rightarrow> string \<Rightarrow> string \<Rightarrow> (db, string list \<times> string \<times> string \<times> string) sm" where
  "undo_node_deleted E payload i =
     (let missing = from_db_message ''cannot undo delete: payload missing'' in
     sm_bind (lift_res (ok_or missing (json_parse E payload))) (\<lambda>prior.
     sm_bind (lift_res (ok_or missing (json_get prior ''before''))) (\<lambda>obj.
     sm_bind (restore_node E obj) (\<lambda>_.
     sm_bind (read_db (downstream_of i)) (\<lambda>affected.
     sm_return (affected, ''NODE_CREATED'', ''undid deletion of '' @ i, i))))))"

definition undo_inverse ::
  "env \<Rightarrow> int \<Rightarrow> string \<Rightarrow> string \<Rightarrow> (db, string list \<times> string \<times> string \<times> string) sm" where
  "undo_inverse E kind payload i =
     (if kind = event_kind_i32 EventKind_StatusSet then undo_status_set E payload i
      else if kind = event_kind_i32 EventKind_DepAdded then undo_dep_added E payload i
      else if kind = event_kind_i32 EventKind_DepRemoved then undo_dep_removed E payload i
      else if kind = event_kind_i32 EventKind_NodeCreated then undo_node_created i
      else if kind = event_kind_i32 EventKind_NodeDeleted then undo_node_deleted E payload i
      else sm_throw (from_db_message (''cannot undo event kind '' @ int_str kind)))"

section \<open>Undo\<close>

text \<open>The event to undo: the one with the given number, or the latest of the project.\<close>

definition undo_target :: "undo_request \<Rightarrow> db \<Rightarrow> pb_event option res" where
  "undo_target req d =
     (let own = filter (\<lambda>e. e_project_id e = ud_project_id req) (events d) in
      transpose_res (\<lambda>e. proto_event (event_cells e))
        (if ud_seq req > 0 then find (\<lambda>e. e_seq e = ud_seq req) own
         else (case rev (sort_key e_seq own) of [] \<Rightarrow> None | e # es \<Rightarrow> Some e)))"

definition undo_tx :: "env \<Rightarrow> undo_request \<Rightarrow> pb_event \<Rightarrow> (db, pb_event \<times> string list) sm" where
  "undo_tx E req event =
     sm_bind (undo_inverse E (ev_kind event) (ev_payload_json event) (ev_node_id event))
       (\<lambda>(affected, kind, summary, inverse_node).
     sm_bind (append_event E (ev_project_id event) inverse_node kind (author_of (ud_meta req))
       summary ''{}'') (\<lambda>inverse.
     sm_bind (record_idempotency E (ev_project_id event) (idem_key (ud_meta req)) (ev_seq inverse)) (\<lambda>_.
     sm_return (inverse, affected))))"

definition undo_locked :: "env \<Rightarrow> undo_request \<Rightarrow> (db, mutation) sm" where
  "undo_locked E req =
     sm_bind (read_db (\<lambda>d. res_bind (undo_target req d) (ok_or (from_db_message ''no event to undo'')))) (\<lambda>event.
     (let pid = ev_project_id event in
     sm_bind (read_db (check_idempotency pid (idem_key (ud_meta req)))) (\<lambda>hit. case hit of
       Some seq \<Rightarrow> sm_return (empty_mutation seq)
     | None \<Rightarrow>
         sm_bind (in_tx E (undo_tx E req event)) (\<lambda>(inverse, affected).
         read_db (finish_mutation pid [inverse] affected)))))"

section \<open>Safety\<close>

lemma safe_undo_inverse [safe_rules]: "safe_body (undo_inverse E kind payload i)"
  unfolding undo_inverse_def undo_status_set_def undo_dep_added_def undo_dep_removed_def
    undo_node_created_def undo_node_deleted_def restore_node_def Let_def
  by (intro safe_rules stmt_pres keeps_id_simps keeps_place_simps)

lemma safe_undo_tx [safe_rules]: "safe_body (undo_tx E req event)"
  unfolding undo_tx_def by (intro safe_rules)

lemma undo_safe [safe_rules]: "safe_op (undo_locked E req)"
  unfolding undo_locked_def Let_def by (intro safe_rules)

end
