(* ===== verification/Store_Move.thy ===== *)
theory Store_Move
  imports Store_Nodes
begin

text \<open>
  Moving a node to another parent and between the kinds TASK and STEP (\<open>move_node_locked\<close> of
  \<open>flowcore/src/store.rs\<close>). Demoting a task to a step deletes its steps first.
\<close>

section \<open>Guards and payload\<close>

definition move_guard :: "move_node_request \<Rightarrow> int \<Rightarrow> unit res" where
  "move_guard req old_kind =
     (let new_kind = mv_kind req; wp = node_kind_i32 NodeKind_WorkPackage in
      if new_kind = node_kind_i32 NodeKind_Unspecified
        then Inl (from_db_message ''move requires a target kind'')
      else if old_kind = wp \<or> new_kind = wp
        then Inl (from_db_message ''move cannot promote or demote a work package'')
      else if mv_parent_id req = mv_node_id req
        then Inl (from_db_message ''a node cannot be its own parent'')
      else Inr ())"

definition place_json :: "int \<Rightarrow> string \<Rightarrow> json" where
  "place_json kind parent = JObj [(''kind'', JStr (kind_str kind)), (''parent_id'', JStr parent)]"

definition move_payload :: "int \<Rightarrow> string \<Rightarrow> int \<Rightarrow> string \<Rightarrow> json" where
  "move_payload old_kind old_parent new_kind new_parent =
     JObj [(''after'', place_json new_kind new_parent), (''before'', place_json old_kind old_parent)]"

section \<open>The transaction\<close>

text \<open>One step child of a demoted task: its dependents, and the event of its deletion.\<close>

definition drop_child :: "env \<Rightarrow> string \<Rightarrow> string \<Rightarrow> string \<Rightarrow> (db, string list \<times> pb_event) sm" where
  "drop_child E pid author cid =
     sm_bind (read_db (\<lambda>d. query_strings (blocked_rows cid d))) (\<lambda>deps.
     sm_bind (run_stmt (delete_node cid)) (\<lambda>_.
     sm_bind (delete_event E pid author cid) (\<lambda>e.
     sm_return (deps, e))))"

definition child_rows :: "string \<Rightarrow> db \<Rightarrow> row list" where
  "child_rows i d = map (\<lambda>n. [(''id'', VText (n_id n))]) (filter (\<lambda>n. n_parent_id n = Some i) (nodes d))"

definition drop_children ::
  "env \<Rightarrow> move_node_request \<Rightarrow> string \<Rightarrow> int \<Rightarrow> (db, (string list \<times> pb_event) list) sm" where
  "drop_children E req pid old_kind =
     (if old_kind = node_kind_i32 NodeKind_Task \<and> mv_kind req = node_kind_i32 NodeKind_Step
      then sm_bind (read_db (\<lambda>d. query_strings (child_rows (mv_node_id req) d)))
        (sm_each (drop_child E pid (author_of (mv_meta req))))
      else sm_return [])"

text \<open>\<open>SELECT COALESCE(MAX(position), 0) + 100 FROM nodes WHERE parent_id = ?1\<close>.\<close>

definition next_position :: "string \<Rightarrow> db \<Rightarrow> int res" where
  "next_position parent d =
     (let ps = map n_position (filter (\<lambda>n. n_parent_id n = Some parent) (nodes d)) in
      get_i64_at [('''', VInt ((if ps = [] then 0 else Max (set ps)) + 100))] 0)"

definition move_node_tx ::
  "env \<Rightarrow> move_node_request \<Rightarrow> string \<Rightarrow> int \<Rightarrow> string \<Rightarrow> (db, pb_event list \<times> string list) sm" where
  "move_node_tx E req pid old_kind old_parent =
     (let author = author_of (mv_meta req); i = mv_node_id req; new_kind = mv_kind req in
     sm_bind (drop_children E req pid old_kind) (\<lambda>dropped.
     sm_bind (if old_kind \<noteq> new_kind then run_stmt (delete_verification i) else sm_return ()) (\<lambda>_.
     sm_bind (read_db (next_position (mv_parent_id req))) (\<lambda>new_pos.
     sm_bind (run_stmt (update_node_place E i (nullif (mv_parent_id req)) (kind_str new_kind)
       (wrap32 new_pos))) (\<lambda>_.
     sm_bind (append_event E pid i ''NODE_UPDATED'' author (''moved '' @ i)
       (json_text E (move_payload old_kind old_parent new_kind (mv_parent_id req)))) (\<lambda>e.
     (let evs = map snd dropped @ [e]; affected = i # concat (map fst dropped) in
     sm_bind (record_idempotency E pid (idem_key (mv_meta req)) (last_event_seq evs)) (\<lambda>_.
     sm_return (evs, affected)))))))))"

section \<open>MoveNode\<close>

definition move_node_locked :: "env \<Rightarrow> move_node_request \<Rightarrow> (db, mutation) sm" where
  "move_node_locked E req =
     sm_bind (read_db (require_node (mv_node_id req))) (\<lambda>current.
     (let pid = nd_project_id current in
     sm_bind (read_db (check_idempotency pid (idem_key (mv_meta req)))) (\<lambda>hit. case hit of
       Some seq \<Rightarrow> sm_return (empty_mutation seq)
     | None \<Rightarrow>
         sm_bind (read_db (\<lambda>_. move_guard req (nd_kind current))) (\<lambda>_.
         sm_bind (in_tx E (move_node_tx E req pid (nd_kind current) (nd_parent_id current)))
           (\<lambda>(evs, affected). read_db (finish_mutation pid evs affected))))))"

section \<open>Safety\<close>

lemma safe_drop_child [safe_rules]: "safe_body (drop_child E pid author cid)"
  unfolding drop_child_def by (intro safe_rules stmt_pres)

lemma safe_drop_children [safe_rules]: "safe_body (drop_children E req pid k)"
  unfolding drop_children_def by (intro safe_rules)

lemma safe_move_tx [safe_rules]: "safe_body (move_node_tx E req pid k p)"
  unfolding move_node_tx_def Let_def by (intro safe_rules stmt_pres)

lemma move_node_safe [safe_rules]: "safe_op (move_node_locked E req)"
  unfolding move_node_locked_def Let_def by (intro safe_rules)

end
