(* ===== verification/Store_Projects.thy ===== *)
theory Store_Projects
  imports Store_Nodes
begin

text \<open>
  Creating, updating and archiving projects (\<open>flowcore/src/store.rs\<close>). These writes log no
  event; only the creation uses the idempotency ledger, under the reserved empty scope.
\<close>

section \<open>CreateProject\<close>

definition require_project :: "string \<Rightarrow> string \<Rightarrow> db \<Rightarrow> pb_project res" where
  "require_project message i d = res_bind (fetch_project i d) (ok_or (from_db_message message))"

definition create_project_tx :: "env \<Rightarrow> create_project_request \<Rightarrow> (db, string) sm" where
  "create_project_tx E req =
     sm_bind (lift_res (new_id E ''prj'')) (\<lambda>i.
     sm_bind (run_stmt (insert_project E i (cp_name req) (cp_description req))) (\<lambda>_.
     sm_bind (record_idempotency_created E '''' (idem_key (cp_meta req)) 0 i) (\<lambda>_.
     sm_return i)))"

definition create_project_fresh :: "env \<Rightarrow> create_project_request \<Rightarrow> (db, pb_project) sm" where
  "create_project_fresh E req =
     sm_bind (in_tx E (create_project_tx E req)) (\<lambda>i.
     read_db (require_project ''created project not found'' i))"

definition create_project_locked :: "env \<Rightarrow> create_project_request \<Rightarrow> (db, pb_project) sm" where
  "create_project_locked E req =
     sm_bind (read_db (check_idempotency_created '''' (idem_key (cp_meta req)))) (\<lambda>hit. case hit of
       Some h \<Rightarrow> (case hit_entity_id h of
           Some pid \<Rightarrow> sm_bind (read_db (fetch_project pid)) (\<lambda>found. case found of
               Some p \<Rightarrow> sm_return p
             | None \<Rightarrow> create_project_fresh E req)
         | None \<Rightarrow> create_project_fresh E req)
     | None \<Rightarrow> create_project_fresh E req)"

section \<open>UpdateProject and ArchiveProject\<close>

definition update_project_field :: "update_project_request \<Rightarrow> string \<Rightarrow> (db, unit) sm" where
  "update_project_field req f =
     (if f = ''name'' then run_stmt (update_project (up_project_id req) (\<lambda>p. p\<lparr>p_name := up_name req\<rparr>))
      else if f = ''description''
        then run_stmt (update_project (up_project_id req) (\<lambda>p. p\<lparr>p_description := up_description req\<rparr>))
      else sm_throw (from_db_message (''unknown update_mask field: '' @ f)))"

definition update_project_tx :: "env \<Rightarrow> update_project_request \<Rightarrow> (db, unit) sm" where
  "update_project_tx E req =
     sm_bind (sm_each (update_project_field req) (up_update_mask req)) (\<lambda>_.
     run_stmt (update_project (up_project_id req) (\<lambda>p. p\<lparr>p_updated_at := clock E\<rparr>)))"

definition update_project_locked :: "env \<Rightarrow> update_project_request \<Rightarrow> (db, pb_project) sm" where
  "update_project_locked E req =
     sm_bind (read_db (fetch_project (up_project_id req))) (\<lambda>found.
     if found = None then sm_throw (from_db_message ''project not found'')
     else if up_update_mask req = [] then sm_throw (from_db_message ''update_mask cannot be empty'')
     else sm_bind (in_tx E (update_project_tx E req)) (\<lambda>_.
       read_db (require_project ''project not found'' (up_project_id req))))"

definition archive_project_tx :: "env \<Rightarrow> archive_project_request \<Rightarrow> (db, unit) sm" where
  "archive_project_tx E req =
     (if ap_archived req
      then run_stmt (update_project (ap_project_id req)
        (\<lambda>p. p\<lparr>p_archived_at := Some (clock E), p_updated_at := clock E\<rparr>))
      else run_stmt (update_project (ap_project_id req)
        (\<lambda>p. p\<lparr>p_archived_at := None, p_updated_at := clock E\<rparr>)))"

definition archive_project_locked :: "env \<Rightarrow> archive_project_request \<Rightarrow> (db, pb_project) sm" where
  "archive_project_locked E req =
     sm_bind (read_db (fetch_project (ap_project_id req))) (\<lambda>found.
     if found = None then sm_throw (from_db_message ''project not found'')
     else sm_bind (in_tx E (archive_project_tx E req)) (\<lambda>_.
       read_db (require_project ''project not found'' (ap_project_id req))))"

section \<open>Safety\<close>

text \<open>Projects are never lost, so the row read back after the commit is there.\<close>

definition projects_le :: "db \<Rightarrow> db \<Rightarrow> bool" where
  "projects_le d d' \<longleftrightarrow> project_ids d \<subseteq> project_ids d'"

interpretation kept: session_order projects_le
  by unfold_locales (auto simp: projects_le_def)

lemma find_project_None: "find_project d i = None \<longleftrightarrow> i \<notin> project_ids d"
  by (simp add: find_project_def project_ids_def find_None_iff_key)

lemma find_project_ids: "i \<in> project_ids d \<Longrightarrow> \<exists>p. find_project d i = Some p"
  using find_project_None [of d i] by auto

lemma require_project_ok [row_simps]:
  "require_project m i d = (case find_project d i of
     None \<Rightarrow> Inl (from_db_message m) | Some p \<Rightarrow> Inr (project_msg p))"
  by (cases "find_project d i") (simp_all add: require_project_def row_simps)

lemma update_project_le:
  assumes "\<And>p. p_id (f p) = p_id p"
  shows "stmt_moves projects_le (update_project i f)"
proof (rule stmt_movesI)
  fix d x d'
  assume "update_project i f d = Inr (x, d')"
  then have "map p_id (projects d') = map p_id (projects d)"
    using assms by (auto simp: update_project_def)
  then show "projects_le d d'"
    using arg_cong [of _ _ set] by (simp only: projects_le_def project_ids_def set_map [symmetric])
qed

lemma safe_update_project [safe_rules]:
  "(\<And>p. p_id (f p) = p_id p) \<Longrightarrow> safe_body (run_stmt (update_project i f))"
  by (intro safe_rules stmt_pres)

lemma safe_project_txs [safe_rules]:
  "safe_body (update_project_tx E req)" "safe_body (archive_project_tx E req')"
  "safe_body (create_project_tx E req'')"
  unfolding update_project_tx_def update_project_field_def archive_project_tx_def create_project_tx_def
  by (intro safe_rules stmt_pres; simp)+

lemma update_tx_le: "sm_moves projects_le (update_project_tx E req)"
  unfolding update_project_tx_def update_project_field_def
  by (intro kept.moves_bind kept.moves_each kept.moves_if kept.moves_run kept.moves_throw
      update_project_le; simp)

lemma archive_tx_le: "sm_moves projects_le (archive_project_tx E req)"
  unfolding archive_project_tx_def
  by (intro kept.moves_if kept.moves_run update_project_le; simp)

text \<open>A transaction on a project that exists, and the read of its row.\<close>

lemma safe_project_tx:
  assumes body: "safe_body f" and le: "sm_moves projects_le f"
  shows "safe_op (sm_bind (read_db (fetch_project i)) (\<lambda>found. if found = None then sm_throw e
    else if b then sm_throw e' else sm_bind (in_tx E f) (\<lambda>_. read_db (require_project m i))))"
    (is "safe_op (sm_bind _ ?rest)")
proof -
  let ?op = "sm_bind (in_tx E f) (\<lambda>_. read_db (require_project m i))"
  have reads: "reads_only (read_db (require_project m i))" by (rule sm_rules)
  have keeps: "sm_keeps db_inv ?op" "sm_moves ledger_le ?op" "sm_moves log_grows ?op"
    using body
    by (auto simp: safe_body_def intro!: sm_keeps_bind sm_keeps_tx sm_keeps_reads [OF reads]
        ledger.moves_bind ledger.moves_tx ledger.moves_reads [OF reads]
        evlog.moves_bind evlog.moves_tx evlog.moves_reads [OF reads])
  have "durable_db c' = durable_db c"
    if inv: "conn_inv db_inv c" and run: "sm_bind (read_db (fetch_project i)) ?rest c = (Inl x, c')" for c x c'
  proof -
    consider "c' = c" | "find_project (live c) i \<noteq> None" "?op c = (Inl x, c')"
      using run by (auto simp: sm_bind_read row_simps sm_throw_def split: if_splits)
    then show ?thesis
    proof cases
      case 1
      then show ?thesis by simp
    next
      case 2
      show ?thesis
      proof (rule tx_error_durable [OF inv _ _ _ 2(2)])
        show "keeps_mark f" "sm_keeps db_inv f" using body by (simp_all add: safe_body_def)
        fix y :: 'a and d
        assume "f (within (live c) (live c)) = (Inr y, within (live c) d)"
        then have "projects_le (live c) d" using sm_movesD [OF le] by fastforce
        moreover have "i \<in> project_ids (live c)" using 2(1) find_project_None [of "live c" i] by auto
        ultimately have "i \<in> project_ids d" by (auto simp: projects_le_def)
        then obtain p where "find_project d i = Some p" using find_project_ids by blast
        then show "\<exists>z c'. read_db (require_project m i) (idle d) = (Inr z, c')"
          by (simp add: read_db_def row_simps)
      qed
    qed
  qed
  then have "atomic_on db_inv (sm_bind (read_db (fetch_project i)) ?rest)"
    unfolding atomic_on_def by blast
  then show ?thesis
    using keeps unfolding safe_op_def
    by (auto intro!: sm_keeps_bind sm_keeps_if sm_keeps_read sm_keeps_throw
        ledger.moves_bind ledger.moves_if ledger.moves_read ledger.moves_throw
        evlog.moves_bind evlog.moves_if evlog.moves_read evlog.moves_throw)
qed

lemma update_project_safe [safe_rules]: "safe_op (update_project_locked E req)"
  unfolding update_project_locked_def
  by (rule safe_project_tx) (rule safe_project_txs update_tx_le)+

lemma archive_project_safe [safe_rules]: "safe_op (archive_project_locked E req)"
proof -
  have "safe_op (sm_bind (read_db (fetch_project (ap_project_id req))) (\<lambda>found.
      if found = None then sm_throw (from_db_message ''project not found'')
      else if False then sm_throw (from_db_message [])
      else sm_bind (in_tx E (archive_project_tx E req)) (\<lambda>_.
        read_db (require_project ''project not found'' (ap_project_id req)))))"
    by (rule safe_project_tx) (rule safe_project_txs archive_tx_le)+
  then show ?thesis unfolding archive_project_locked_def if_False .
qed

text \<open>The row that \<open>CreateProject\<close> reads back is the one it has inserted.\<close>

lemma run_insert_ledger: "run_stmt (insert_ledger E s k q e) c = (r, c') \<Longrightarrow>
    projects (live c') = projects (live c)"
  by (auto simp: run_stmt_def insert_ledger_def split: if_splits)

lemma record_created_projects:
  "record_idempotency_created E s k q e c = (r, c') \<Longrightarrow> projects (live c') = projects (live c)"
  by (cases k) (auto simp: record_idempotency_created_def sm_return_def dest: run_insert_ledger)

lemma create_project_tx_id:
  assumes "create_project_tx E req c = (Inr i, c')"
  shows "i \<in> project_ids (live c')"
  using assms unfolding create_project_tx_def
  by (auto simp: sm_bind_lift row_simps project_ids_def insert_project_def sm_return_def run_stmt_def
      dest!: record_created_projects elim!: sm_bind_InrE split: if_splits)

lemma create_fresh_safe [safe_rules]: "safe_op (create_project_fresh E req)"
proof -
  have reads: "reads_only (read_db (require_project m i))" for m i by (rule sm_rules)
  note body = safe_project_txs(3) [of E req, unfolded safe_body_def]
  have "durable_db c' = durable_db c"
    if inv: "conn_inv db_inv c" and run: "create_project_fresh E req c = (Inl x, c')" for c x c'
  proof (rule tx_error_durable [OF inv _ _ _ run [unfolded create_project_fresh_def]])
    show "keeps_mark (create_project_tx E req)" "sm_keeps db_inv (create_project_tx E req)"
      using body by simp_all
    fix i d
    assume "create_project_tx E req (within (live c) (live c)) = (Inr i, within (live c) d)"
    then have "i \<in> project_ids d" using create_project_tx_id by fastforce
    then obtain p where "find_project d i = Some p" using find_project_ids by blast
    then show "\<exists>z c'. read_db (require_project ''created project not found'' i) (idle d) = (Inr z, c')"
      by (simp add: read_db_def row_simps)
  qed
  then show ?thesis
    using body unfolding safe_op_def atomic_on_def create_project_fresh_def
    by (auto intro!: sm_keeps_bind sm_keeps_tx sm_keeps_reads [OF reads]
        ledger.moves_bind ledger.moves_tx ledger.moves_reads [OF reads]
        evlog.moves_bind evlog.moves_tx evlog.moves_reads [OF reads])
qed

lemma create_project_safe [safe_rules]: "safe_op (create_project_locked E req)"
  unfolding create_project_locked_def by (intro safe_rules)

end
