(* ===== verification/Store_Dispatch.thy ===== *)
theory Store_Dispatch
  imports Store_Reads Store_Graph Store_Review Store_Undo Store_Move Store_Projects
begin

text \<open>
  \<open>SqliteStore::dispatch\<close> (\<open>flowcore/src/store.rs\<close>), the one entry point of every host: a method
  name and an encoded request in, an encoded response or a domain error out. The wire format
  belongs to the \<open>prost\<close> crate: decoders and encoders are a parameter. The states the program
  can be in are those that sequences of calls reach; every call is safe in all of them.
\<close>

section \<open>The wire format\<close>

type_synonym bytes = "8 word list"

record codec =
  dec_list_projects :: "bytes \<Rightarrow> string + list_projects_request"
  dec_get_snapshot :: "bytes \<Rightarrow> string + get_snapshot_request"
  dec_list_events :: "bytes \<Rightarrow> string + list_events_request"
  dec_search :: "bytes \<Rightarrow> string + search_request"
  dec_poll_changes :: "bytes \<Rightarrow> string + poll_changes_request"
  dec_create_node :: "bytes \<Rightarrow> string + create_node_request"
  dec_update_node :: "bytes \<Rightarrow> string + update_node_request"
  dec_delete_node :: "bytes \<Rightarrow> string + delete_node_request"
  dec_set_status :: "bytes \<Rightarrow> string + set_status_request"
  dec_add_dependency :: "bytes \<Rightarrow> string + add_dependency_request"
  dec_remove_dependency :: "bytes \<Rightarrow> string + remove_dependency_request"
  dec_report_condition :: "bytes \<Rightarrow> string + report_condition_request"
  dec_set_verdict :: "bytes \<Rightarrow> string + set_verdict_request"
  dec_add_comment :: "bytes \<Rightarrow> string + add_comment_request"
  dec_undo :: "bytes \<Rightarrow> string + undo_request"
  dec_move_node :: "bytes \<Rightarrow> string + move_node_request"
  dec_create_project :: "bytes \<Rightarrow> string + create_project_request"
  dec_update_project :: "bytes \<Rightarrow> string + update_project_request"
  dec_archive_project :: "bytes \<Rightarrow> string + archive_project_request"
  enc_list_projects :: "list_projects_response \<Rightarrow> bytes"
  enc_get_snapshot :: "get_snapshot_response \<Rightarrow> bytes"
  enc_list_events :: "list_events_response \<Rightarrow> bytes"
  enc_search :: "search_response \<Rightarrow> bytes"
  enc_poll_changes :: "poll_changes_response \<Rightarrow> bytes"
  enc_create_node :: "create_node_response \<Rightarrow> bytes"
  enc_update_node :: "update_node_response \<Rightarrow> bytes"
  enc_delete_node :: "delete_node_response \<Rightarrow> bytes"
  enc_set_status :: "set_status_response \<Rightarrow> bytes"
  enc_add_dependency :: "add_dependency_response \<Rightarrow> bytes"
  enc_remove_dependency :: "remove_dependency_response \<Rightarrow> bytes"
  enc_report_condition :: "report_condition_response \<Rightarrow> bytes"
  enc_set_verdict :: "set_verdict_response \<Rightarrow> bytes"
  enc_add_comment :: "add_comment_response \<Rightarrow> bytes"
  enc_undo :: "undo_response \<Rightarrow> bytes"
  enc_move_node :: "move_node_response \<Rightarrow> bytes"
  enc_create_project :: "create_project_response \<Rightarrow> bytes"
  enc_update_project :: "update_project_response \<Rightarrow> bytes"
  enc_archive_project :: "archive_project_response \<Rightarrow> bytes"

definition decode :: "(bytes \<Rightarrow> string + 'r) \<Rightarrow> bytes \<Rightarrow> 'r res" where
  "decode dec bs = (case dec bs of
     Inl e \<Rightarrow> Inl (invalid_argument (''bad request: '' @ e)) | Inr r \<Rightarrow> Inr r)"

section \<open>Dispatch\<close>

text \<open>\<open>answer\<close> decodes, runs the operation and encodes what it returns.\<close>

definition answer ::
  "(bytes \<Rightarrow> string + 'r) \<Rightarrow> ('r \<Rightarrow> (db, 'a) sm) \<Rightarrow> ('a \<Rightarrow> bytes) \<Rightarrow> bytes \<Rightarrow> (db, bytes) sm" where
  "answer dec run enc req = sm_bind (lift_res (decode dec req)) (\<lambda>r. sm_bind (run r) (\<lambda>x. sm_return (enc x)))"

definition dispatch ::
  "codec \<Rightarrow> (string \<Rightarrow> db \<Rightarrow> string list res) \<Rightarrow> env \<Rightarrow> string \<Rightarrow> bytes \<Rightarrow> (db, bytes) sm" where
  "dispatch C fts E m req = (
     if m = ''ListProjects'' then answer (dec_list_projects C)
       (\<lambda>r. read_db (list_projects_locked (lp_include_archived r)))
       (\<lambda>ps. enc_list_projects C \<lparr>lpr_projects = ps\<rparr>) req
     else if m = ''GetSnapshot'' then answer (dec_get_snapshot C)
       (\<lambda>r. read_db (get_snapshot_locked (gs_project_id r))) (enc_get_snapshot C) req
     else if m = ''ListEvents'' then answer (dec_list_events C)
       (\<lambda>r. read_db (list_events_locked (le_project_id r) (le_node_id r) (le_before_seq r) (le_limit r)))
       (\<lambda>(evs, more). enc_list_events C \<lparr>ler_events = evs, ler_has_more = more\<rparr>) req
     else if m = ''Search'' then answer (dec_search C)
       (\<lambda>r. read_db (search_locked fts (sr_project_id r) (sr_query r) (sr_limit r)))
       (\<lambda>ns. enc_search C \<lparr>srr_nodes = ns\<rparr>) req
     else if m = ''PollChanges'' then answer (dec_poll_changes C)
       (\<lambda>r. read_db (poll_changes_locked (pc_project_id r) (pc_after_seq r) (pc_limit r)))
       (enc_poll_changes C) req
     else if m = ''CreateNode'' then answer (dec_create_node C) (create_node_locked E)
       (\<lambda>x. enc_create_node C \<lparr>cnr_mutation = Some x\<rparr>) req
     else if m = ''UpdateNode'' then answer (dec_update_node C) (update_node_locked E)
       (\<lambda>x. enc_update_node C \<lparr>unr_mutation = Some x\<rparr>) req
     else if m = ''DeleteNode'' then answer (dec_delete_node C) (delete_node_locked E)
       (\<lambda>x. enc_delete_node C \<lparr>dnr_mutation = Some x\<rparr>) req
     else if m = ''SetStatus'' then answer (dec_set_status C) (set_status_locked E)
       (\<lambda>x. enc_set_status C \<lparr>ssr_mutation = Some x\<rparr>) req
     else if m = ''AddDependency'' then answer (dec_add_dependency C) (add_dependency_locked E)
       (\<lambda>x. enc_add_dependency C \<lparr>adr_mutation = Some x\<rparr>) req
     else if m = ''RemoveDependency'' then answer (dec_remove_dependency C) (remove_dependency_locked E)
       (\<lambda>x. enc_remove_dependency C \<lparr>rdr_mutation = Some x\<rparr>) req
     else if m = ''ReportCondition'' then answer (dec_report_condition C) (report_condition_locked E)
       (\<lambda>x. enc_report_condition C \<lparr>rcr_mutation = Some x\<rparr>) req
     else if m = ''SetVerdict'' then answer (dec_set_verdict C) (set_verdict_locked E)
       (\<lambda>x. enc_set_verdict C \<lparr>svr_mutation = Some x\<rparr>) req
     else if m = ''AddComment'' then answer (dec_add_comment C) (add_comment_locked E)
       (\<lambda>x. enc_add_comment C \<lparr>acr_mutation = Some x\<rparr>) req
     else if m = ''Undo'' then answer (dec_undo C) (undo_locked E)
       (\<lambda>x. enc_undo C \<lparr>udr_mutation = Some x\<rparr>) req
     else if m = ''MoveNode'' then answer (dec_move_node C) (move_node_locked E)
       (\<lambda>x. enc_move_node C \<lparr>mvr_mutation = Some x\<rparr>) req
     else if m = ''CreateProject'' then answer (dec_create_project C) (create_project_locked E)
       (\<lambda>x. enc_create_project C \<lparr>cpr_project = Some x\<rparr>) req
     else if m = ''UpdateProject'' then answer (dec_update_project C) (update_project_locked E)
       (\<lambda>x. enc_update_project C \<lparr>upr_project = Some x\<rparr>) req
     else if m = ''ArchiveProject'' then answer (dec_archive_project C) (archive_project_locked E)
       (\<lambda>x. enc_archive_project C \<lparr>apr_project = Some x\<rparr>) req
     else sm_throw (not_found (''unknown method: '' @ m)))"

section \<open>Every call is safe\<close>

lemma safe_op_map:
  assumes "safe_op m"
  shows "safe_op (sm_bind m (\<lambda>x. sm_return (f x)))"
proof -
  have "snd (sm_bind m (\<lambda>x. sm_return (f x)) c) = snd (m c) \<and>
      (\<forall>e. fst (sm_bind m (\<lambda>x. sm_return (f x)) c) = Inl e \<longrightarrow> fst (m c) = Inl e)" for c
    by (cases "m c") (auto simp: sm_bind_def sm_return_def split: sum.split)
  then show ?thesis using assms
    unfolding safe_op_def sm_keeps_def sm_moves_def atomic_on_def
    by (metis fst_conv prod.collapse snd_conv)
qed

lemma safe_answer: "(\<And>r. safe_op (run r)) \<Longrightarrow> safe_op (answer dec run enc req)"
  unfolding answer_def by (intro safe_op_reads_bind safe_op_map) (simp add: sm_rules)

lemma dispatch_safe: "safe_op (dispatch C fts E m req)"
  unfolding dispatch_def by (intro safe_op_if safe_answer safe_rules)

section \<open>Reachable sessions\<close>

text \<open>A session starts on the migrated, empty database and serves any sequence of calls.\<close>

inductive reachable :: "db conn \<Rightarrow> bool" where
  start: "reachable (idle empty_db)"
| call: "reachable c \<Longrightarrow> dispatch C fts E m req c = (r, c') \<Longrightarrow> reachable c'"

lemma reachable_inv: "reachable c \<Longrightarrow> conn_inv db_inv c"
proof (induction rule: reachable.induct)
  case start
  then show ?case by (simp add: db_inv_empty)
next
  case (call c C fts E m req r c')
  then show ?case using dispatch_safe [of C fts E m req] sm_keepsD by (fastforce simp: safe_op_def)
qed

text \<open>Sequences of calls between two sessions.\<close>

inductive calls :: "db conn \<Rightarrow> db conn \<Rightarrow> bool" where
  none: "calls c c"
| more: "calls c c1 \<Longrightarrow> dispatch C fts E m req c1 = (r, c') \<Longrightarrow> calls c c'"

lemma calls_ledger: "calls c c' \<Longrightarrow> ledger_le (live c) (live c')"
proof (induction rule: calls.induct)
  case (none c)
  then show ?case by (rule ledger.refl)
next
  case (more c c1 C fts E m req r c')
  then show ?case
    using dispatch_safe [of C fts E m req] sm_movesD [of ledger_le] ledger.trans
    by (fastforce simp: safe_op_def)
qed

lemma calls_log: "calls c c' \<Longrightarrow> log_grows (live c) (live c')"
proof (induction rule: calls.induct)
  case (none c)
  then show ?case by (rule evlog.refl)
next
  case (more c c1 C fts E m req r c')
  then show ?case
    using dispatch_safe [of C fts E m req] sm_movesD [of log_grows] evlog.trans
    by (fastforce simp: safe_op_def)
qed

lemma calls_reachable: "calls c c' \<Longrightarrow> reachable c \<Longrightarrow> reachable c'"
  by (induction rule: calls.induct) (auto intro: reachable.call)

end
