(* ===== verification/Json_Code.thy ===== *)
theory Json_Code
  imports Sql_Seam
begin

text \<open>
  A concrete text format for JSON values that satisfies the hypothesis \<open>json_codec\<close>, so that the
  hypothesis is known to be satisfiable: a prefix code (numbers in unary, strings escaped
  character by character) whose empty object is written like JSON's.
\<close>

section \<open>Printing\<close>

fun show_str :: "string \<Rightarrow> string" where
  "show_str [] = ''.''"
| "show_str (c # cs) = CHR ''-'' # c # show_str cs"

fun show_json :: "json \<Rightarrow> string"
  and show_items :: "json list \<Rightarrow> string"
  and show_fields :: "(string \<times> json) list \<Rightarrow> string" where
  "show_json JNull = ''n''"
| "show_json (JBool b) = (if b then ''t'' else ''f'')"
| "show_json (JInt i) = CHR ''i'' # (if i < 0 then CHR ''-'' else CHR ''+'') #
     replicate (nat \<bar>i\<bar>) (CHR ''1'') @ ''.''"
| "show_json (JFloat s) = CHR ''d'' # show_str s"
| "show_json (JStr s) = CHR ''s'' # show_str s"
| "show_json (JArr js) = CHR ''['' # show_items js"
| "show_json (JObj kvs) = CHR ''{'' # show_fields kvs"
| "show_items [] = '']''"
| "show_items (j # js) = CHR '','' # show_json j @ show_items js"
| "show_fields [] = ''}''"
| "show_fields (kv # kvs) = CHR '','' # show_str (fst kv) @ show_json (snd kv) @ show_fields kvs"

section \<open>Parsing\<close>

fun read_str :: "string \<Rightarrow> (string \<times> string) option" where
  "read_str [] = None"
| "read_str [c] = (if c = CHR ''.'' then Some ([], []) else None)"
| "read_str (c # x # cs) = (if c = CHR ''.'' then Some ([], x # cs)
     else if c = CHR ''-'' then map_option (\<lambda>(s, r). (x # s, r)) (read_str cs) else None)"

fun read_ones :: "string \<Rightarrow> (nat \<times> string) option" where
  "read_ones [] = None"
| "read_ones (c # cs) = (if c = CHR ''.'' then Some (0, cs)
     else if c = CHR ''1'' then map_option (\<lambda>(n, r). (Suc n, r)) (read_ones cs) else None)"

fun read_value :: "nat \<Rightarrow> string \<Rightarrow> (json \<times> string) option"
  and read_items :: "nat \<Rightarrow> string \<Rightarrow> (json list \<times> string) option"
  and read_fields :: "nat \<Rightarrow> string \<Rightarrow> ((string \<times> json) list \<times> string) option" where
  "read_value 0 s = None"
| "read_value (Suc k) [] = None"
| "read_value (Suc k) (c # cs) = (
     if c = CHR ''n'' then Some (JNull, cs)
     else if c = CHR ''t'' then Some (JBool True, cs)
     else if c = CHR ''f'' then Some (JBool False, cs)
     else if c = CHR ''i'' then (case cs of [] \<Rightarrow> None
       | g # ds \<Rightarrow> map_option (\<lambda>(n, r). (JInt (if g = CHR ''-'' then - int n else int n), r)) (read_ones ds))
     else if c = CHR ''d'' then map_option (\<lambda>(s, r). (JFloat s, r)) (read_str cs)
     else if c = CHR ''s'' then map_option (\<lambda>(s, r). (JStr s, r)) (read_str cs)
     else if c = CHR ''['' then map_option (\<lambda>(js, r). (JArr js, r)) (read_items k cs)
     else if c = CHR ''{'' then map_option (\<lambda>(kvs, r). (JObj kvs, r)) (read_fields k cs)
     else None)"
| "read_items 0 s = None"
| "read_items (Suc k) [] = None"
| "read_items (Suc k) (c # cs) = (if c = CHR '']'' then Some ([], cs)
     else case read_value k cs of None \<Rightarrow> None
       | Some (j, r) \<Rightarrow> map_option (\<lambda>(js, r'). (j # js, r')) (read_items k r))"
| "read_fields 0 s = None"
| "read_fields (Suc k) [] = None"
| "read_fields (Suc k) (c # cs) = (if c = CHR ''}'' then Some ([], cs)
     else case read_str cs of None \<Rightarrow> None
       | Some (n, r) \<Rightarrow> (case read_value k r of None \<Rightarrow> None
           | Some (j, r') \<Rightarrow> map_option (\<lambda>(kvs, r''). ((n, j) # kvs, r'')) (read_fields k r')))"

definition read_json :: "string \<Rightarrow> json option" where
  "read_json s = (case read_value (length s) s of
     Some (j, []) \<Rightarrow> Some j | _ \<Rightarrow> None)"

section \<open>Parsing inverts printing\<close>

lemma read_show_str [simp]: "read_str (show_str s @ r) = Some (s, r)"
proof (induction s)
  case Nil
  then show ?case by (cases r) simp_all
next
  case (Cons c cs)
  then show ?case by simp
qed

lemma read_ones_replicate [simp]: "read_ones (replicate n (CHR ''1'') @ CHR ''.'' # r) = Some (n, r)"
  by (induction n) simp_all

lemma read_show:
  "length (show_json j) \<le> k \<Longrightarrow> read_value k (show_json j @ r) = Some (j, r)"
  "length (show_items js) \<le> k \<Longrightarrow> read_items k (show_items js @ r) = Some (js, r)"
  "length (show_fields kvs) \<le> k \<Longrightarrow> read_fields k (show_fields kvs @ r) = Some (kvs, r)"
proof (induction j and js and kvs arbitrary: k r and k r and k r
    rule: show_json_show_items_show_fields.induct)
  case 1
  then show ?case by (cases k) auto
next
  case (2 b)
  then show ?case by (cases k; cases b) auto
next
  case (3 i)
  then show ?case by (cases k) auto
next
  case (4 s)
  then show ?case by (cases k) auto
next
  case (5 s)
  then show ?case by (cases k) auto
next
  case (6 js)
  then show ?case by (cases k) auto
next
  case (7 kvs)
  then show ?case by (cases k) auto
next
  case 8
  then show ?case by (cases k) auto
next
  case (9 j js)
  then show ?case by (cases k) auto
next
  case 10
  then show ?case by (cases k) auto
next
  case (11 kv kvs)
  then show ?case by (cases k) auto
qed

lemma read_json_show: "read_json (show_json j) = Some j"
  using read_show(1) [of j "length (show_json j)" "[]"] by (simp add: read_json_def)

lemma show_json_empty: "show_json (JObj []) = ''{}''"
  by simp

end
