(* ===== verification/Example.thy ===== *)
theory Example
  imports Store_Dispatch Json_Code
begin

text \<open>
  Concrete environments and a small database on which the properties of the development are
  applied: one project with a work package, two tasks (one of them with a step), a dependency
  between the tasks, an agent's report and three logged events.
\<close>

section \<open>Environments\<close>

definition demo_env :: env where
  "demo_env = \<lparr>clock = 1000, clock_ms = 7, rand_hex = ''0a1b2c3d'',
     engine_msg = (\<lambda>v. ''constraint failed''), commit_error = None,
     json_text = show_json, json_parse = read_json, json_valid = (\<lambda>s. read_json s \<noteq> None)\<rparr>"

definition busy_env :: env where
  "busy_env = demo_env\<lparr>commit_error := Some ''disk I/O error''\<rparr>"

lemma demo_env_sel [simp]:
  "clock demo_env = 1000" "commit_error demo_env = None" "json_text demo_env = show_json"
  "json_parse demo_env = read_json" "rand_hex demo_env = ''0a1b2c3d''" "clock_ms demo_env = 7"
  "engine_msg demo_env = (\<lambda>v. ''constraint failed'')"
  "json_valid demo_env s \<longleftrightarrow> read_json s \<noteq> None"
  by (simp_all add: demo_env_def)

lemma demo_codec: "json_codec demo_env"
  using read_json_show [of "JObj []"] by (simp add: json_codec_def read_json_show)

section \<open>A database\<close>

definition demo_node :: "string \<Rightarrow> string option \<Rightarrow> string \<Rightarrow> string option \<Rightarrow> int \<Rightarrow> node_row" where
  "demo_node i parent kind wp pos = \<lparr>n_id = i, n_project_id = ''p'', n_parent_id = parent, n_kind = kind,
     n_title = i @ '' title'', n_description = '''', n_condition = '''', n_reference = None,
     n_note = '''', n_declared_status = ''OPEN'', n_wp_state = wp, n_position = pos,
     n_created_at = 100, n_updated_at = 100\<rparr>"

definition demo_db :: db where
  "demo_db = \<lparr>
     projects = [\<lparr>p_id = ''p'', p_name = ''demo'', p_description = '''', p_archived_at = None,
       p_created_at = 90, p_updated_at = 90\<rparr>],
     nodes = [demo_node ''w'' None ''WORK_PACKAGE'' (Some ''PLANNED'') 0,
       demo_node ''a'' (Some ''w'') ''TASK'' None 100, demo_node ''b'' (Some ''w'') ''TASK'' None 200,
       demo_node ''s'' (Some ''a'') ''STEP'' None 100],
     verifications = [\<lparr>v_node_id = ''b'', v_agent_result = Some ''PASS'', v_agent_name = Some ''ci'',
       v_agent_at = Some 100, v_agent_node_rev = Some 100, v_agent_detail = ''ok'',
       v_human_verdict = None, v_human_at = None\<rparr>],
     dependencies = [\<lparr>d_blocker_id = ''a'', d_blocked_id = ''b'', d_created_at = 100\<rparr>],
     events = [
       \<lparr>e_seq = 1, e_project_id = ''p'', e_node_id = Some ''a'', e_kind = ''NODE_CREATED'',
        e_author = ''ada'', e_summary = ''created a'', e_payload = ''{}'', e_created_at = 100\<rparr>,
       \<lparr>e_seq = 2, e_project_id = ''p'', e_node_id = Some ''b'', e_kind = ''NODE_CREATED'',
        e_author = ''ada'', e_summary = ''created b'', e_payload = ''{}'', e_created_at = 100\<rparr>,
       \<lparr>e_seq = 4, e_project_id = ''p'', e_node_id = None, e_kind = ''DEP_ADDED'',
        e_author = ''bob'', e_summary = ''a blocks b'', e_payload = ''{}'', e_created_at = 100\<rparr>],
     idempotency = [], last_seq = 4\<rparr>"

lemma demo_keys: "keys_inv demo_db"
  by (simp add: keys_inv_def demo_db_def demo_node_def dep_edges_def)

lemma demo_hierarchy: "hierarchy_inv demo_db"
  by (simp add: hierarchy_inv_def demo_db_def demo_node_def node_ok_def check_node_def kind_ok_def
      declared_ok_def wp_state_ok_def shape_ok_def project_ids_def kind_of_def find_node_def
      parent_kind_for_def)

lemma demo_verifications: "\<forall>v \<in> set (verifications demo_db). verification_ok demo_db v"
  by (simp add: verification_ok_def demo_db_def demo_node_def node_ids_def check_verification_def)

lemma acyclic_edge: "x \<noteq> y \<Longrightarrow> acyclic {(x, y)}"
  using wf_acyclic [OF wf_insert [of x y "{}", THEN iffD2]] by auto

lemma demo_deps: "deps_inv demo_db"
  using acyclic_edge [of "''a''" "''b''"]
  by (simp add: deps_inv_def dep_edges_def demo_db_def demo_node_def node_ids_def)

lemma demo_log: "log_inv demo_db"
  by (simp add: log_inv_def demo_db_def demo_node_def event_ok_def max_seq_def event_kind_ok_def
      node_ids_def project_ids_def)

lemma demo_inv: "db_inv demo_db"
  by (simp add: db_inv_def demo_keys demo_hierarchy demo_verifications demo_deps demo_log)

lemma demo_conn_inv: "conn_inv db_inv (idle demo_db)"
  by (simp add: demo_inv)

section \<open>A wire format\<close>

text \<open>A codec that decodes four fixed requests and refuses every other message.\<close>

definition demo_wire :: codec where
  "demo_wire = \<lparr>
     dec_list_projects = (\<lambda>b. Inr \<lparr>lp_include_archived = True\<rparr>),
     dec_get_snapshot = (\<lambda>b. Inl ''not sent''),
     dec_list_events = (\<lambda>b. Inl ''not sent''),
     dec_search = (\<lambda>b. Inl ''not sent''),
     dec_poll_changes = (\<lambda>b. Inl ''not sent''),
     dec_create_node = (\<lambda>b. Inl ''not sent''),
     dec_update_node = (\<lambda>b. Inl ''not sent''),
     dec_delete_node = (\<lambda>b. Inl ''not sent''),
     dec_set_status = (\<lambda>b. Inr \<lparr>ss_meta = Some \<lparr>wm_author = ''me'', wm_idempotency_key = ''k''\<rparr>, ss_node_id = ''a'', ss_declared_status = 3\<rparr>),
     dec_add_dependency = (\<lambda>b. Inl ''not sent''),
     dec_remove_dependency = (\<lambda>b. Inl ''not sent''),
     dec_report_condition = (\<lambda>b. Inr \<lparr>rc_meta = None, rc_node_id = ''a'', rc_result = 1, rc_detail = ''ok''\<rparr>),
     dec_set_verdict = (\<lambda>b. Inl ''not sent''),
     dec_add_comment = (\<lambda>b. Inl ''not sent''),
     dec_undo = (\<lambda>b. Inl ''not sent''),
     dec_move_node = (\<lambda>b. Inl ''not sent''),
     dec_create_project = (\<lambda>b. Inr \<lparr>cp_meta = None, cp_name = ''one'', cp_description = ''''\<rparr>),
     dec_update_project = (\<lambda>b. Inl ''not sent''),
     dec_archive_project = (\<lambda>b. Inl ''not sent''),
     enc_list_projects = (\<lambda>r. [1]),
     enc_get_snapshot = (\<lambda>r. [1]),
     enc_list_events = (\<lambda>r. [1]),
     enc_search = (\<lambda>r. [1]),
     enc_poll_changes = (\<lambda>r. [1]),
     enc_create_node = (\<lambda>r. [1]),
     enc_update_node = (\<lambda>r. [1]),
     enc_delete_node = (\<lambda>r. [1]),
     enc_set_status = (\<lambda>r. [1]),
     enc_add_dependency = (\<lambda>r. [1]),
     enc_remove_dependency = (\<lambda>r. [1]),
     enc_report_condition = (\<lambda>r. [1]),
     enc_set_verdict = (\<lambda>r. [1]),
     enc_add_comment = (\<lambda>r. [1]),
     enc_undo = (\<lambda>r. [1]),
     enc_move_node = (\<lambda>r. [1]),
     enc_create_project = (\<lambda>r. [1]),
     enc_update_project = (\<lambda>r. [1]),
     enc_archive_project = (\<lambda>r. [1])\<rparr>"

definition no_index :: "string \<Rightarrow> db \<Rightarrow> string list res" where
  "no_index q d = Inl (from_db_message ''fts5: syntax error'')"

end
