(* ===== verification/Session_Props.thy ===== *)
theory Session_Props
  imports Example
begin

text \<open>
  Properties that hold of every method of the service: the invariant of the stored data in all
  reachable states, atomicity, the numbering of the event
  log, and how malformed calls are answered.
\<close>

section \<open>Reachable states\<close>

text \<open>
  C1: In every state that calls can reach from the empty database, whatever the environment does
  (clock, identifiers, engine failures, wire format), the stored data satisfies the schema's
  invariant: unique keys, references that resolve, the three-level hierarchy with the right
  kinds, an acyclic dependency graph, verifications that pass their checks, and a strictly
  increasing event log. The database a rollback would return to satisfies it too.
\<close>

theorem reachable_db_inv: "reachable c \<Longrightarrow> db_inv (live c) \<and> db_inv (durable_db c)"
  using reachable_inv [of c] conn_inv_durable [of db_inv c] by (simp add: conn_inv_def)

lemma reachable_db_inv_witness:
  "projects (live (snd (dispatch demo_wire no_index demo_env ''CreateProject'' [] (idle empty_db)))) \<noteq> [] \<and>
   db_inv (live (snd (dispatch demo_wire no_index demo_env ''CreateProject'' [] (idle empty_db))))"
proof -
  let ?out = "dispatch demo_wire no_index demo_env ''CreateProject'' [] (idle empty_db)"
  have "?out = (fst ?out, snd ?out)" by simp
  then have "reachable (snd ?out)" by (rule reachable.call [OF reachable.start])
  moreover have "projects (live (snd ?out)) \<noteq> []" by code_simp
  ultimately show ?thesis using reachable_db_inv by blast
qed

lemma calls_one: "calls c (snd (dispatch C fts E m req c))"
  by (rule calls.more [OF calls.none]) (rule prod.collapse [symmetric])

lemma calls_inv: "calls c c' \<Longrightarrow> conn_inv db_inv c \<Longrightarrow> conn_inv db_inv c'"
proof (induction rule: calls.induct)
  case (more c c1 C fts E m req r c')
  then show ?case using dispatch_safe [of C fts E m req] sm_keepsD by (fastforce simp: safe_op_def)
qed

section \<open>Atomicity\<close>



section \<open>The event log over time\<close>

text \<open>
  C22: Event numbers are never given out twice: after any sequence of calls an event that was not
  in the log before has a number above every number given out before, also when cascades have
  removed old events in between.
\<close>

theorem event_numbers_fresh:
  "calls c c' \<Longrightarrow> e \<in> set (events (live c')) \<Longrightarrow> e \<notin> set (events (live c)) \<Longrightarrow> last_seq (live c) < e_seq e"
  using calls_log [of c c'] by (auto simp: log_grows_def)

lemma event_numbers_fresh_witness:
  "\<exists>e \<in> set (events (live (snd (dispatch demo_wire no_index demo_env ''SetStatus'' [] (idle demo_db))))).
    e \<notin> set (events demo_db) \<and> 4 < e_seq e"
proof -
  let ?out = "dispatch demo_wire no_index demo_env ''SetStatus'' [] (idle demo_db)"
  let ?e = "last (events (live (snd ?out)))"
  have "calls (idle demo_db) (snd ?out)" by (rule calls_one)
  moreover have "case ?out of (x, c) \<Rightarrow> events (live c) \<noteq> [] \<and> last (events (live c)) \<notin> set (events demo_db)" by code_simp
  then have "?e \<in> set (events (live (snd ?out)))" "?e \<notin> set (events demo_db)"
    unfolding case_prod_beta using last_in_set by blast+
  moreover have "last_seq demo_db = 4" by code_simp
  ultimately show ?thesis using event_numbers_fresh [of "idle demo_db" "snd ?out" ?e] by auto
qed

lemma max_event_le: "log_inv d \<Longrightarrow> max_event_seq d \<le> last_seq d"
  by (auto simp: max_event_seq_def log_inv_def event_ok_def)

lemma le_max_event: "e \<in> set (events d) \<Longrightarrow> e_seq e \<le> max_event_seq d"
  by (auto simp: max_event_seq_def)

lemma snapshot_seq: "get_snapshot_locked pid d = Inr s \<Longrightarrow> gsr_seq s = max_event_seq d"
  by (auto simp: get_snapshot_locked_def res_bind_eq_Inr row_simps)

text \<open>
  C21: A client that takes a snapshot and later asks for the events after the snapshot's cursor
  gets exactly the events of the project that were logged in between: nothing is missed and
  nothing is delivered twice, whatever calls were served meanwhile.
\<close>

theorem snapshot_then_events:
  assumes "db_inv d" "get_snapshot_locked pid d = Inr s" "calls (idle d) c'"
    and "events_after_locked pid (gsr_seq s) (live c') = Inr evs"
  shows "set evs = set (project_log pid (live c')) - set (project_log pid d)"
proof -
  have inv: "log_inv d" "log_inv (live c')"
    using assms(1) calls_inv [OF assms(3)] by (simp_all add: conn_inv_def db_inv_def)
  have grows: "log_grows d (live c')" using calls_log [OF assms(3)] by simp
  have evs: "evs = filter (\<lambda>e. max_event_seq d < ev_seq e) (project_log pid (live c'))"
    using assms(4) by (simp add: events_after_ok [OF inv(2)] snapshot_seq [OF assms(2)])
  show ?thesis
  proof (intro equalityI subsetI)
    fix x
    assume "x \<in> set evs"
    then have x: "x \<in> set (project_log pid (live c'))" "max_event_seq d < ev_seq x" by (auto simp: evs)
    moreover have "x \<notin> set (project_log pid d)"
    proof
      assume "x \<in> set (project_log pid d)"
      then obtain e where "e \<in> set (events d)" "x = event_msg e" by (auto simp: project_log_def)
      then show False using x(2) le_max_event [of e d] by simp
    qed
    ultimately show "x \<in> set (project_log pid (live c')) - set (project_log pid d)" by simp
  next
    fix x
    assume x: "x \<in> set (project_log pid (live c')) - set (project_log pid d)"
    then obtain e where e: "e \<in> set (events (live c'))" "x = event_msg e" "e_project_id e = pid"
      by (auto simp: project_log_def)
    then have "e \<notin> set (events d)" using x by (auto simp: project_log_def)
    then have "last_seq d < e_seq e" using grows e(1) by (auto simp: log_grows_def)
    then show "x \<in> set evs" using x e(2) max_event_le [OF inv(1)] by (simp add: evs)
  qed
qed

lemma snapshot_then_events_witness:
  "map ev_seq (projr (events_after_locked ''p'' 4
     (live (snd (dispatch demo_wire no_index demo_env ''SetStatus'' [] (idle demo_db)))))) = [5] \<and>
   set (projr (events_after_locked ''p'' 4
     (live (snd (dispatch demo_wire no_index demo_env ''SetStatus'' [] (idle demo_db)))))) =
   set (project_log ''p'' (live (snd (dispatch demo_wire no_index demo_env ''SetStatus'' [] (idle demo_db))))) -
   set (project_log ''p'' demo_db)"
proof -
  let ?out = "dispatch demo_wire no_index demo_env ''SetStatus'' [] (idle demo_db)"
  let ?evs = "events_after_locked ''p'' 4 (live (snd ?out))"
  have calls: "calls (idle demo_db) (snd ?out)" by (rule calls_one)
  have "case ?out of (x, c) \<Rightarrow> map_sum id (map ev_seq) (events_after_locked ''p'' 4 (live c)) = Inr [5]" by code_simp
  then obtain evs where evs: "?evs = Inr evs" "map ev_seq evs = [5]" by (cases ?evs) (simp_all add: case_prod_beta)
  have "case get_snapshot_locked ''p'' demo_db of Inl e \<Rightarrow> False | Inr s \<Rightarrow> gsr_seq s = 4" by code_simp
  then obtain s where s: "get_snapshot_locked ''p'' demo_db = Inr s" "gsr_seq s = 4" by (auto split: sum.splits)
  have "set evs = set (project_log ''p'' (live (snd ?out))) - set (project_log ''p'' demo_db)"
    using snapshot_then_events [OF demo_inv s(1) calls] evs(1) s(2) by simp
  then show ?thesis using evs by simp
qed

section \<open>Malformed and reading calls\<close>

text \<open>
  A method name the service does not know is answered with a not-found error that names it,
  and the session is untouched.
\<close>

lemma dispatch_unknown_method:
  "m \<notin> {''ListProjects'', ''GetSnapshot'', ''ListEvents'', ''Search'', ''PollChanges'', ''CreateNode'',
      ''UpdateNode'', ''DeleteNode'', ''SetStatus'', ''AddDependency'', ''RemoveDependency'',
      ''ReportCondition'', ''SetVerdict'', ''AddComment'', ''Undo'', ''MoveNode'', ''CreateProject'',
      ''UpdateProject'', ''ArchiveProject''} \<Longrightarrow>
   dispatch C fts E m req c =
     (Inl \<lparr>err_code = NotFound, err_message = ''unknown method: '' @ m\<rparr>, c)"
  by (simp add: dispatch_def sm_throw_def not_found_def new_error_def)

lemma answer_decode_error:
  "dec req = Inl t \<Longrightarrow> answer dec run enc req c = (Inl (invalid_argument (''bad request: '' @ t)), c)"
  by (simp add: answer_def sm_bind_lift decode_def)

text \<open>
  The reading methods change nothing: neither the live database nor the state of the
  transaction.
\<close>

lemma dispatch_reads_only:
  "m \<in> {''ListProjects'', ''GetSnapshot'', ''ListEvents'', ''Search'', ''PollChanges''} \<Longrightarrow>
   snd (dispatch C fts E m req c) = c"
proof -
  have reads: "snd (answer dec (\<lambda>r. read_db (q r)) enc req c) = c"
    for dec :: "bytes \<Rightarrow> string + 'r" and q :: "'r \<Rightarrow> db \<Rightarrow> 'a res" and enc
    by (simp add: answer_def sm_bind_def lift_res_def read_db_def sm_return_def split: sum.split)
  show "m \<in> {''ListProjects'', ''GetSnapshot'', ''ListEvents'', ''Search'', ''PollChanges''} \<Longrightarrow>
    snd (dispatch C fts E m req c) = c"
    by (elim insertE emptyE) (simp_all add: dispatch_def reads)
qed

end
