(* ===== verification/Store_Reports.thy ===== *)
theory Store_Reports
  imports Store_Dispatch
begin

text \<open>
  Mutations are complete and of one project: whatever event a committed write has added to the
  log is in the mutation it returns, and all events of a mutation belong to one project. The
  native daemon relies on both when it publishes a mutation instead of reading the log.
\<close>

named_theorems tells_rules \<open>rules for the events a program adds and returns\<close>

section \<open>Bodies of transactions\<close>

text \<open>
  \<open>tells p S f Q\<close>: started after the events \<open>S\<close> of project \<open>p\<close> were added, the program returns
  a value \<open>r\<close> from which \<open>Q\<close> reads all events added, those in \<open>S\<close> and its own.
\<close>

definition new_events :: "db \<Rightarrow> db \<Rightarrow> pb_event set" where
  "new_events d d' = event_msg ` (set (events d') - set (events d))"

definition tells :: "string \<Rightarrow> pb_event set \<Rightarrow> (db, 'a) sm \<Rightarrow> ('a \<Rightarrow> pb_event set) \<Rightarrow> bool" where
  "tells p S f Q \<longleftrightarrow> (\<forall>c r c'. f c = (Inr r, c') \<longrightarrow> (\<forall>e \<in> S. ev_project_id e = p) \<longrightarrow>
     S \<union> new_events (live c) (live c') \<subseteq> Q r \<and> (\<forall>e \<in> Q r. ev_project_id e = p))"

lemma new_events_refl [simp]: "new_events d d = {}"
  by (simp add: new_events_def)

lemma new_events_trans: "new_events d d'' \<subseteq> new_events d d' \<union> new_events d' d''"
  by (auto simp: new_events_def)

lemma tellsD:
  "tells p S f Q \<Longrightarrow> f c = (Inr r, c') \<Longrightarrow> \<forall>e \<in> S. ev_project_id e = p \<Longrightarrow>
   S \<union> new_events (live c) (live c') \<subseteq> Q r \<and> (\<forall>e \<in> Q r. ev_project_id e = p)"
  by (simp add: tells_def)

lemma tells_bind:
  assumes f: "tells p S f P" and g: "\<And>x. tells p (P x) (g x) Q"
  shows "tells p S (sm_bind f g) Q"
  unfolding tells_def
proof (intro allI impI)
  fix c r c'
  assume run: "sm_bind f g c = (Inr r, c')" and S: "\<forall>e \<in> S. ev_project_id e = p"
  obtain x c1 where x: "f c = (Inr x, c1)" and r: "g x c1 = (Inr r, c')"
    using run by (rule sm_bind_InrE)
  show "S \<union> new_events (live c) (live c') \<subseteq> Q r \<and> (\<forall>e \<in> Q r. ev_project_id e = p)"
    using tellsD [OF f x S] tellsD [OF g r] new_events_trans [of "live c" "live c'" "live c1"] by blast
qed

lemma tells_return: "Q r = S \<Longrightarrow> tells p S (sm_return r) Q"
  by (auto simp: tells_def sm_return_def)

lemma tells_throw [tells_rules]: "tells p S (sm_throw e) Q"
  by (simp add: tells_def sm_throw_def)

text \<open>Programs that add no event.\<close>

definition mute :: "(db, 'a) sm \<Rightarrow> bool" where
  "mute f \<longleftrightarrow> (\<forall>c r c'. f c = (Inr r, c') \<longrightarrow> set (events (live c')) \<subseteq> set (events (live c)))"

lemma tells_mute: "mute f \<Longrightarrow> tells p S f (\<lambda>_. S)"
  by (fastforce simp: tells_def mute_def new_events_def)

lemma mute_quiet [tells_rules]: "quiet u \<Longrightarrow> mute (run_stmt u)"
  by (fastforce simp: mute_def quiet_def run_stmt_def split: sum.splits)

lemma mute_reads [tells_rules]: "mute (read_db q)" "mute (lift_res v)" "mute (sm_return x)" "mute (sm_throw e)"
  by (auto simp: mute_def read_db_def lift_res_def sm_return_def sm_throw_def)

lemma mute_bind [tells_rules]: "mute f \<Longrightarrow> (\<And>x. mute (g x)) \<Longrightarrow> mute (sm_bind f g)"
  unfolding mute_def by (blast elim!: sm_bind_InrE)

lemma mute_if [tells_rules]: "mute f \<Longrightarrow> mute g \<Longrightarrow> mute (if b then f else g)"
  by simp

lemma mute_prod [tells_rules]: "(\<And>x y. mute (f x y)) \<Longrightarrow> mute (case z of (x, y) \<Rightarrow> f x y)"
  by (cases z) simp

lemma mute_each [tells_rules]: "(\<And>x. mute (f x)) \<Longrightarrow> mute (sm_each f xs)"
  by (induction xs) (auto intro!: tells_rules)

lemma mute_ledger [tells_rules]: "mute (record_idempotency E q k n)" "mute (record_idempotency_created E q k n i)"
  by (auto simp: mute_def record_idempotency_eq record_created_eq ledger_put_def split: option.splits)

lemma tells_append: "tells p S (append_event E p i k a s t) (\<lambda>e. insert e S)"
  unfolding tells_def
proof (intro allI impI)
  fix c r c'
  assume run: "append_event E p i k a s t c = (Inr r, c')" and S: "\<forall>e \<in> S. ev_project_id e = p"
  note r = append_event_InrD(1,2) [OF run]
  have "new_events (live c) (live c') \<subseteq> {r}"
    using r by (auto simp: new_events_def log_put_def)
  moreover have "ev_project_id r = p" by (simp add: r(1))
  ultimately show "S \<union> new_events (live c) (live c') \<subseteq> insert r S \<and> (\<forall>e \<in> insert r S. ev_project_id e = p)"
    using S by auto
qed

lemma tells_each:
  assumes "\<And>x S. tells p S (f x) (\<lambda>y. insert (h y) S)"
  shows "tells p S (sm_each f xs) (\<lambda>ys. h ` set ys \<union> S)"
proof (induction xs arbitrary: S)
  case Nil
  show ?case by (simp add: tells_return)
next
  case (Cons x xs)
  have "tells p (insert (h y) S) (sm_bind (sm_each f xs) (\<lambda>ys. sm_return (y # ys))) (\<lambda>ys. h ` set ys \<union> S)" for y
    by (rule tells_bind [OF Cons.IH]) (simp add: tells_return)
  then show ?case by (auto intro: tells_bind [OF assms])
qed

lemmas tells_steps = tells_bind [OF tells_append] tells_bind [OF tells_mute]

section \<open>Operations\<close>

definition tells_op :: "(db, mutation) sm \<Rightarrow> bool" where
  "tells_op f \<longleftrightarrow> (\<forall>c m c'. f c = (Inr m, c') \<longrightarrow>
     new_events (live c) (live c') \<subseteq> set (mu_events m) \<and> (\<exists>p. \<forall>e \<in> set (mu_events m). ev_project_id e = p))"

text \<open>What follows the transaction: it reads, and returns the events collected so far.\<close>

definition tells_answer :: "pb_event set \<Rightarrow> (db, mutation) sm \<Rightarrow> bool" where
  "tells_answer S f \<longleftrightarrow> (\<forall>c m c'. f c = (Inr m, c') \<longrightarrow> c' = c \<and> set (mu_events m) = S)"

lemma tells_finish: "set evs = S \<Longrightarrow> tells_answer S (read_db (finish_mutation pid evs is))"
  by (auto simp: tells_answer_def read_db_def finish_mutation_def res_bind_eq_Inr)

lemma in_tx_events:
  assumes "in_tx E f c = (Inr x, c')"
  shows "\<exists>c1 c2. live c1 = live c \<and> f c1 = (Inr x, c2) \<and> live c' = live c2"
proof (cases "savepoint c")
  case None
  then show ?thesis using engine.transaction_ok [of c E f x c'] assms unfolding in_tx_def by blast
next
  case (Some d)
  then show ?thesis using assms by (simp add: in_tx_open)
qed

lemma tells_op_tx:
  assumes f: "tells p {} f Q" and g: "\<And>x. tells_answer (Q x) (g x)"
  shows "tells_op (sm_bind (in_tx E f) g)"
  unfolding tells_op_def
proof (intro allI impI)
  fix c m c'
  assume "sm_bind (in_tx E f) g c = (Inr m, c')"
  then obtain x c3 where x: "in_tx E f c = (Inr x, c3)" and m: "g x c3 = (Inr m, c')"
    by (rule sm_bind_InrE)
  obtain c1 c2 where run: "live c1 = live c" "f c1 = (Inr x, c2)" "live c3 = live c2"
    using in_tx_events [OF x] by blast
  have "c' = c3" "set (mu_events m) = Q x" using g [of x] m by (auto simp: tells_answer_def)
  then show "new_events (live c) (live c') \<subseteq> set (mu_events m) \<and>
      (\<exists>p. \<forall>e \<in> set (mu_events m). ev_project_id e = p)"
    using tellsD [OF f run(2)] run by auto
qed

lemma tells_op_read [tells_rules]: "(\<And>x. tells_op (f x)) \<Longrightarrow> tells_op (sm_bind (read_db q) f)"
  unfolding tells_op_def by (auto simp: sm_bind_read split: sum.splits)

lemma tells_op_reads:
  assumes "reads_only f" "\<And>x. tells_op (g x)"
  shows "tells_op (sm_bind f g)"
  unfolding tells_op_def
proof (intro allI impI)
  fix c m c'
  assume "sm_bind f g c = (Inr m, c')"
  then obtain x c1 where "f c = (Inr x, c1)" "g x c1 = (Inr m, c')" by (rule sm_bind_InrE)
  moreover have "c1 = c" using assms(1) calculation(1) by (auto simp: reads_only_def dest: arg_cong [of _ _ snd])
  ultimately show "new_events (live c) (live c') \<subseteq> set (mu_events m) \<and>
      (\<exists>p. \<forall>e \<in> set (mu_events m). ev_project_id e = p)"
    using assms(2) [of x] by (auto simp: tells_op_def)
qed

lemma tells_op_if [tells_rules]: "tells_op f \<Longrightarrow> tells_op g \<Longrightarrow> tells_op (if b then f else g)"
  by simp

lemma tells_op_option [tells_rules]:
  "tells_op f \<Longrightarrow> (\<And>x. tells_op (g x)) \<Longrightarrow> tells_op (case z of None \<Rightarrow> f | Some x \<Rightarrow> g x)"
  by (cases z) auto

lemma tells_op_throw [tells_rules]: "tells_op (sm_throw e)"
  by (simp add: tells_op_def sm_throw_def)

lemma tells_op_return [tells_rules]: "mu_events m = [] \<Longrightarrow> tells_op (sm_return m)"
  by (simp add: tells_op_def sm_return_def)

lemma empty_mutation_events [simp]: "mu_events (empty_mutation q) = []"
  by (simp add: empty_mutation_def)

section \<open>The writes of the store\<close>

lemma set_status_tells: "tells_op (set_status_locked E req)"
proof -
  have "tells p {} (set_status_tx E req p prior new) (\<lambda>e. {e})" for p prior new
    unfolding set_status_tx_def
    by (intro tells_steps tells_return tells_rules stmt_pres) simp
  then show ?thesis unfolding set_status_locked_def Let_def
    by (intro tells_rules tells_op_tx tells_finish) simp_all
qed

lemma add_dependency_tells: "tells_op (add_dependency_locked E req)"
proof -
  have "tells p {} (add_dependency_tx E req p) (\<lambda>e. {e})" for p
    unfolding add_dependency_tx_def
    by (intro tells_steps tells_return tells_rules stmt_pres) simp
  then show ?thesis unfolding add_dependency_locked_def
    by (intro tells_rules tells_op_tx tells_finish) simp_all
qed

lemma remove_dependency_tells: "tells_op (remove_dependency_locked E req)"
proof -
  have "tells p {} (remove_dependency_tx E req p) (\<lambda>e. {e})" for p
    unfolding remove_dependency_tx_def
    by (intro tells_steps tells_return tells_rules stmt_pres) simp
  then show ?thesis unfolding remove_dependency_locked_def
    by (intro tells_rules tells_op_tx tells_finish) simp_all
qed

lemma report_condition_tells: "tells_op (report_condition_locked E req)"
proof -
  have "tells p {} (report_condition_tx E req p v) (\<lambda>e. {e})" for p v
    unfolding report_condition_tx_def Let_def
    by (intro tells_steps tells_return tells_rules stmt_pres) simp
  then show ?thesis unfolding report_condition_locked_def Let_def
    by (intro tells_rules tells_op_tx tells_finish) simp_all
qed

lemma set_verdict_tells: "tells_op (set_verdict_locked E req)"
proof -
  have "tells p {} (set_verdict_tx E req p) (\<lambda>e. {e})" for p
    unfolding set_verdict_tx_def verdict_stmt_def
    by (intro tells_steps tells_return tells_rules stmt_pres) simp
  then show ?thesis unfolding set_verdict_locked_def Let_def
    by (intro tells_rules tells_op_tx tells_finish) simp_all
qed

lemma add_comment_tells: "tells_op (add_comment_locked E req)"
proof -
  have "tells p {} (add_comment_tx E req p) (\<lambda>e. {e})" for p
    unfolding add_comment_tx_def Let_def
    by (intro tells_steps tells_return tells_rules) simp
  then show ?thesis unfolding add_comment_locked_def Let_def
    by (intro tells_rules tells_op_tx tells_finish) simp_all
qed

lemma mute_update_field [tells_rules]: "mute (update_field E req f)"
  unfolding update_field_def Let_def by (intro tells_rules stmt_pres)

lemma update_node_tells: "tells_op (update_node_locked E req)"
proof -
  have "tells p {} (update_node_tx E req p) (\<lambda>e. {e})" for p
    unfolding update_node_tx_def
    by (intro tells_steps tells_return tells_rules) simp
  then show ?thesis unfolding update_node_locked_def Let_def
    by (intro tells_rules tells_op_tx tells_finish) simp_all
qed

lemma tells_answer_prod:
  "(\<And>x y. z = (x, y) \<Longrightarrow> tells_answer S (f x y)) \<Longrightarrow> tells_answer S (case z of (x, y) \<Rightarrow> f x y)"
  by (cases z) simp

lemma create_node_tells: "tells_op (create_node_locked E req)"
proof -
  have "tells (cn_project_id req) {} (create_node_tx E req) (\<lambda>(e, i). {e})"
    unfolding create_node_tx_def
    by (intro tells_steps tells_return tells_rules stmt_pres) simp
  then show ?thesis unfolding create_node_locked_def
    by (intro tells_rules tells_op_tx tells_answer_prod tells_finish) (auto simp: tells_rules)
qed

lemma mute_undo_inverse [tells_rules]: "mute (undo_inverse E k t i)"
  unfolding undo_inverse_def undo_status_set_def undo_dep_added_def undo_dep_removed_def
    undo_node_created_def undo_node_deleted_def restore_node_def Let_def
  by (intro tells_rules stmt_pres)

lemma tells_prod: "(\<And>x y. z = (x, y) \<Longrightarrow> tells p S (f x y) Q) \<Longrightarrow> tells p S (case z of (x, y) \<Rightarrow> f x y) Q"
  by (cases z) simp

lemma undo_tells: "tells_op (undo_locked E req)"
proof -
  have "tells (ev_project_id ev) {} (undo_tx E req ev) (\<lambda>(e, is). {e})" for ev
    unfolding undo_tx_def
    by (intro tells_steps tells_return tells_prod tells_rules) simp
  then show ?thesis unfolding undo_locked_def Let_def
    by (intro tells_rules tells_op_tx tells_answer_prod tells_finish) auto
qed

lemma tells_delete_event: "tells p S (delete_event E p a i) (\<lambda>e. insert e S)"
  unfolding delete_event_def by (rule tells_append)

lemma delete_node_tells: "tells_op (delete_node_locked E req)"
proof -
  have "tells p {} (delete_node_tx E req p prior desc) set" for p prior desc
    unfolding delete_node_tx_def Let_def
    by (intro tells_steps tells_bind [OF tells_each [where h = "\<lambda>e. e"]] tells_delete_event
        tells_return tells_rules stmt_pres) auto
  then show ?thesis unfolding delete_node_locked_def Let_def
    by (intro tells_op_read tells_op_option tells_op_return tells_op_tx tells_finish
        tells_op_reads [OF reads_only_if]) (auto simp: sm_rules)
qed

lemma drop_child_tells: "tells p S (drop_child E p a i) (\<lambda>r. insert (snd r) S)"
  unfolding drop_child_def
  by (intro tells_steps tells_bind [OF tells_delete_event] tells_return tells_rules stmt_pres) simp

lemma drop_children_tells: "tells p {} (drop_children E req p k) (\<lambda>rs. snd ` set rs)"
  unfolding drop_children_def using tells_each [OF drop_child_tells, where S = "{}"]
  by (auto intro!: tells_bind [OF tells_mute] tells_return tells_rules)

lemma move_node_tells: "tells_op (move_node_locked E req)"
proof -
  have "tells p {} (move_node_tx E req p k q) (\<lambda>(es, is). set es)" for p k q
    unfolding move_node_tx_def Let_def
    by (intro tells_bind [OF drop_children_tells] tells_steps tells_return tells_rules stmt_pres) auto
  then show ?thesis unfolding move_node_locked_def Let_def
    by (intro tells_rules tells_op_tx tells_answer_prod tells_finish) auto
qed

section \<open>A transaction left open\<close>

text \<open>
  After a \<open>COMMIT\<close> that failed, the session is inside a transaction for good: no operation of the
  store changes it any more.
\<close>

named_theorems stuck_rules \<open>programs that do nothing inside an open transaction\<close>

definition stuck :: "(db, 'a) sm \<Rightarrow> bool" where
  "stuck f \<longleftrightarrow> (\<forall>c. savepoint c \<noteq> None \<longrightarrow> snd (f c) = c)"

lemma stuck_reads [stuck_rules]:
  "stuck (read_db q)" "stuck (lift_res v)" "stuck (sm_return x)" "stuck (sm_throw e)"
  by (simp_all add: stuck_def read_db_def lift_res_def sm_return_def sm_throw_def)

lemma stuck_bind [stuck_rules]: "stuck f \<Longrightarrow> (\<And>x. stuck (g x)) \<Longrightarrow> stuck (sm_bind f g)"
  by (fastforce simp: stuck_def sm_bind_def split: prod.split sum.split)

lemma stuck_if [stuck_rules]: "stuck f \<Longrightarrow> stuck g \<Longrightarrow> stuck (if b then f else g)"
  by simp

lemma stuck_option [stuck_rules]:
  "stuck f \<Longrightarrow> (\<And>x. stuck (g x)) \<Longrightarrow> stuck (case z of None \<Rightarrow> f | Some x \<Rightarrow> g x)"
  by (cases z) simp_all

lemma stuck_prod [stuck_rules]: "(\<And>x y. stuck (f x y)) \<Longrightarrow> stuck (case z of (x, y) \<Rightarrow> f x y)"
  by (cases z) simp

lemma stuck_tx [stuck_rules]: "stuck (in_tx E f)"
  by (auto simp: stuck_def in_tx_open)

lemmas op_defs = create_node_locked_def update_node_locked_def delete_node_locked_def
  set_status_locked_def add_dependency_locked_def remove_dependency_locked_def
  report_condition_locked_def set_verdict_locked_def add_comment_locked_def undo_locked_def
  move_node_locked_def create_project_locked_def create_project_fresh_def update_project_locked_def
  archive_project_locked_def

lemma ops_stuck [stuck_rules]:
  "stuck (create_node_locked E r1)" "stuck (update_node_locked E r2)" "stuck (delete_node_locked E r3)"
  "stuck (set_status_locked E r4)" "stuck (add_dependency_locked E r5)"
  "stuck (remove_dependency_locked E r6)" "stuck (report_condition_locked E r7)"
  "stuck (set_verdict_locked E r8)" "stuck (add_comment_locked E r9)" "stuck (undo_locked E r10)"
  "stuck (move_node_locked E r11)" "stuck (create_project_locked E r12)"
  "stuck (update_project_locked E r13)" "stuck (archive_project_locked E r14)"
  unfolding op_defs Let_def by (intro stuck_rules)+

lemma dispatch_stuck: "stuck (dispatch C fts E m req)"
  unfolding dispatch_def answer_def by (intro stuck_rules)

section \<open>Writes to projects add no event\<close>

lemma mute_option [tells_rules]:
  "mute f \<Longrightarrow> (\<And>x. mute (g x)) \<Longrightarrow> mute (case z of None \<Rightarrow> f | Some x \<Rightarrow> g x)"
  by (cases z) simp_all

lemma mute_tx [tells_rules]: "mute f \<Longrightarrow> mute (in_tx E f)"
  unfolding mute_def using in_tx_events [of E f] by metis

lemma project_ops_mute [tells_rules]:
  "mute (create_project_locked E r)" "mute (update_project_locked E r')" "mute (archive_project_locked E r'')"
  unfolding create_project_locked_def create_project_fresh_def create_project_tx_def
    update_project_locked_def update_project_tx_def update_project_field_def
    archive_project_locked_def archive_project_tx_def
  by (intro tells_rules stmt_pres)+

end
