(* ===== verification/Store_Settles.thy ===== *)
theory Store_Settles
  imports Store_Reports
begin

text \<open>
  When an operation leaves a transaction open: only when a commit failed, and then it reports an
  error. The rules are collected in \<open>settle_rules\<close>; with them every method of the service either
  leaves an idle session idle or fails on a commit.
\<close>

named_theorems settle_rules \<open>programs that leave a transaction open only after a failed commit\<close>

definition settles :: "env \<Rightarrow> (db, 'a) sm \<Rightarrow> bool" where
  "settles E f \<longleftrightarrow> (\<forall>c. savepoint c = None \<longrightarrow> savepoint (snd (f c)) \<noteq> None \<longrightarrow>
     isl (fst (f c)) \<and> commit_error E \<noteq> None)"

lemma settlesD:
  "settles E f \<Longrightarrow> f c = (r, c') \<Longrightarrow> savepoint c = None \<Longrightarrow> savepoint c' \<noteq> None \<Longrightarrow>
   isl r \<and> commit_error E \<noteq> None"
  unfolding settles_def by (metis fst_conv snd_conv)

lemma settles_reads [settle_rules]:
  "settles E (read_db q)" "settles E (lift_res v)" "settles E (sm_return x)" "settles E (sm_throw e)"
  by (simp_all add: settles_def read_db_def lift_res_def sm_return_def sm_throw_def)

lemma settles_bind [settle_rules]:
  assumes "settles E f" "\<And>x. settles E (g x)"
  shows "settles E (sm_bind f g)"
  unfolding settles_def
proof (intro allI impI)
  fix c
  assume idle: "savepoint c = None" and left: "savepoint (snd (sm_bind f g c)) \<noteq> None"
  obtain r c1 where f: "f c = (r, c1)" by fastforce
  show "isl (fst (sm_bind f g c)) \<and> commit_error E \<noteq> None"
  proof (cases r)
    case (Inl e)
    then show ?thesis using settlesD [OF assms(1) f idle] left f by (simp add: sm_bind_def)
  next
    case (Inr x)
    then have "savepoint c1 = None" using settlesD [OF assms(1) f idle] by (cases "savepoint c1") auto
    then show ?thesis using assms(2) [of x] f left Inr by (simp add: settles_def sm_bind_def)
  qed
qed

lemma settles_if [settle_rules]: "settles E f \<Longrightarrow> settles E g \<Longrightarrow> settles E (if b then f else g)"
  by simp

lemma settles_option [settle_rules]:
  "settles E f \<Longrightarrow> (\<And>x. settles E (g x)) \<Longrightarrow> settles E (case z of None \<Rightarrow> f | Some x \<Rightarrow> g x)"
  by (cases z) simp_all

lemma settles_prod [settle_rules]: "(\<And>x y. settles E (f x y)) \<Longrightarrow> settles E (case z of (x, y) \<Rightarrow> f x y)"
  by (cases z) simp

lemma settles_tx: "keeps_mark f \<Longrightarrow> settles E (in_tx E f)"
  unfolding settles_def
proof (intro allI impI)
  fix c :: "db conn"
  assume mark: "keeps_mark f" and "savepoint c = None" and left: "savepoint (snd (in_tx E f c)) \<noteq> None"
  then obtain d where c: "c = idle d" using idle_of_mark by blast
  show "isl (fst (in_tx E f c)) \<and> commit_error E \<noteq> None"
    using left unfolding c in_tx_idle [OF mark]
    by (cases "f (within d d)") (auto split: sum.splits option.splits)
qed

lemma settles_safe [settle_rules]: "safe_body f \<Longrightarrow> settles E (in_tx E f)"
  by (rule settles_tx) (simp add: safe_body_def)

lemma settles_node_writes [settle_rules]:
  "settles E (create_node_locked E r1)" "settles E (update_node_locked E r2)"
  "settles E (delete_node_locked E r3)"
  unfolding create_node_locked_def create_node_tx_def update_node_locked_def update_node_tx_def
    delete_node_locked_def delete_node_tx_def Let_def
  by (intro settle_rules safe_rules stmt_pres)+

lemma settles_graph_writes [settle_rules]:
  "settles E (add_dependency_locked E r2)" "settles E (remove_dependency_locked E r3)"
  unfolding add_dependency_locked_def add_dependency_tx_def
    remove_dependency_locked_def remove_dependency_tx_def
  by (intro settle_rules safe_rules stmt_pres)+

lemma settles_set_status [settle_rules]: "settles E (set_status_locked E r)"
  unfolding set_status_locked_def set_status_tx_def Let_def
  by (intro settle_rules safe_rules) simp_all

lemma settles_review_writes [settle_rules]:
  "settles E (report_condition_locked E r1)" "settles E (set_verdict_locked E r2)"
  "settles E (add_comment_locked E r3)"
  unfolding report_condition_locked_def report_condition_tx_def set_verdict_locked_def set_verdict_tx_def
    verdict_stmt_def add_comment_locked_def add_comment_tx_def Let_def
  by (intro settle_rules safe_rules stmt_pres)+

lemma settles_undo_move [settle_rules]:
  "settles E (undo_locked E r1)" "settles E (move_node_locked E r2)"
  unfolding undo_locked_def move_node_locked_def Let_def
  by (intro settle_rules safe_rules)+

lemma settles_project_writes [settle_rules]:
  "settles E (create_project_locked E r1)" "settles E (update_project_locked E r2)"
  "settles E (archive_project_locked E r3)"
  unfolding create_project_locked_def create_project_fresh_def update_project_locked_def
    archive_project_locked_def
  by (intro settle_rules safe_project_txs)+

lemma dispatch_settles: "settles E (dispatch C fts E m req)"
  unfolding dispatch_def answer_def by (intro settle_rules)

end
