(* ===== verification/Graph_Runs.thy ===== *)
theory Graph_Runs
  imports Store_Settles
begin

text \<open>
  When the writes to the graph succeed: the converse of their outcome lemmas. A write whose
  target exists, that is no retry, and that meets neither an exhausted event counter nor a failed
  commit, is carried out; an operation that fails with a working commit leaves the session idle.
\<close>

lemma idle_inject [simp]: "idle d = idle d' \<longleftrightarrow> d = d'"
  by (simp add: idle_def)

section \<open>Failures\<close>

lemma failed_op_idle:
  assumes "safe_op f" "settles E f" "db_inv d" "commit_error E = None" "f (idle d) = (Inl e, c)"
  shows "c = idle d"
proof -
  have "savepoint c = None" using settlesD [OF assms(2,5)] assms(4) by (cases "savepoint c") auto
  moreover have "durable_db c = durable_db (idle d)"
    using assms(1,3,5) unfolding safe_op_def atomic_on_def by (metis conn_inv_idle)
  ultimately show ?thesis by (simp add: idle_of_mark durable_db_def idle_def)
qed

lemma safe_op_db:
  assumes "safe_op f" "db_inv d" "f (idle d) = (r, idle d')"
  shows "db_inv d'"
  using assms sm_keepsD [of db_inv f "idle d" r "idle d'"] by (simp add: safe_op_def)

section \<open>SetStatus\<close>

lemma update_declared_ok:
  assumes "db_inv d" "find_node d i = Some n" "declared_ok s"
  shows "update_node E i (\<lambda>n. n\<lparr>n_declared_status := s\<rparr>) d =
    Inr ((), put_node E i (\<lambda>n. n\<lparr>n_declared_status := s\<rparr>) d)"
proof -
  have "node_ok d n" using assms(1) find_node_SomeD [OF assms(2)] by (simp add: inv_defs)
  then have "check_node (n\<lparr>n_declared_status := s\<rparr>) = None"
    using assms(3) by (auto simp: node_ok_def check_node_def shape_ok_def split: if_splits)
  then show ?thesis using assms(2) by (simp add: update_node_def)
qed

lemma status_payload_wf: "json_wf (status_payload a b)"
proof -
  have "''after'' < (''before'' :: string)" by code_simp
  then show ?thesis by (simp add: status_payload_def)
qed

lemma node_project_known: "db_inv d \<Longrightarrow> find_node d i = Some n \<Longrightarrow> n_project_id n \<in> project_ids d"
  by (auto simp: inv_defs node_ok_def dest!: find_node_SomeD)

lemma json_valid_text: "json_codec E \<Longrightarrow> json_wf j \<Longrightarrow> json_valid E (json_text E j)"
  by (simp add: json_codec_def)

lemma set_status_runs:
  assumes inv: "db_inv d" and codec: "json_codec E" and commit: "commit_error E = None"
    and room: "last_seq d < max_seq" and n: "find_node d (ss_node_id req) = Some n"
    and miss: "ledger_hit d (n_project_id n) (idem_key (ss_meta req)) = None"
  shows "\<exists>m d'. set_status_locked E req (idle d) = (Inr m, idle d') \<and> db_inv d' \<and>
    last_seq d' = last_seq d + 1 \<and> same_graph (put_node E (ss_node_id req)
      (\<lambda>n. n\<lparr>n_declared_status := declared_str (ss_declared_status req)\<rparr>) d) d'"
proof -
  let ?i = "ss_node_id req" and ?p = "n_project_id n" and ?new = "declared_str (ss_declared_status req)"
  let ?old = "declared_str (nd_declared_status (node_msg d n))" and ?f = "\<lambda>n. n\<lparr>n_declared_status := ?new\<rparr>"
  let ?d1 = "put_node E ?i ?f d"
  have u: "run_stmt (update_node E ?i ?f) (within d d) = (Inr (), within d ?d1)"
    using update_declared_ok [OF inv n] by (simp add: run_stmt_def)
  have safe: "safe_body (run_stmt (update_node E ?i ?f))"
    by (intro safe_rules keeps_id_simps keeps_place_simps)
  have ids: "node_ids ?d1 = node_ids d" "project_ids ?d1 = project_ids d" "last_seq ?d1 = last_seq d"
    using put_node_ids(2) [of ?f E ?i d] by (simp_all add: project_ids_def put_node_def)
  have pre: "last_seq ?d1 \<noteq> max_seq" "event_kind_ok ''STATUS_SET''" "json_valid E (json_text E (status_payload ?old ?new))"
    "?p \<in> project_ids ?d1" "?i = '''' \<or> ?i \<in> node_ids ?d1"
    using room ids json_valid_text [OF codec status_payload_wf] node_project_known [OF inv n] find_node_in_ids [OF n]
    by (simp_all add: event_kind_ok_def)
  note run = logged_write_run [OF safe inv u pre commit, of "author_of (ss_meta req)" "?i @ '' -> '' @ ?new"
    "idem_key (ss_meta req)" "?i # blocks d ?i"]
  let ?d' = "log_tail E ?p ?i ''STATUS_SET'' (author_of (ss_meta req)) (?i @ '' -> '' @ ?new)
    (json_text E (status_payload ?old ?new)) (idem_key (ss_meta req)) ?d1"
  have eq: "set_status_locked E req (idle d) = sm_bind (in_tx E (logged_write E (run_stmt (update_node E ?i ?f)) ?p ?i ''STATUS_SET''
        (author_of (ss_meta req)) (?i @ '' -> '' @ ?new) (json_text E (status_payload ?old ?new))
        (idem_key (ss_meta req)))) (\<lambda>event.
      read_db (finish_mutation ?p [event] (?i # blocks d ?i))) (idle d)"
    using n miss unfolding set_status_locked_def Let_def node_prologue
    by (simp add: sm_bind_read query_blocked_ok set_status_tx_def logged_write_def)
  obtain m where ran: "set_status_locked E req (idle d) = (Inr m, idle ?d')" unfolding eq run by blast
  have "db_inv ?d'" by (rule safe_op_db [OF set_status_safe inv ran])
  then show ?thesis
    using ran ids(3) by (intro exI [of _ m] exI [of _ ?d'] conjI) simp_all
qed

section \<open>AddDependency and RemoveDependency\<close>

lemma edge_payload_wf: "json_wf (edge_payload a b)"
proof -
  have "''blocked_id'' < (''blocker_id'' :: string)" by code_simp
  then show ?thesis by (simp add: edge_payload_def)
qed

text \<open>A statement on edges, with its event filed under the blocker's project.\<close>

lemma edge_write_runs:
  assumes inv: "db_inv d" and codec: "json_codec E" and commit: "commit_error E = None"
    and room: "last_seq d < max_seq" and a: "a \<in> node_ids d" and k: "event_kind_ok k"
    and safe: "safe_body (run_stmt u)" and u: "u d = Inr ((), d1)"
    and same: "last_seq d1 = last_seq d" "projects d1 = projects d"
  shows "\<exists>m d'. sm_bind (in_tx E (logged_write E (run_stmt u) (edge_project d a) '''' k w s
      (json_text E (edge_payload a b)) key)) (\<lambda>event. read_db (finish_mutation (edge_project d a) [event] [b]))
      (idle d) = (Inr m, idle d') \<and> same_graph d1 d' \<and> last_seq d' = last_seq d + 1"
proof -
  obtain n where "find_node d a = Some n" using node_ids_find a by blast
  then have "edge_project d a \<in> project_ids d1"
    using node_project_known [OF inv] same(2) by (simp add: edge_project_def project_ids_def)
  then have pre: "last_seq d1 \<noteq> max_seq" "event_kind_ok k" "json_valid E (json_text E (edge_payload a b))"
    "edge_project d a \<in> project_ids d1" "'''' = '''' \<or> '''' \<in> node_ids d1"
    using room same(1) k json_valid_text [OF codec edge_payload_wf] by simp_all
  have "run_stmt u (within d d) = (Inr (), within d d1)" using u by (simp add: run_stmt_def)
  from logged_write_run [OF safe inv this pre commit] show ?thesis
    using same(1) by (intro exI conjI) (assumption, simp_all)
qed

lemma add_dependency_runs:
  assumes "db_inv d" "json_codec E" "commit_error E = None" "last_seq d < max_seq"
    and "ad_blocker_id req \<in> node_ids d"
    and miss: "ledger_hit d (edge_project d (ad_blocker_id req)) (idem_key (ad_meta req)) = None"
    and u: "insert_dependency E (ad_blocker_id req) (ad_blocked_id req) d = Inr ((), d1)"
  shows "\<exists>m d'. add_dependency_locked E req (idle d) = (Inr m, idle d') \<and> same_graph d1 d'"
proof -
  have "safe_body (run_stmt (insert_dependency E (ad_blocker_id req) (ad_blocked_id req)))"
    by (intro safe_rules stmt_pres)
  moreover have "last_seq d1 = last_seq d" "projects d1 = projects d"
    using insert_dependency_cases [OF u] by auto
  moreover have "event_kind_ok ''DEP_ADDED''" by (simp add: event_kind_ok_def)
  ultimately show ?thesis
    using edge_write_runs [OF assms(1-5)] u miss
    by (simp add: add_dependency_locked_def edge_prologue edge_project_def [symmetric] Let_def
        add_dependency_tx_def logged_write_def) blast
qed

lemma remove_dependency_runs:
  assumes "db_inv d" "json_codec E" "commit_error E = None" "last_seq d < max_seq"
    and "rd_blocker_id req \<in> node_ids d"
    and miss: "ledger_hit d (edge_project d (rd_blocker_id req)) (idem_key (rd_meta req)) = None"
    and u: "delete_dependency (rd_blocker_id req) (rd_blocked_id req) d = Inr ((), d1)"
  shows "\<exists>m d'. remove_dependency_locked E req (idle d) = (Inr m, idle d') \<and> same_graph d1 d'"
proof -
  have "safe_body (run_stmt (delete_dependency (rd_blocker_id req) (rd_blocked_id req)))"
    by (intro safe_rules stmt_pres)
  moreover have "last_seq d1 = last_seq d" "projects d1 = projects d"
    using u by (auto simp: delete_dependency_def)
  moreover have "event_kind_ok ''DEP_REMOVED''" by (simp add: event_kind_ok_def)
  ultimately show ?thesis
    using edge_write_runs [OF assms(1-5)] u miss
    by (simp add: remove_dependency_locked_def edge_prologue edge_project_def [symmetric] Let_def
        remove_dependency_tx_def logged_write_def) blast
qed

section \<open>DeleteNode\<close>

lemma node_before_wf: "json_wf (node_before (node_msg d n))"
proof -
  have "is_i64 (wrap32 (n_position n))"
    using wrap32_range [of "n_position n"] by (simp add: is_i64_def is_i32_def)
  moreover have "sorted_wrt (<) [''condition'' :: string, ''declared_status'', ''description'', ''id'',
    ''kind'', ''note'', ''parent_id'', ''position'', ''project_id'', ''reference'', ''title'', ''wp_state'']"
    by code_simp
  ultimately show ?thesis
    by (simp add: node_before_def Let_def node_msg_def bare_node_msg_def)
qed

lemma deleted_payload_wf: "json_wf (deleted_payload i)"
  by (simp add: deleted_payload_def)

lemma append_deletion_runs:
  assumes "last_seq (live c) < max_seq" "json_valid E t" "p \<in> project_ids (live c)"
  shows "\<exists>ev e. append_event E p '''' ''NODE_DELETED'' a s t c = (Inr ev, c\<lparr>live := log_put e (live c)\<rparr>)"
  using assms insert_event_ok [of "live c" "''NODE_DELETED''" E t p "''''"]
  by (auto simp: append_event_eq event_kind_ok_def)

lemma delete_events_run:
  assumes "json_codec E" "last_seq (live c) + int (length xs) \<le> max_seq" "p \<in> project_ids (live c)"
  shows "\<exists>evs c'. sm_each (delete_event E p a) xs c = (Inr evs, c') \<and>
    last_seq (live c') = last_seq (live c) + int (length xs) \<and> project_ids (live c') = project_ids (live c)"
  using assms
proof (induction xs arbitrary: c)
  case Nil
  then show ?case by (simp add: sm_return_def)
next
  case (Cons x xs)
  obtain ev e where 1: "delete_event E p a x c = (Inr ev, c\<lparr>live := log_put e (live c)\<rparr>)"
    using append_deletion_runs [of c E "json_text E (deleted_payload x)" p a] Cons.prems
      json_valid_text [OF assms(1) deleted_payload_wf]
    by (fastforce simp: delete_event_def)
  let ?c = "c\<lparr>live := log_put e (live c)\<rparr>"
  have c: "last_seq (live ?c) = last_seq (live c) + 1" "project_ids (live ?c) = project_ids (live c)"
    by (simp_all add: project_ids_def)
  obtain evs c' where "sm_each (delete_event E p a) xs ?c = (Inr evs, c')"
    "last_seq (live c') = last_seq (live ?c) + int (length xs)" "project_ids (live c') = project_ids (live ?c)"
    using Cons.IH [of ?c] Cons.prems c by auto
  then show ?case using 1 c by (simp add: sm_bind_def sm_return_def)
qed

text \<open>A transaction whose body succeeds is committed and answered.\<close>

lemma committed_answer:
  assumes safe: "safe_body f" and inv: "db_inv d" and commit: "commit_error E = None"
    and run: "f (within d d) = (Inr x, c)"
  shows "\<exists>m d'. sm_bind (in_tx E f) (\<lambda>x. read_db (finish_mutation p (g x) (h x))) (idle d) = (Inr m, idle d')"
proof -
  have mark: "keeps_mark f" and keeps: "sm_keeps db_inv f" using safe by (simp_all add: safe_body_def)
  have "in_tx E f (idle d) = (Inr x, idle (live c))"
    using in_tx_idle [OF mark] run commit by simp
  moreover have "db_inv (live c)"
    using sm_keepsD [OF keeps _ run] inv by (simp add: conn_inv_def)
  ultimately show ?thesis by (simp add: sm_bind_def finish_read)
qed

lemma delete_node_runs:
  assumes inv: "db_inv d" and codec: "json_codec E" and commit: "commit_error E = None"
    and room: "last_seq d + int (length (subtree d (dn_node_id req))) \<le> max_seq"
    and n: "find_node d (dn_node_id req) = Some n"
    and miss: "ledger_hit d (n_project_id n) (idem_key (dn_meta req)) = None"
    and free: "\<And>e. dn_fail_if_referenced req \<Longrightarrow> e \<in> set (dependencies d) \<Longrightarrow>
      d_blocker_id e \<noteq> dn_node_id req \<and> d_blocked_id e \<noteq> dn_node_id req"
  shows "\<exists>m d'. delete_node_locked E req (idle d) = (Inr m, idle d')"
proof -
  let ?i = "dn_node_id req" and ?p = "n_project_id n" and ?b = "node_before_json E (node_msg d n)"
  let ?desc = "filter (\<lambda>s. s \<noteq> ?i) (subtree d ?i)" and ?deps = "outer_dependents d (subtree d ?i)"
  let ?d1 = "drop_nodes (subtree d ?i) d" and ?a = "author_of (dn_meta req)"
  have del: "delete_node ?i d = Inr ((), ?d1)"
    using find_node_in_ids [OF n] by (simp add: delete_node_def)
  have "?i \<in> set (subtree d ?i)" by (rule subtree_self)
  then have len: "length ?desc < length (subtree d ?i)" by (rule length_filter_less) simp
  have p: "?p \<in> project_ids ?d1" using node_project_known [OF inv n] by (simp add: drop_nodes_def project_ids_def)
  have seq: "last_seq ?d1 = last_seq d" by (simp add: drop_nodes_def)
  obtain evs c1 where each: "sm_each (delete_event E ?p ?a) ?desc (within d ?d1) = (Inr evs, c1)"
    "last_seq (live c1) = last_seq d + int (length ?desc)" "?p \<in> project_ids (live c1)"
    using delete_events_run [OF codec, of "within d ?d1" ?desc ?p ?a] p seq room len by auto
  obtain ev e where last: "append_event E ?p '''' ''NODE_DELETED'' ?a (''deleted '' @ ?i) ?b c1 =
      (Inr ev, c1\<lparr>live := log_put e (live c1)\<rparr>)"
    using append_deletion_runs [of c1 E ?b ?p ?a "''deleted '' @ ?i"] each(2,3) room len
      json_valid_text [OF codec node_before_wf] by (fastforce simp: node_before_json_def)
  have run: "\<exists>x c. delete_node_tx E req ?p ?b ?desc (within d d) = (Inr x, c)"
    unfolding delete_node_tx_def Let_def
    using each(1) last [simplified]
    by (simp add: sm_bind_run del) (simp add: sm_bind_def record_idempotency_eq sm_return_def)
  have safe: "safe_body (delete_node_tx E req ?p ?b ?desc)"
    unfolding delete_node_tx_def Let_def by (intro safe_rules stmt_pres)
  have "filter (\<lambda>e. d_blocker_id e = ?i \<or> d_blocked_id e = ?i) (dependencies d) = []" if "dn_fail_if_referenced req"
    using free [OF that] by (auto simp: filter_empty_conv)
  then have guard: "sm_bind (if dn_fail_if_referenced req
           then sm_bind (read_db (count_edges_at ?i)) (\<lambda>deps.
             if deps > 0 then sm_throw (from_db_message ''node has dependents'') else sm_return ())
           else sm_return ()) g (idle d) = g () (idle d)" for g
    by (simp add: sm_bind_read row_simps sm_bind_def [of "sm_bind x y" for x y]) (simp add: sm_return_def)
  obtain x c where "delete_node_tx E req ?p ?b ?desc (within d d) = (Inr x, c)" using run by blast
  from committed_answer [OF safe inv commit this, of ?p "\<lambda>evs. evs" "\<lambda>evs. ?deps"] show ?thesis
    using n miss inv unfolding delete_node_locked_def Let_def node_prologue
    by (simp add: guard sm_bind_read external_dependents_ok descendants_ok)
qed

end
