(* ===== verification/Graph_Props.thy ===== *)
theory Graph_Props
  imports Graph_Runs Example
begin

text \<open>
  Properties of the writes that decide what is ready and what is blocked: the derived status
  against its specification, the dependency graph, and the completeness of the list of changed
  nodes that a write reports to its clients.
\<close>

section \<open>The derived status\<close>

text \<open>
  The specification, over the abstract graph: what a node declares, and what the nodes that
  block it declare.
\<close>

datatype readiness = Ready | Blocked | Deferred | Done

definition spec_status :: "string \<Rightarrow> string set \<Rightarrow> readiness" where
  "spec_status own blockers = (if own = ''DONE'' then Done else if own = ''DEFERRED'' then Deferred
     else if blockers \<subseteq> {''DONE''} then Ready else Blocked)"

definition blocker_states :: "db \<Rightarrow> string \<Rightarrow> string set" where
  "blocker_states d i = {n_declared_status b | b. b \<in> set (nodes d) \<and> (n_id b, i) \<in> set (dep_edges d)}"

fun readiness_code :: "readiness \<Rightarrow> int" where
  "readiness_code Ready = effective_status_i32 EffectiveStatus_Ready"
| "readiness_code Blocked = effective_status_i32 EffectiveStatus_Blocked"
| "readiness_code Deferred = effective_status_i32 EffectiveStatus_Deferred"
| "readiness_code Done = effective_status_i32 EffectiveStatus_Done"

lemma node_status_spec:
  "effective_status (node_status d n) = readiness_code (spec_status (n_declared_status n) (blocker_states d (n_id n)))"
proof -
  have "blocker_states d (n_id n) \<subseteq> {''DONE''} \<longleftrightarrow>
      \<not> (\<exists>b \<in> set (nodes d). (n_id b, n_id n) \<in> set (dep_edges d) \<and> n_declared_status b \<noteq> ''DONE'')"
    by (auto simp: blocker_states_def)
  then show ?thesis by (simp add: node_status_def blocked_iff spec_status_def effective_status_def) blast
qed



section \<open>Every change of a derived status is reported\<close>

text \<open>
  Completeness of \<open>SetStatus\<close>: any node whose derived status differs after the write, the
  node itself or a node that depends on it, is among the changed nodes of the mutation, with
  its new status. A client that applies the mutation has no stale status left.
\<close>

lemma set_status_reports_changes:
  assumes "db_inv d" "set_status_locked E req (idle d) = (Inr m, c')"
    and "n \<in> set (nodes d)" "n' \<in> set (nodes (live c'))" "n_id n' = n_id n"
    and "node_status (live c') n' \<noteq> node_status d n"
  shows "node_msg (live c') n' \<in> set (mu_changed_nodes m)"
  using assms(1,2)
proof (cases rule: set_status_outcome)
  case (retry n0 seq)
  then have "n' = n" using assms same_id_same_node [of d n' n] by (simp add: db_inv_def)
  then show ?thesis using retry assms(6) by simp
next
  case (fresh n0 d1 d')
  let ?i = "ss_node_id req" and ?f = "\<lambda>n. n\<lparr>n_declared_status := declared_str (ss_declared_status req)\<rparr>"
  have same: "same_graph d1 d'" using fresh(4) by simp
  have "n_id n' \<in> set (?i # blocks d ?i)"
  proof (rule ccontr)
    assume out: "n_id n' \<notin> set (?i # blocks d ?i)"
    obtain n1 where n1: "n1 \<in> set (nodes d)" "n' = (if n_id n1 = ?i then (?f n1)\<lparr>n_updated_at := clock E\<rparr> else n1)"
      using assms(4) fresh(3,6) same by (auto simp: same_graph_def put_node_def)
    have "n_id n1 \<noteq> ?i" using n1(2) out by (auto split: if_splits)
    then have "n' = n1" using n1(2) by simp
    then have "n' = n" using assms(1,3,5) n1(1) same_id_same_node [of d n1 n] by (simp add: db_inv_def)
    moreover have "node_status (live c') n = node_status d1 n"
      using fresh(6) same_graph_status [OF same] by simp
    moreover have "node_status d1 n = node_status d n"
      unfolding fresh(3) using out assms(3,5) by (intro node_status_put) (auto simp: set_blocks)
    ultimately show False using assms(6) by simp
  qed
  then show ?thesis using reported [of d' n'] fresh assms(4) by simp
qed

lemma insert_dependency_others:
  assumes "insert_dependency E a b d = Inr ((), d1)" "n_id n \<noteq> b"
  shows "node_status d1 n = node_status d n" "nodes d1 = nodes d"
  using insert_dependency_cases [OF assms(1)] assms(2)
  by (auto intro!: node_status_edges simp: dep_edges_def)

lemma delete_dependency_others:
  assumes "delete_dependency a b d = Inr ((), d1)" "n_id n \<noteq> b"
  shows "node_status d1 n = node_status d n" "nodes d1 = nodes d"
proof -
  have "(x, n_id n) \<in> set (dep_edges d1) \<longleftrightarrow> (x, n_id n) \<in> set (dep_edges d)" for x
    using assms by (force simp: delete_dependency_def dep_edges_def)
  moreover show "nodes d1 = nodes d" using assms(1) by (auto simp: delete_dependency_def)
  ultimately show "node_status d1 n = node_status d n" by (rule node_status_edges)
qed

text \<open>
  Completeness of \<open>AddDependency\<close>: the only derived status a new edge can change is that of
  the blocked node, and the mutation carries it.
\<close>

lemma add_dependency_reports_changes:
  assumes "db_inv d" "add_dependency_locked E req (idle d) = (Inr m, c')"
    and "n \<in> set (nodes d)" "n' \<in> set (nodes (live c'))" "n_id n' = n_id n"
    and "node_status (live c') n' \<noteq> node_status d n"
  shows "node_msg (live c') n' \<in> set (mu_changed_nodes m)"
  using assms(1,2)
proof (cases rule: add_dependency_outcome)
  case (retry seq)
  then have "n' = n" using assms same_id_same_node [of d n' n] by (simp add: db_inv_def)
  then show ?thesis using retry assms(6) by simp
next
  case (fresh d1 d')
  have same: "same_graph d1 d'" using fresh(3) by simp
  have "n_id n' = ad_blocked_id req"
  proof (rule ccontr)
    assume out: "n_id n' \<noteq> ad_blocked_id req"
    note o = insert_dependency_others [OF fresh(2) out]
    then have "n' \<in> set (nodes d)" using assms(4) fresh(5) same by (simp add: same_graph_def)
    then have "n' = n" using assms(1,3,5) same_id_same_node by (auto simp: db_inv_def)
    then show False using assms(6) o(1) fresh(5) same_graph_status [OF same] by simp
  qed
  then show ?thesis using reported [of d' n'] fresh assms(4) by simp
qed

text \<open>
  Completeness of \<open>RemoveDependency\<close>: removing an edge can change the derived status of the
  node that was blocked by it and of no other node, and the mutation carries that node.
\<close>

lemma remove_dependency_reports_changes:
  assumes "db_inv d" "remove_dependency_locked E req (idle d) = (Inr m, c')"
    and "n \<in> set (nodes d)" "n' \<in> set (nodes (live c'))" "n_id n' = n_id n"
    and "node_status (live c') n' \<noteq> node_status d n"
  shows "node_msg (live c') n' \<in> set (mu_changed_nodes m)"
  using assms(1,2)
proof (cases rule: remove_dependency_outcome)
  case (retry seq)
  then have "n' = n" using assms same_id_same_node [of d n' n] by (simp add: db_inv_def)
  then show ?thesis using retry assms(6) by simp
next
  case (fresh d1 d')
  have same: "same_graph d1 d'" using fresh(3) by simp
  have "n_id n' = rd_blocked_id req"
  proof (rule ccontr)
    assume out: "n_id n' \<noteq> rd_blocked_id req"
    note o = delete_dependency_others [OF fresh(2) out]
    then have "n' \<in> set (nodes d)" using assms(4) fresh(5) same by (simp add: same_graph_def)
    then have "n' = n" using assms(1,3,5) same_id_same_node by (auto simp: db_inv_def)
    then show False using assms(6) o(1) fresh(5) same_graph_status [OF same] by simp
  qed
  then show ?thesis using reported [of d' n'] fresh assms(4) by simp
qed

section \<open>The dependency graph\<close>

text \<open>
  C25: \<open>AddDependency\<close> refuses every edge that would close a cycle, a self-edge included, with a
  failed precondition, and leaves the session as it was.
\<close>

theorem add_dependency_refuses_cycle:
  assumes "ledger_hit d (edge_project d (ad_blocker_id req)) (idem_key (ad_meta req)) = None"
    and "(ad_blocked_id req, ad_blocker_id req) \<in> (set (dep_edges d))\<^sup>*"
  shows "add_dependency_locked E req (idle d) =
    (Inl \<lparr>err_code = FailedPrecondition, err_message = ''dependency would create a cycle''\<rparr>, idle d)"
proof -
  have "dependencies_no_cycle d (ad_blocker_id req) (ad_blocked_id req) = Some ''dependency would create a cycle''"
    using assms(2) dep_guard_None [of d "ad_blocker_id req" "ad_blocked_id req"]
    by (auto simp: dependencies_no_cycle_def split: if_splits)
  then have "insert_dependency E (ad_blocker_id req) (ad_blocked_id req) d =
      Inl (from_db_message ''dependency would create a cycle'')"
    by (simp add: insert_dependency_def)
  moreover have "keeps_mark (add_dependency_tx E req p)" for p
    unfolding add_dependency_tx_def append_event_def record_idempotency_def by (intro sm_rules)
  moreover have "classify ''dependency would create a cycle'' = FailedPrecondition" by code_simp
  ultimately show ?thesis using assms(1)
    by (simp add: add_dependency_locked_def edge_prologue edge_project_def Let_def in_tx_idle
        add_dependency_tx_def sm_bind_run sm_bind_def [of "in_tx E f" for f] from_db_message_def)
qed

lemma add_dependency_refuses_cycle_witness:
  "add_dependency_locked demo_env \<lparr>ad_meta = None, ad_blocker_id = ''b'', ad_blocked_id = ''a''\<rparr> (idle demo_db) =
    (Inl \<lparr>err_code = FailedPrecondition, err_message = ''dependency would create a cycle''\<rparr>, idle demo_db)"
  by (rule add_dependency_refuses_cycle)
    (code_simp, auto simp: dep_edges_def demo_db_def)

lemma dep_edges_same: "same_graph d d' \<Longrightarrow> dep_edges d' = dep_edges d"
  by (simp add: same_graph_def dep_edges_def)

text \<open>
  \<open>AddDependency\<close> refuses nothing else: an edge between two stored nodes that closes no cycle
  is accepted when the event counter is not exhausted and the commit succeeds, and the stored
  edges are then exactly the old ones and the new one.
\<close>

lemma add_dependency_accepts:
  assumes inv: "db_inv d" and codec: "json_codec E" and "commit_error E = None" and "last_seq d \<noteq> max_seq"
    and nodes: "ad_blocker_id req \<in> node_ids d" "ad_blocked_id req \<in> node_ids d"
    and "ledger_hit d (edge_project d (ad_blocker_id req)) (idem_key (ad_meta req)) = None"
    and acyc: "(ad_blocked_id req, ad_blocker_id req) \<notin> (set (dep_edges d))\<^sup>*"
  shows "\<exists>m d'. add_dependency_locked E req (idle d) = (Inr m, idle d') \<and>
    set (dep_edges d') = insert (ad_blocker_id req, ad_blocked_id req) (set (dep_edges d))"
proof -
  let ?a = "ad_blocker_id req" and ?b = "ad_blocked_id req"
  have ne: "?a \<noteq> ?b" using acyc by auto
  obtain d1 where d1: "insert_dependency E ?a ?b d = Inr ((), d1)"
      "set (dep_edges d1) = insert (?a, ?b) (set (dep_edges d))"
    using acyc ne nodes dep_guard_None [of d ?a ?b]
    by (cases "(?a, ?b) \<in> set (dep_edges d)")
      (auto simp: insert_dependency_def dep_edges_def intro: that)
  have "last_seq d < max_seq" using inv assms(4) by (simp add: inv_defs)
  then obtain m d' where "add_dependency_locked E req (idle d) = (Inr m, idle d')" "same_graph d1 d'"
    using add_dependency_runs [OF inv codec assms(3) _ nodes(1) assms(7) d1(1)] by blast
  then show ?thesis using d1(2) by (intro exI [of _ m] exI [of _ d']) (simp add: dep_edges_same)
qed

section \<open>What a status write does\<close>

text \<open>
  The effect of a \<open>SetStatus\<close> that is not a retry: the node declares the requested status (an
  unspecified code means done), its modification time is the write's, every other node, all
  edges, verifications and projects are unchanged, and exactly one event is appended, whose
  number the mutation returns.
\<close>

lemma set_status_effect:
  assumes "db_inv d" "set_status_locked E req (idle d) = (Inr m, c')"
    and "\<And>n. find_node d (ss_node_id req) = Some n \<Longrightarrow>
      ledger_hit d (n_project_id n) (idem_key (ss_meta req)) = None"
  shows "\<exists>n d' e. find_node d (ss_node_id req) = Some n \<and> c' = idle d' \<and>
    (\<forall>j. find_node d' j = (if j = ss_node_id req
       then Some (n\<lparr>n_declared_status := declared_str (ss_declared_status req), n_updated_at := clock E\<rparr>)
       else find_node d j)) \<and>
    dependencies d' = dependencies d \<and> verifications d' = verifications d \<and> projects d' = projects d \<and>
    events d' = events d @ [e] \<and> e_kind e = ''STATUS_SET'' \<and> e_node_id e = nullif (ss_node_id req) \<and>
    mu_seq m = e_seq e \<and> mu_events m = [event_msg e]"
  using assms(1,2)
proof (cases rule: set_status_outcome)
  case (retry n seq)
  then show ?thesis using assms(3) by auto
next
  case (fresh n d1 d')
  let ?f = "\<lambda>n. n\<lparr>n_declared_status := declared_str (ss_declared_status req)\<rparr>"
  have same: "same_graph d1 d'" using fresh(4) by simp
  have "find_node d' = find_node d1" using same_graph_msg(1) [OF same] .
  then have "\<forall>j. find_node d' j = (if j = ss_node_id req
       then Some (n\<lparr>n_declared_status := declared_str (ss_declared_status req), n_updated_at := clock E\<rparr>)
       else find_node d j)"
    using find_put_node [of ?f E "ss_node_id req" d] fresh(1,3) by simp
  then show ?thesis
    using fresh same by (auto simp: same_graph_def last_event_seq_def nullif_def)
qed

section \<open>Retries\<close>

text \<open>
  Exactly once: after a \<open>SetStatus\<close> with an idempotency key has succeeded, and whatever calls
  the session has served since then, repeating the request writes nothing and returns the
  event number of the first run, as long as the node is still there.
\<close>

lemma set_status_retry:
  assumes "db_inv d" "set_status_locked E req (idle d) = (Inr m, c1)" "idem_key (ss_meta req) \<noteq> None"
    and "calls c1 c2" "find_node d (ss_node_id req) = Some n" "find_node (live c2) (ss_node_id req) = Some n2"
    and "n_project_id n2 = n_project_id n"
  shows "set_status_locked E' req c2 = (Inr (empty_mutation (mu_seq m)), c2)"
proof -
  have hit: "ledger_hit (live c1) (n_project_id n) (idem_key (ss_meta req)) = Some (mu_seq m)"
    using assms(1,2)
  proof (cases rule: set_status_outcome)
    case (retry n0 seq)
    then show ?thesis using assms(5) by (simp add: empty_mutation_def)
  next
    case (fresh n0 d1 d')
    have "ledger_hit d1 (n_project_id n) (idem_key (ss_meta req)) = None"
      using fresh(1,2) assms(5) ledger_hit_cong [of d1 d] unfolding fresh(3) by simp
    from ledger_hit_tail [OF this assms(3)] show ?thesis
      unfolding fresh(4,6,7) using fresh(1) assms(5) by (simp add: last_event_seq_def)
  qed
  have "ledger_hit (live c2) (n_project_id n) (idem_key (ss_meta req)) = Some (mu_seq m)"
    using ledger_hit_le [OF calls_ledger [OF assms(4)] hit] .
  then show ?thesis
    using assms(6,7) unfolding set_status_locked_def Let_def node_prologue by simp
qed

end
