(* ===== verification/Node_Props.thy ===== *)
theory Node_Props
  imports Example
begin

text \<open>
  Properties of creating, updating and deleting nodes: what a deletion removes and reports, that
  its recursive query ends, what a creation stores and what a retry of it returns, and that a
  rejected write leaves no trace.
\<close>

section \<open>The recursive query\<close>

text \<open>
  C30: The recursive query of \<open>DeleteNode\<close>, a \<open>UNION ALL\<close> walk down the parent column that would
  run forever on a cycle, ends on every database of the program, and returns each row of the
  subtree once: the rows that the cascade of the deletion removes.
\<close>

theorem subtree_query_terminates:
  "db_inv d \<Longrightarrow> walk_all (parent_edges d) [i] [] = Some (subtree d i) \<and> distinct (subtree d i) \<and>
    set (subtree d i) = {j. (i, j) \<in> (set (parent_edges d))\<^sup>*}"
  using walk_all_root [OF parent_forest, of d i] closure_distinct [of "[]" "parent_edges d" "[i]"]
    sql_union.reach_set [of "parent_edges d" i]
  by (simp add: subtree_def)

lemma subtree_query_terminates_witness:
  "walk_all (parent_edges demo_db) [''a''] [] = Some [''a'', ''s'']"
proof -
  have "subtree demo_db ''a'' = [''a'', ''s'']" by code_simp
  then show ?thesis using subtree_query_terminates [OF demo_inv, of "''a''"] by simp
qed

lemma subtree_facts: "distinct (subtree d i)" "set (subtree d i) = {j. (i, j) \<in> (set (parent_edges d))\<^sup>*}"
  using closure_distinct [of "[]" "parent_edges d" "[i]"] sql_union.reach_set [of "parent_edges d" i]
  by (simp_all add: subtree_def)

section \<open>DeleteNode\<close>

lemma length_deletions:
  assumes "map f es = map g (filter (\<lambda>s. s \<noteq> i) xs) @ [y]" "distinct xs" "i \<in> set xs"
  shows "length es = card (set xs)"
proof -
  have "length es = length (filter (\<lambda>s. s \<noteq> i) xs) + 1"
    using arg_cong [OF assms(1), of length] by simp
  also have "length (filter (\<lambda>s. s \<noteq> i) xs) = card (set xs - {i})"
    using distinct_card [of "filter (\<lambda>s. s \<noteq> i) xs"] assms(2) by (simp add: set_diff_eq)
  finally show ?thesis using assms(3) by (simp add: card_Suc_Diff1 [OF finite_set] del: card_Diff_insert)
qed

text \<open>
  C7: The effect of a \<open>DeleteNode\<close> that is not a retry: exactly the node and everything below it
  is gone, together with the edges, verifications and events of those nodes; the log receives
  one node-less deletion event per removed node, the last of which is the cursor returned.
\<close>

theorem delete_node_effect:
  assumes "db_inv d" "delete_node_locked E req (idle d) = (Inr m, c')"
    and "\<And>n. find_node d (dn_node_id req) = Some n \<Longrightarrow>
      ledger_hit d (n_project_id n) (idem_key (dn_meta req)) = None"
    and S: "S = {j. (dn_node_id req, j) \<in> (set (parent_edges d))\<^sup>*}"
  shows "\<exists>d' es. c' = idle d' \<and> nodes d' = filter (\<lambda>n. n_id n \<notin> S) (nodes d) \<and>
    dependencies d' = filter (\<lambda>e. d_blocker_id e \<notin> S \<and> d_blocked_id e \<notin> S) (dependencies d) \<and>
    verifications d' = filter (\<lambda>v. v_node_id v \<notin> S) (verifications d) \<and>
    events d' = filter (\<lambda>e. case e_node_id e of None \<Rightarrow> True | Some i \<Rightarrow> i \<notin> S) (events d) @ es \<and>
    length es = card S \<and> (\<forall>e \<in> set es. e_kind e = ''NODE_DELETED'' \<and> e_node_id e = None) \<and>
    mu_seq m = e_seq (last es)"
  using assms(1,2)
proof (cases rule: delete_node_outcome)
  case (retry n seq)
  then show ?thesis using assms(3) by auto
next
  case (fresh n d' es)
  let ?s = "subtree d (dn_node_id req)"
  have set: "set ?s = S" using subtree_facts(2) S by simp
  have "dn_node_id req \<in> set ?s" by (rule subtree_self)
  then have len: "length es = card S"
    using length_deletions [OF fresh(8) subtree_facts(1)] set by simp
  have ne: "es \<noteq> []" using fresh(8) by auto
  have "mu_seq m = e_seq (last es)"
    using ne by (simp add: fresh(9) last_event_seq_def last_map)
  then show ?thesis
    using fresh(3,5,6,7) len set by (auto simp: same_graph_def drop_nodes_def is_deletion_def)
qed

lemma demo_subtree: "{j. (''a'', j) \<in> (set (parent_edges demo_db))\<^sup>*} = {''a'', ''s''}"
proof -
  have "subtree demo_db ''a'' = [''a'', ''s'']" by code_simp
  then show ?thesis using subtree_facts(2) [of demo_db "''a''"] by simp
qed

lemma delete_node_effect_witness:
  "\<exists>d' (es :: event_row list). snd (delete_node_locked demo_env \<lparr>dn_meta = None, dn_node_id = ''a'', dn_fail_if_referenced = False\<rparr>
      (idle demo_db)) = idle d' \<and> map n_id (nodes d') = [''w'', ''b''] \<and> dependencies d' = [] \<and>
    map e_seq (events d') = [2, 4] @ map e_seq es \<and> length es = 2"
proof -
  let ?req = "\<lparr>dn_meta = None, dn_node_id = ''a'', dn_fail_if_referenced = False\<rparr>"
  let ?out = "delete_node_locked demo_env ?req (idle demo_db)" and ?S = "{''a'', ''s''}"
  have "\<not> isl (fst ?out)" by code_simp
  then have run: "?out = (Inr (projr (fst ?out)), snd ?out)" by (simp add: prod_eq_iff)
  have miss: "ledger_hit demo_db p (idem_key (dn_meta ?req)) = None" for p
    by (simp add: ledger_hit_def idem_key_def)
  have S: "?S = {j. (dn_node_id ?req, j) \<in> (set (parent_edges demo_db))\<^sup>*}"
    using demo_subtree by simp
  obtain d' es where d: "snd ?out = idle d'" "nodes d' = filter (\<lambda>n. n_id n \<notin> ?S) (nodes demo_db)"
    "dependencies d' = filter (\<lambda>e. d_blocker_id e \<notin> ?S \<and> d_blocked_id e \<notin> ?S) (dependencies demo_db)"
    "events d' = filter (\<lambda>e. case e_node_id e of None \<Rightarrow> True | Some i \<Rightarrow> i \<notin> ?S) (events demo_db) @ es"
    "length es = card ?S" "\<forall>e \<in> set es. e_kind e = ''NODE_DELETED'' \<and> e_node_id e = None"
    using delete_node_effect [OF demo_inv run miss S] by blast
  have "map n_id (filter (\<lambda>n. n_id n \<notin> ?S) (nodes demo_db)) = [''w'', ''b'']"
    "filter (\<lambda>e. d_blocker_id e \<notin> ?S \<and> d_blocked_id e \<notin> ?S) (dependencies demo_db) = []"
    "map e_seq (filter (\<lambda>e. case e_node_id e of None \<Rightarrow> True | Some i \<Rightarrow> i \<notin> ?S) (events demo_db)) = [2, 4]"
    by code_simp+
  then show ?thesis using d(1-3,5) by (intro exI [of _ d'] exI [of _ es]) (simp add: d(4))
qed

text \<open>
  Completeness of \<open>DeleteNode\<close>: a node that survives and whose derived status changes because
  a blocker went away with the subtree is among the changed nodes of the mutation.
\<close>

lemma delete_node_reports_changes:
  assumes "db_inv d" "delete_node_locked E req (idle d) = (Inr m, c')"
    and "n \<in> set (nodes d)" "n' \<in> set (nodes (live c'))" "n_id n' = n_id n"
    and "node_status (live c') n' \<noteq> node_status d n"
  shows "node_msg (live c') n' \<in> set (mu_changed_nodes m)"
  using assms(1,2)
proof (cases rule: delete_node_outcome)
  case (retry n0 seq)
  then have "n' = n" using assms same_id_same_node [of d n' n] by (simp add: db_inv_def)
  then show ?thesis using retry assms(6) by simp
next
  case (fresh n0 d' es)
  let ?s = "subtree d (dn_node_id req)" and ?d = "drop_nodes (subtree d (dn_node_id req)) d"
  have n': "n' \<in> set (nodes d)" "n_id n' \<notin> set ?s"
    using assms(4) fresh(3,5) by (auto simp: same_graph_def drop_nodes_def)
  then have eq: "n' = n" using assms(1,3,5) same_id_same_node [of d n' n] by (simp add: db_inv_def)
  have "\<exists>b \<in> set ?s. (b, n_id n) \<in> set (dep_edges d)"
  proof (rule ccontr)
    assume none: "\<not> (\<exists>b \<in> set ?s. (b, n_id n) \<in> set (dep_edges d))"
    have e: "(a, n_id n) \<in> set (dep_edges ?d) \<longleftrightarrow> (a, n_id n) \<in> set (dep_edges d)" for a
      using none n'(2) eq by (auto simp: dep_edges_iff drop_nodes_def)
    have "(\<exists>b \<in> set (nodes ?d). (n_id b, n_id n) \<in> set (dep_edges d) \<and> n_declared_status b \<noteq> ''DONE'') \<longleftrightarrow>
        (\<exists>b \<in> set (nodes d). (n_id b, n_id n) \<in> set (dep_edges d) \<and> n_declared_status b \<noteq> ''DONE'')"
      using none by (auto simp: drop_nodes_def)
    then have "node_status ?d n = node_status d n"
      by (simp add: node_status_def blocked_iff e)
    then show False using assms(6) eq fresh(5) same_graph_status [OF fresh(3)] by simp
  qed
  then have "n_id n' \<in> set (outer_dependents d ?s)"
    using n'(2) eq by (auto simp: set_outer_dependents)
  then show ?thesis
    using reported [of d' n'] fresh assms(4) by simp
qed

text \<open>
  A retried \<open>DeleteNode\<close> is not recognised as a retry: after the first run, whatever its
  idempotency key, the same request is answered with a not-found error, because the node is
  looked up before the ledger.
\<close>

lemma delete_node_retry_not_found:
  assumes "db_inv d" "delete_node_locked E req (idle d) = (Inr m, c')"
    and "\<And>n. find_node d (dn_node_id req) = Some n \<Longrightarrow>
      ledger_hit d (n_project_id n) (idem_key (dn_meta req)) = None"
  shows "delete_node_locked E' req c' = (Inl \<lparr>err_code = NotFound, err_message = ''node not found''\<rparr>, c')"
  using assms(1,2)
proof (cases rule: delete_node_outcome)
  case (retry n seq)
  then show ?thesis using assms(3) by auto
next
  case (fresh n d' es)
  let ?s = "subtree d (dn_node_id req)"
  have "find_node d' = find_node (drop_nodes ?s d)" by (rule same_graph_msg(1) [OF fresh(3)])
  moreover have "find_node (drop_nodes ?s d) (dn_node_id req) = None"
    using subtree_self [of "dn_node_id req" d] by (simp add: find_node_None node_ids_drop)
  moreover have "classify ''node not found'' = NotFound" by code_simp
  ultimately show ?thesis
    unfolding fresh(5) delete_node_locked_def Let_def node_prologue
    by (simp add: from_db_message_def)
qed

end
