(* ===== verification/Feed_Props.thy ===== *)
theory Feed_Props
  imports Example
begin

text \<open>
  Properties of what clients read: the event feed in pages, forwards and backwards, the project
  snapshot, and the progress of work packages.
\<close>

section \<open>Pages\<close>



text \<open>
  A client that pages backwards with \<open>ListEvents\<close>, passing the number of the oldest event it
  has as \<open>before_seq\<close>, receives every event of the project (or of the chosen node) exactly once,
  newest first, for every page size below the largest \<open>i32\<close>.
\<close>

lemma list_events_complete:
  "db_inv d \<Longrightarrow> 0 < k \<Longrightarrow> int k < 2147483647 \<Longrightarrow> length (node_log pid i d) \<le> n \<Longrightarrow>
   drain n (list_page pid i k d) (\<lambda>e. - ev_seq e) None = rev (node_log pid i d)"
  by (rule listing.drain_complete) (simp_all add: db_inv_def)

text \<open>
  The flag \<open>has_more\<close> of \<open>ListEvents\<close> is exact: it is set when and only when the page does not
  hold every matching event older than the cursor.
\<close>

lemma list_events_has_more:
  assumes "db_inv d" "0 < l" "l < 2147483647" "list_events_locked pid i b l d = Inr (rows, has_more)"
  shows "has_more \<longleftrightarrow> length rows < length (filter (before_ok b) (node_log pid i d))"
proof -
  let ?older = "filter (before_ok b) (rev (node_log pid i d))"
  have l: "is_i32 l" "max l 1 = l" using assms(2,3) by (auto simp: is_i32_def)
  have rows: "rows = take (nat l) ?older" "has_more \<longleftrightarrow> l < wrap32 (int (min (nat l + 1) (length ?older)))"
    using assms(1,3,4) l by (auto simp: list_events_ok db_inv_def Let_def)
  have "wrap32 (int (min (nat l + 1) (length ?older))) = int (min (nat l + 1) (length ?older))"
    using assms(2,3) by (intro wrap32_id) (auto simp: is_i32_def)
  then have "has_more \<longleftrightarrow> nat l < length ?older" using rows(2) assms(2) by auto
  moreover have "length ?older = length (filter (before_ok b) (node_log pid i d))"
    by (simp add: rev_filter [symmetric])
  ultimately show ?thesis using rows(1) by auto
qed

section \<open>Progress\<close>

lemma node_status_range:
  "node_status d n \<in> {''DONE'', ''DEFERRED'', ''READY'', ''BLOCKED''}"
  by (simp add: node_status_def)

lemma count_partition:
  assumes "set xs \<subseteq> {''DONE'', ''DEFERRED'', ''READY'', ''BLOCKED''}"
  shows "count_of ''DONE'' xs + count_of ''READY'' xs + count_of ''BLOCKED'' xs + count_of ''DEFERRED'' xs
    = int (length xs)"
  using assms by (induction xs) (auto simp: count_of_def)

lemma count_bounds: "0 \<le> count_of x xs" "count_of x xs \<le> int (length xs)"
  by (simp_all add: count_of_def)

lemma wrap32_small: "0 \<le> x \<Longrightarrow> x < 2147483648 \<Longrightarrow> wrap32 x = x"
  by (rule wrap32_id) (simp add: is_i32_def)

lemma group_rows_vals:
  "g \<in> set (group_rows ps) \<Longrightarrow> set (snd g) \<subseteq> snd ` set ps \<and> length (snd g) \<le> length ps \<and> snd g \<noteq> []"
proof -
  assume "g \<in> set (group_rows ps)"
  then have "fst g \<in> fst ` set ps" "snd g = map snd (filter (\<lambda>p. fst p = fst g) ps)"
    by (force simp: group_rows_def)+
  then show ?thesis by (fastforce simp: filter_empty_conv)
qed

lemma progress_pairs_status: "snd ` set (progress_pairs pid d) \<subseteq> {''DONE'', ''DEFERRED'', ''READY'', ''BLOCKED''}"
  using node_status_range by (fastforce simp: progress_pairs_def)

text \<open>
  The progress of a work package accounts for each of its leaves exactly once: the total is
  positive and is the sum of the done, ready, blocked and deferred counts, as long as the
  project has fewer leaves than an \<open>i32\<close> can count.
\<close>

lemma progress_counts_partition:
  assumes "db_inv d" "progress_for pid d = Inr ps" "p \<in> set ps"
    and "int (length (progress_pairs pid d)) < 2147483648"
  shows "pg_total p = pg_done p + pg_ready p + pg_blocked p + pg_deferred p \<and> 0 < pg_total p"
proof -
  obtain g where g: "g \<in> set (group_rows (progress_pairs pid d))" "p = progress_msg g"
    using assms(1-3) by (auto simp: progress_for_ok db_inv_def progress_of_def)
  note v = group_rows_vals [OF g(1)]
  have "set (snd g) \<subseteq> {''DONE'', ''DEFERRED'', ''READY'', ''BLOCKED''}"
    using v progress_pairs_status [of pid d] by (meson order_trans)
  note sum = count_partition [OF this]
  have "wrap32 (count_of x (snd g)) = count_of x (snd g)" for x
    using count_bounds [of x "snd g"] v assms(4) by (intro wrap32_small) linarith+
  moreover have "wrap32 (int (length (snd g))) = int (length (snd g))"
    using v assms(4) by (intro wrap32_small) linarith+
  ultimately show ?thesis using sum v by (simp add: g(2) progress_msg_def)
qed

text \<open>
  Progress lists exactly the work packages of the project that have tasks, each once.
\<close>

lemma progress_lists_packages:
  assumes "db_inv d" "progress_for pid d = Inr ps"
  shows "set (map pg_work_package_id ps) =
      {w. \<exists>t \<in> set (nodes d). n_kind t = ''TASK'' \<and> n_project_id t = pid \<and> n_parent_id t = Some w} \<and>
    distinct (map pg_work_package_id ps)"
proof -
  have inv: "keys_inv d" "hierarchy_inv d" using assms(1) by (simp_all add: db_inv_def)
  have ps: "map pg_work_package_id ps = map (\<lambda>g. the (fst g)) (group_rows (progress_pairs pid d))"
    using assms(2) by (auto simp: progress_for_ok [OF inv(2)] progress_of_def progress_msg_def)
  have keys: "map fst (group_rows (progress_pairs pid d)) = sort (remdups (map fst (progress_pairs pid d)))"
    by (simp add: group_rows_def comp_def)
  have leaf: "\<exists>i \<in> set (leaf_ids d t). \<exists>l \<in> set (nodes d). n_id l = i" if "t \<in> set (nodes d)" for t
    using that by (auto simp: leaf_ids_def steps_of_def filter_eq_Cons_iff split: list.splits)
  have fst: "fst ` set (progress_pairs pid d) =
      n_parent_id ` {t \<in> set (nodes d). n_kind t = ''TASK'' \<and> n_project_id t = pid}" (is "_ = _ ` ?T")
  proof (intro equalityI subsetI)
    fix w
    assume "w \<in> n_parent_id ` ?T"
    then obtain t where t: "t \<in> ?T" "w = n_parent_id t" by blast
    then obtain l where "l \<in> set (nodes d)" "n_id l \<in> set (leaf_ids d t)" using leaf by blast
    then have "(w, node_status d l) \<in> set (progress_pairs pid d)"
      using t by (auto simp: progress_pairs_def)
    then show "w \<in> fst ` set (progress_pairs pid d)" by force
  qed (auto simp: progress_pairs_def)
  have some: "None \<notin> fst ` set (progress_pairs pid d)"
    using progress_pairs_key [OF inv(2)] by fastforce
  have "map pg_work_package_id ps = map the (map fst (group_rows (progress_pairs pid d)))"
    by (simp add: ps)
  then have eq: "map pg_work_package_id ps = map the (sort (remdups (map fst (progress_pairs pid d))))"
    by (simp only: keys)
  have "inj_on the (fst ` set (progress_pairs pid d))"
    using some by (intro inj_onI) (metis option.expand)
  then have "distinct (map pg_work_package_id ps)" by (simp add: eq distinct_map)
  moreover have "set (map pg_work_package_id ps) = the ` fst ` set (progress_pairs pid d)" by (simp add: eq)
  moreover have "the ` fst ` set (progress_pairs pid d) =
      {w. \<exists>t \<in> set (nodes d). n_kind t = ''TASK'' \<and> n_project_id t = pid \<and> n_parent_id t = Some w}"
    unfolding fst using task_has_parent [OF inv(2)] by force
  ultimately show ?thesis by simp
qed

end
