(* ===== verification/Undo_Rules.thy ===== *)
theory Undo_Rules
  imports Graph_Runs
begin

text \<open>
  What an undo does, in terms of the event it finds and of the payload that the undone write has
  left there.
\<close>

section \<open>Evaluating an undo\<close>

lemma undo_eval:
  assumes "undo_target req d = Inr (Some ev)"
    and "ledger_hit d (ev_project_id ev) (idem_key (ud_meta req)) = None"
  shows "undo_locked E req (idle d) = sm_bind (in_tx E (undo_tx E req ev)) (\<lambda>(inverse, affected).
    read_db (finish_mutation (ev_project_id ev) [inverse] affected)) (idle d)"
  using assms by (simp add: undo_locked_def sm_bind_read check_ledger_hit Let_def)

lemma undo_outcome:
  assumes inv: "db_inv d" and target: "undo_target req d = Inr (Some ev)"
    and miss: "ledger_hit d (ev_project_id ev) (idem_key (ud_meta req)) = None"
    and run: "undo_locked E req (idle d) = (Inr m, c')"
  obtains affected k s i d1 d' where
    "undo_inverse E (ev_kind ev) (ev_payload_json ev) (ev_node_id ev) (within d d) =
       (Inr (affected, k, s, i), within d d1)"
    "same_graph d1 d'" "db_inv d'" "c' = idle d'" "mu_changed_nodes m = nodes_of d' affected"
    "\<exists>e. mu_events m = [event_msg e] \<and> e_kind e = k"
proof -
  obtain r d2 where f: "undo_tx E req ev (within d d) = (Inr r, within d d2)" and inv2: "db_inv d2"
    and g: "(case r of (inv_ev, affected) \<Rightarrow>
      read_db (finish_mutation (ev_project_id ev) [inv_ev] affected)) (idle d2) = (Inr m, c')"
    using tx_committed_inv [OF safe_undo_tx inv run [unfolded undo_eval [OF target miss]]] by blast
  obtain x c1 where x: "undo_inverse E (ev_kind ev) (ev_payload_json ev) (ev_node_id ev) (within d d) = (Inr x, c1)"
    and rest: "(case x of (affected, kind, summary, inverse_node) \<Rightarrow>
     sm_bind (append_event E (ev_project_id ev) inverse_node kind (author_of (ud_meta req)) summary ''{}'') (\<lambda>inv_ev.
     sm_bind (record_idempotency E (ev_project_id ev) (idem_key (ud_meta req)) (ev_seq inv_ev)) (\<lambda>_.
     sm_return (inv_ev, affected)))) c1 = (Inr r, within d d2)"
    using f unfolding undo_tx_def by (rule sm_bind_InrE)
  obtain affected k s i where x': "x = (affected, k, s, i)" by (cases x) auto
  have c1: "c1 = within d (live c1)"
    using keeps_markD [of "undo_inverse E (ev_kind ev) (ev_payload_json ev) (ev_node_id ev)" "within d d"] x
      safe_undo_inverse by (fastforce simp: safe_body_def within_of_mark)
  obtain inv_ev c2 where app: "append_event E (ev_project_id ev) i k (author_of (ud_meta req)) s ''{}'' c1 = (Inr inv_ev, c2)"
    and r: "r = (inv_ev, affected)" and d2: "within d d2 = c2\<lparr>live := ledger_put E (ev_project_id ev)
      (idem_key (ud_meta req)) (ev_seq inv_ev) None (live c2)\<rparr>"
    using rest by (auto simp: x' record_idempotency_eq sm_return_def elim!: sm_bind_InrE)
  have "same_graph (live c1) d2"
    using arg_cong [OF d2, of live] append_event_InrD(2) [OF app] by (simp add: same_graph_def)
  moreover have "m = mutation_of (ev_project_id ev) [inv_ev] affected d2" "c' = idle d2"
    using g inv2 by (simp_all add: r finish_read)
  moreover have "undo_inverse E (ev_kind ev) (ev_payload_json ev) (ev_node_id ev) (within d d) =
      (Inr (affected, k, s, i), within d (live c1))"
    using x x' c1 by simp
  moreover have "\<exists>e. inv_ev = event_msg e \<and> e_kind e = k"
    using append_event_InrD(1) [OF app] event_entry_sel(2) by blast
  ultimately show thesis using that inv2 by (simp add: mutation_of_def)
qed

text \<open>The event with a given number of a given project is the one that undo finds.\<close>

lemma undo_target_of:
  assumes "log_inv d" "e \<in> set (events d)" "ud_project_id req = e_project_id e" "ud_seq req = e_seq e"
  shows "undo_target req d = Inr (Some (event_msg e))"
proof -
  have "sorted_wrt (<) (map e_seq (events d))" "0 < e_seq e"
    using assms(1,2) by (auto simp: log_inv_def event_ok_def)
  then have "distinct (map e_seq (filter (\<lambda>x. e_project_id x = e_project_id e) (events d)))"
    by (simp add: strict_sorted_iff distinct_map_filter_key)
  then have "find (\<lambda>x. e_seq x = e_seq e) (filter (\<lambda>x. e_project_id x = e_project_id e) (events d)) = Some e"
    using assms(2) by (simp add: find_Some_iff_key)
  then show ?thesis
    using assms(3,4) \<open>0 < e_seq e\<close> by (simp add: undo_target_def proto_event_ok)
qed

section \<open>Payloads\<close>

lemma status_payload_before:
  assumes "json_codec E" "json_parse E' = json_parse E"
  shows "payload_get E' (json_text E (status_payload prior new)) ''before'' = Some prior"
  using assms status_payload_wf [of prior new]
  by (simp add: json_codec_def payload_get_def status_payload_def)

lemma edge_payload_get:
  assumes "json_codec E" "json_parse E' = json_parse E"
  shows "payload_edge E' (json_text E (edge_payload a b)) = Inr (a, b)"
  using assms edge_payload_wf [of a b]
  by (simp add: json_codec_def payload_edge_def payload_get_def edge_payload_def)

text \<open>A node is restored from the payload of its deletion, but for the two times.\<close>

lemma before_fields:
  assumes "json_get (node_before m) ''before'' = Some obj"
  shows "str_val obj ''id'' = nd_id m" "str_val obj ''project_id'' = nd_project_id m"
    "str_val obj ''parent_id'' = nd_parent_id m" "str_val obj ''kind'' = kind_str (nd_kind m)"
    "str_val obj ''title'' = nd_title m" "str_val obj ''description'' = nd_description m"
    "str_val obj ''condition'' = nd_condition m" "str_val obj ''reference'' = nd_reference m"
    "str_val obj ''note'' = nd_note m" "str_val obj ''declared_status'' = declared_str (nd_declared_status m)"
    "json_get obj ''position'' = Some (JInt (nd_position m))"
    "json_get obj ''wp_state'' = Some (json_of_opt
      (if nd_kind m = node_kind_i32 NodeKind_WorkPackage then wp_str (nd_wp_state m) else None))"
proof -
  have "obj = JObj [
        (''condition'', JStr (nd_condition m)),
        (''declared_status'', JStr (declared_str (nd_declared_status m))),
        (''description'', JStr (nd_description m)),
        (''id'', JStr (nd_id m)),
        (''kind'', JStr (kind_str (nd_kind m))),
        (''note'', JStr (nd_note m)),
        (''parent_id'', JStr (nd_parent_id m)),
        (''position'', JInt (nd_position m)),
        (''project_id'', JStr (nd_project_id m)),
        (''reference'', JStr (nd_reference m)),
        (''title'', JStr (nd_title m)),
        (''wp_state'', json_of_opt
          (if nd_kind m = node_kind_i32 NodeKind_WorkPackage then wp_str (nd_wp_state m) else None))]"
    using assms by (simp add: node_before_def Let_def)
  then show "str_val obj ''id'' = nd_id m" "str_val obj ''project_id'' = nd_project_id m"
    "str_val obj ''parent_id'' = nd_parent_id m" "str_val obj ''kind'' = kind_str (nd_kind m)"
    "str_val obj ''title'' = nd_title m" "str_val obj ''description'' = nd_description m"
    "str_val obj ''condition'' = nd_condition m" "str_val obj ''reference'' = nd_reference m"
    "str_val obj ''note'' = nd_note m" "str_val obj ''declared_status'' = declared_str (nd_declared_status m)"
    "json_get obj ''position'' = Some (JInt (nd_position m))"
    "json_get obj ''wp_state'' = Some (json_of_opt
      (if nd_kind m = node_kind_i32 NodeKind_WorkPackage then wp_str (nd_wp_state m) else None))"
    by (simp_all add: str_val_def)
qed

definition plain_row :: "node_row \<Rightarrow> bool" where
  "plain_row n \<longleftrightarrow> n_reference n \<noteq> Some [] \<and> n_parent_id n \<noteq> Some [] \<and> is_i32 (n_position n)"

lemma json_as_str_of_opt [simp]: "json_as_str (json_of_opt s) = s"
  by (cases s) simp_all

lemma restored_row_of:
  assumes "check_node n = None" "plain_row n" "json_get (node_before (node_msg d n)) ''before'' = Some obj"
  shows "restored_row E obj = n\<lparr>n_created_at := clock E, n_updated_at := clock E\<rparr>"
proof -
  have c: "kind_ok (n_kind n)" "declared_ok (n_declared_status n)" "wp_state_ok (n_wp_state n)" "shape_ok n"
    using assms(1) by (auto simp: check_node_def split: if_splits)
  have fields: "nd_title (node_msg d n) = n_title n" "nd_description (node_msg d n) = n_description n"
    "nd_condition (node_msg d n) = n_condition n" "nd_note (node_msg d n) = n_note n"
    "nd_reference (node_msg d n) = (case n_reference n of None \<Rightarrow> [] | Some r \<Rightarrow> r)"
    "nd_position (node_msg d n) = wrap32 (n_position n)"
    "nd_wp_state (node_msg d n) = work_package_state_i32 (wp_state_of_str (n_wp_state n))"
    by (simp_all add: node_msg_def bare_node_msg_def)
  have kind: "kind_str (nd_kind (node_msg d n)) = n_kind n" using c(1) by (simp add: kind_str_of_row)
  have declared: "declared_str_from (declared_str (nd_declared_status (node_msg d n))) = n_declared_status n"
    using c(2) by (simp add: declared_str_of_row declared_str_from_id)
  have pos: "wrap32 (wrap32 (n_position n)) = n_position n" "is_i64 (wrap32 (n_position n))"
    using assms(2) by (auto simp: plain_row_def is_i32_def is_i64_def wrap32_id)
  have opt: "nullif (case x of None \<Rightarrow> [] | Some s \<Rightarrow> s) = x" if "x \<noteq> Some []" for x
    using that by (auto simp: nullif_def split: option.splits)
  have refs: "nullif (nd_parent_id (node_msg d n)) = n_parent_id n" "nullif (nd_reference (node_msg d n)) = n_reference n"
    using opt assms(2) by (simp_all add: plain_row_def fields)
  have wp: "(if n_kind n = ''WORK_PACKAGE'' then wp_state_str
      (if nd_kind (node_msg d n) = node_kind_i32 NodeKind_WorkPackage then wp_str (nd_wp_state (node_msg d n)) else None)
      else None) = n_wp_state n"
    using c(3,4) wp_str_of_row [OF c(3)] wp_state_str_id [OF c(3)]
    by (auto simp: shape_ok_def fields kind_of_str_def)
  show ?thesis
    unfolding restored_row_def Let_def before_fields [OF assms(3)] kind declared refs option.case
      json_as_str_of_opt wp
    by (simp add: fields pos)
qed

text \<open>An undo of an event by its number runs the inverse of that event.\<close>

lemma undo_of_event:
  assumes inv: "db_inv d" and run: "undo_locked E r c = (Inr m, c2)" "c = idle d"
    and e: "e \<in> set (events d)" "ud_project_id r = e_project_id e" "ud_seq r = e_seq e"
    and first: "ledger_hit (live c) (e_project_id e) (idem_key (ud_meta r)) = None"
  obtains affected k s j d2 d'' where "undo_inverse E (event_kind_i32 (event_kind_of_str (e_kind e))) (e_payload e)
      (case e_node_id e of None \<Rightarrow> '''' | Some i \<Rightarrow> i) (within d d) = (Inr (affected, k, s, j), within d d2)"
    "same_graph d2 d''" "c2 = idle d''"
proof -
  have target: "undo_target r d = Inr (Some (event_msg e))"
    using inv e by (intro undo_target_of) (simp_all add: db_inv_def)
  have miss: "ledger_hit d (ev_project_id (event_msg e)) (idem_key (ud_meta r)) = None"
    using first by (simp add: event_msg_def run(2))
  have run': "undo_locked E r (idle d) = (Inr m, c2)" using run by simp
  from undo_outcome [OF inv target miss run'] show thesis
    unfolding event_msg_def pb_event.simps by (metis that)
qed

end
