(* ===== verification/Undo_Props.thy ===== *)
theory Undo_Props
  imports Undo_Rules Example
begin

text \<open>
  Undo against the write it reverses: a status change and a new edge are taken back exactly, up to
  modification times; of a deletion only the deleted node itself comes back.
\<close>

section \<open>Undoing a status change\<close>

text \<open>
  C11: Undo inverts \<open>SetStatus\<close>: undoing the event of a status change restores the declared status
  of the node, and with it the derived status of every node; only the modification time of
  the node tells that something happened. Nodes, edges and verifications are otherwise those
  of before.
\<close>

theorem undo_inverts_set_status:
  assumes inv: "db_inv d" and codec: "json_codec E" "json_parse E' = json_parse E"
    and run: "set_status_locked E req (idle d) = (Inr m, c1)"
    and n: "find_node d (ss_node_id req) = Some n" and id: "ss_node_id req \<noteq> ''''"
    and fresh: "ledger_hit d (n_project_id n) (idem_key (ss_meta req)) = None"
    and undo: "undo_locked E' r c1 = (Inr m', c2)" "ud_project_id r = n_project_id n" "ud_seq r = mu_seq m"
    and first: "ledger_hit (live c1) (n_project_id n) (idem_key (ud_meta r)) = None"
  shows "\<exists>d2. c2 = idle d2 \<and> dependencies d2 = dependencies d \<and> verifications d2 = verifications d \<and>
    (\<forall>j. find_node d2 j = (if j = ss_node_id req then Some (n\<lparr>n_updated_at := clock E'\<rparr>) else find_node d j))"
  using inv run
proof (cases rule: set_status_outcome)
  case (retry n0 seq)
  then show ?thesis using n fresh by simp
next
  case (fresh n0 d1 d')
  let ?i = "ss_node_id req" and ?new = "declared_str (ss_declared_status req)"
  let ?e = "event_entry E (n_project_id n) ?i ''STATUS_SET'' (author_of (ss_meta req)) (?i @ '' -> '' @ ?new)
    (json_text E (status_payload (n_declared_status n) ?new)) d1"
  have n0: "n0 = n" using fresh(1) n by simp
  have same: "same_graph d1 d'" using fresh(4) by simp
  have d1: "events d1 = events d" "last_seq d1 = last_seq d" by (simp_all add: fresh(3))
  have seq: "mu_seq m = last_seq d + 1" by (simp add: fresh(7) last_event_seq_def d1)
  have "?e \<in> set (events d')" by (simp add: fresh(4) n0)
  then obtain affected k s j d2 d'' where u: "undo_inverse E' (event_kind_i32 (event_kind_of_str (e_kind ?e)))
      (e_payload ?e) (case e_node_id ?e of None \<Rightarrow> '''' | Some i \<Rightarrow> i) (within d' d') = (Inr (affected, k, s, j), within d' d2)"
    and same2: "same_graph d2 d''" and c2: "c2 = idle d''"
    by (rule undo_of_event [OF fresh(5) undo(1) fresh(6)]) (use undo(2,3) first in \<open>simp_all add: seq d1\<close>)
  have u': "undo_status_set E' (json_text E (status_payload (n_declared_status n) ?new)) ?i (within d' d') =
      (Inr (affected, k, s, j), within d' d2)"
    using u id by (simp add: undo_inverse_def event_kind_of_str_def event_entry_def)
  let ?f = "\<lambda>n'. n'\<lparr>n_declared_status := n_declared_status n\<rparr>"
  have "\<exists>x. find_node d' ?i = Some x"
    using find_put_node [of "\<lambda>n. n\<lparr>n_declared_status := ?new\<rparr>" E ?i d] n same_graph_msg(1) [OF same]
    by (simp add: fresh(3))
  then have d2: "d2 = put_node E' ?i ?f d'"
    using u' unfolding undo_status_set_def Let_def status_payload_before [OF codec]
    by (auto simp: sm_bind_run sm_bind_read update_node_def downstream_of_ok sm_return_def within_def
        split: option.splits)
  have find: "find_node d'' = find_node d2" "find_node d' = find_node d1"
    using same_graph_msg(1) same same2 by simp_all
  have "find_node d'' x = (if x = ?i then Some (n\<lparr>n_updated_at := clock E'\<rparr>) else find_node d x)" for x
    using find_put_node [of "\<lambda>n. n\<lparr>n_declared_status := ?new\<rparr>" E ?i d]
      find_put_node [of ?f E' ?i d'] n
    by (simp add: find d2 fresh(3))
  moreover have "dependencies d'' = dependencies d" "verifications d'' = verifications d"
    using same same2 by (simp_all add: same_graph_def d2 fresh(3))
  ultimately show ?thesis using c2 by blast
qed

lemma undo_inverts_set_status_witness:
  "\<exists>d2. snd (undo_locked demo_env \<lparr>ud_meta = None, ud_project_id = ''p'', ud_seq = 5\<rparr>
      (snd (set_status_locked demo_env \<lparr>ss_meta = None, ss_node_id = ''a'', ss_declared_status = 3\<rparr>
        (idle demo_db)))) = idle d2 \<and>
    find_node d2 ''a'' = Some ((demo_node ''a'' (Some ''w'') ''TASK'' None 100)\<lparr>n_updated_at := 1000\<rparr>)"
proof -
  let ?req = "\<lparr>ss_meta = None, ss_node_id = ''a'', ss_declared_status = 3\<rparr>"
  let ?r = "\<lparr>ud_meta = None, ud_project_id = ''p'', ud_seq = 5\<rparr>"
  let ?out = "set_status_locked demo_env ?req (idle demo_db)"
  let ?out2 = "undo_locked demo_env ?r (snd ?out)"
  have out: "case ?out of (x, c) \<Rightarrow> \<not> isl x \<and> mu_seq (projr x) = ud_seq ?r \<and> \<not> isl (fst (undo_locked demo_env ?r c))"
    by code_simp
  then have run: "?out = (Inr (projr (fst ?out)), snd ?out)" "?out2 = (Inr (projr (fst ?out2)), snd ?out2)"
    by (simp_all add: prod_eq_iff case_prod_beta)
  have n: "find_node demo_db (ss_node_id ?req) = Some (demo_node ''a'' (Some ''w'') ''TASK'' None 100)" by code_simp
  have miss: "ledger_hit x p (idem_key None) = None" for x p by (simp add: ledger_hit_def idem_key_def)
  have seq: "ud_seq ?r = mu_seq (projr (fst ?out))" using out by (simp only: case_prod_beta)
  have pid: "ud_project_id ?r = n_project_id (demo_node ''a'' (Some ''w'') ''TASK'' None 100)" by code_simp
  have id: "ss_node_id ?req \<noteq> ''''" by simp
  show ?thesis
    using undo_inverts_set_status [OF demo_inv demo_codec refl run(1) n id _ run(2) pid seq] miss
    by auto
qed

section \<open>Undoing a new edge\<close>

text \<open>
  C10: Undo of \<open>AddDependency\<close>: undoing the event removes the edge and leaves nodes, verifications
  and all other edges as they were before the addition, so it inverts an addition that was new.
  An addition of an edge that was already there succeeds without effect, and undoing its event
  removes the edge all the same: the undo then takes away more than the addition gave.
\<close>

theorem undo_inverts_add_dependency:
  assumes inv: "db_inv d" and codec: "json_codec E" "json_parse E' = json_parse E"
    and run: "add_dependency_locked E req (idle d) = (Inr m, c1)"
    and new: "ledger_hit d (edge_project d (ad_blocker_id req)) (idem_key (ad_meta req)) = None"
    and undo: "undo_locked E' r c1 = (Inr m', c2)" "ud_project_id r = edge_project d (ad_blocker_id req)"
      "ud_seq r = mu_seq m"
    and first: "ledger_hit (live c1) (edge_project d (ad_blocker_id req)) (idem_key (ud_meta r)) = None"
  shows "\<exists>d2. c2 = idle d2 \<and> nodes d2 = nodes d \<and> verifications d2 = verifications d \<and>
    dependencies d2 = filter (\<lambda>e. \<not> (d_blocker_id e = ad_blocker_id req \<and> d_blocked_id e = ad_blocked_id req))
      (dependencies d)"
  using inv run
proof (cases rule: add_dependency_outcome)
  case (retry seq)
  then show ?thesis using new by simp
next
  case (fresh d1 d')
  let ?a = "ad_blocker_id req" and ?b = "ad_blocked_id req" and ?p = "edge_project d (ad_blocker_id req)"
  let ?e = "event_entry E ?p '''' ''DEP_ADDED'' (author_of (ad_meta req)) (?a @ '' blocks '' @ ?b)
    (json_text E (edge_payload ?a ?b)) d1"
  have same: "same_graph d1 d'" using fresh(3) by simp
  have d1: "events d1 = events d" "last_seq d1 = last_seq d" "nodes d1 = nodes d" "verifications d1 = verifications d"
    "filter (\<lambda>e. \<not> (d_blocker_id e = ?a \<and> d_blocked_id e = ?b)) (dependencies d1) =
     filter (\<lambda>e. \<not> (d_blocker_id e = ?a \<and> d_blocked_id e = ?b)) (dependencies d)"
    using insert_dependency_cases [OF fresh(2)] by auto
  have seq: "mu_seq m = last_seq d + 1" using fresh(7) d1(2) by simp
  have "?e \<in> set (events d')" by (simp add: fresh(3))
  then obtain affected k s j d2 d'' where u: "undo_inverse E' (event_kind_i32 (event_kind_of_str (e_kind ?e)))
      (e_payload ?e) (case e_node_id ?e of None \<Rightarrow> '''' | Some i \<Rightarrow> i) (within d' d') = (Inr (affected, k, s, j), within d' d2)"
    and same2: "same_graph d2 d''" and c2: "c2 = idle d''"
    by (rule undo_of_event [OF fresh(4) undo(1) fresh(5)]) (use undo(2,3) first in \<open>simp_all add: seq d1(2)\<close>)
  have "undo_dep_added E' (json_text E (edge_payload ?a ?b)) '''' (within d' d') =
      (Inr (affected, k, s, j), within d' d2)"
    using u by (simp add: undo_inverse_def event_kind_of_str_def event_entry_def)
  then have "delete_dependency ?a ?b d' = Inr ((), d2)"
    by (auto simp: undo_dep_added_def sm_bind_lift edge_payload_get [OF codec] sm_bind_run sm_return_def within_def
        delete_dependency_def)
  then have "d2 = d'\<lparr>dependencies := filter (\<lambda>e. \<not> (d_blocker_id e = ?a \<and> d_blocked_id e = ?b)) (dependencies d')\<rparr>"
    by (simp add: delete_dependency_def)
  then show ?thesis using c2 same same2 d1 by (intro exI [of _ d'']) (simp add: same_graph_def)
qed

lemma undo_inverts_add_dependency_witness:
  "\<exists>d2. snd (undo_locked demo_env \<lparr>ud_meta = None, ud_project_id = ''p'', ud_seq = 5\<rparr>
      (snd (add_dependency_locked demo_env \<lparr>ad_meta = None, ad_blocker_id = ''a'', ad_blocked_id = ''b''\<rparr>
        (idle demo_db)))) = idle d2 \<and> dependencies d2 = [] \<and> nodes d2 = nodes demo_db"
proof -
  let ?req = "\<lparr>ad_meta = None, ad_blocker_id = ''a'', ad_blocked_id = ''b''\<rparr>"
  let ?r = "\<lparr>ud_meta = None, ud_project_id = ''p'', ud_seq = 5\<rparr>"
  let ?out = "add_dependency_locked demo_env ?req (idle demo_db)"
  let ?out2 = "undo_locked demo_env ?r (snd ?out)"
  have out: "case ?out of (x, c) \<Rightarrow> \<not> isl x \<and> mu_seq (projr x) = ud_seq ?r \<and> \<not> isl (fst (undo_locked demo_env ?r c))"
    by code_simp
  then have run: "?out = (Inr (projr (fst ?out)), snd ?out)" "?out2 = (Inr (projr (fst ?out2)), snd ?out2)"
    by (simp_all add: prod_eq_iff case_prod_beta)
  have miss: "ledger_hit x p (idem_key None) = None" for x p by (simp add: ledger_hit_def idem_key_def)
  have seq: "ud_seq ?r = mu_seq (projr (fst ?out))" using out by (simp only: case_prod_beta)
  have pid: "ud_project_id ?r = edge_project demo_db (ad_blocker_id ?req)" by code_simp
  obtain d2 where "snd ?out2 = idle d2" "nodes d2 = nodes demo_db" "dependencies d2 =
      filter (\<lambda>e. \<not> (d_blocker_id e = ''a'' \<and> d_blocked_id e = ''b'')) (dependencies demo_db)"
    using undo_inverts_add_dependency [OF demo_inv demo_codec refl run(1) _ run(2) pid seq] miss by auto
  then show ?thesis by (auto simp: demo_db_def)
qed

section \<open>Undoing a deletion\<close>

lemma find_appended:
  "find_node (d\<lparr>nodes := nodes d @ [r]\<rparr>) x =
    (case find_node d x of None \<Rightarrow> if n_id r = x then Some r else None | Some y \<Rightarrow> Some y)"
  by (simp add: find_node_def find_append split: option.split)

lemma check_node_created: "check_node (n\<lparr>n_created_at := t\<rparr>) = check_node n"
  by (simp add: check_node_def shape_ok_def)

lemma restore_run:
  assumes run: "undo_node_deleted E payload i (within d0 d) = (Inr r, c)"
    and obj: "json_parse E payload = Some j" "json_get j ''before'' = Some obj"
    and row: "restored_row E obj = n" "check_node n = None" "n_id n \<notin> node_ids d"
  shows "\<exists>d2. c = within d0 d2 \<and> insert_node True E n d = Inr ((), d2) \<and> d2 = d\<lparr>nodes := nodes d @ [n]\<rparr>"
proof -
  obtain d2 where ins: "insert_node True E n d = Inr ((), d2)" and c: "c = within d0 d2"
    using run obj row(1)
    by (auto simp: undo_node_deleted_def Let_def sm_bind_lift restore_node_def sm_bind_run sm_bind_read
        downstream_of_ok sm_return_def split: sum.splits)
  then have "d2 = d\<lparr>nodes := nodes d @ [n]\<rparr>"
    using row(2,3) by (auto simp: insert_node_def split: option.splits if_splits)
  then show ?thesis using ins c by blast
qed

text \<open>
  C9: Undo of \<open>DeleteNode\<close> brings back exactly one node. Undoing the last event of a deletion
  restores the deleted node as it was, but for the two times; everything else the deletion took
  stays gone: the nodes below it, and the edges and verifications of the whole subtree.
\<close>

theorem undo_restores_deleted_node:
  assumes inv: "db_inv d" and codec: "json_codec E" "json_parse E' = json_parse E"
    and run: "delete_node_locked E req (idle d) = (Inr m, c1)"
    and n: "find_node d (dn_node_id req) = Some n" "plain_row n"
    and new: "ledger_hit d (n_project_id n) (idem_key (dn_meta req)) = None"
    and undo: "undo_locked E' r c1 = (Inr m', c2)" "ud_project_id r = n_project_id n" "ud_seq r = mu_seq m"
    and first: "ledger_hit (live c1) (n_project_id n) (idem_key (ud_meta r)) = None"
    and S: "S = {j. (dn_node_id req, j) \<in> (set (parent_edges d))\<^sup>*}"
  shows "\<exists>d2. c2 = idle d2 \<and>
    (\<forall>j. find_node d2 j = (if j = dn_node_id req then Some (n\<lparr>n_created_at := clock E', n_updated_at := clock E'\<rparr>)
       else if j \<in> S then None else find_node d j)) \<and>
    dependencies d2 = filter (\<lambda>e. d_blocker_id e \<notin> S \<and> d_blocked_id e \<notin> S) (dependencies d) \<and>
    verifications d2 = filter (\<lambda>v. v_node_id v \<notin> S) (verifications d)"
  using inv run
proof (cases rule: delete_node_outcome)
  case (retry n0 seq)
  then show ?thesis using n(1) new by simp
next
  case (fresh n0 d' es)
  let ?i = "dn_node_id req" and ?s = "subtree d (dn_node_id req)"
  let ?row = "n\<lparr>n_created_at := clock E', n_updated_at := clock E'\<rparr>"
  have n0: "n0 = n" using fresh(1) n(1) by simp
  have S': "set ?s = S" unfolding S subtree_def using sql_union.reach_set [of "parent_edges d" ?i] by simp
  have "es \<noteq> []" using fresh(8) by auto
  then obtain es0 e where es: "es = es0 @ [e]" by (cases es rule: rev_cases) auto
  have e: "e_payload e = node_before_json E (node_msg d n)" "is_deletion (n_project_id n) e" "e \<in> set (events d')"
    using fresh(6,7,8) by (simp_all add: es n0)
  have seq: "mu_seq m = e_seq e" by (simp add: fresh(9) es last_event_seq_def)
  obtain affected k s j d2 d'' where u: "undo_inverse E' (event_kind_i32 (event_kind_of_str (e_kind e)))
      (e_payload e) (case e_node_id e of None \<Rightarrow> '''' | Some i \<Rightarrow> i) (within d' d') = (Inr (affected, k, s, j), within d' d2)"
    and same2: "same_graph d2 d''" and c2: "c2 = idle d''"
    by (rule undo_of_event [OF fresh(4) undo(1) fresh(5) e(3)])
      (use undo(2,3) first e(2) seq in \<open>simp_all add: is_deletion_def\<close>)
  have u': "undo_node_deleted E' (node_before_json E (node_msg d n)) '''' (within d' d') =
      (Inr (affected, k, s, j), within d' d2)"
    using u e(1,2) by (simp add: undo_inverse_def event_kind_of_str_def is_deletion_def)
  have parse: "json_parse E' (node_before_json E (node_msg d n)) = Some (node_before (node_msg d n))"
    using codec node_before_wf by (simp add: json_codec_def node_before_json_def)
  obtain obj where obj: "json_get (node_before (node_msg d n)) ''before'' = Some obj"
    by (simp add: node_before_def Let_def)
  have check: "check_node n = None" using inv find_node_SomeD [OF n(1)] by (simp add: inv_defs node_ok_def)
  then have check': "check_node ?row = None" by (simp add: check_node_created)
  have id: "n_id n = ?i" using find_node_SomeD [OF n(1)] by simp
  have find': "find_node d' x = (if x \<in> S then None else find_node d x)" for x
    using same_graph_msg(1) [OF fresh(3)] find_node_drop [of d ?s x] inv by (simp add: S' db_inv_def)
  have "?i \<in> S" using subtree_self [of ?i d] by (simp add: S')
  then have "n_id ?row \<notin> node_ids d'" using find' [of ?i] id by (simp add: find_node_None [symmetric])
  then have d2: "d2 = d'\<lparr>nodes := nodes d' @ [?row]\<rparr>"
    using restore_run [OF u' parse obj restored_row_of [OF check n(2) obj] check']
    by (auto simp: within_def)
  have "find_node d'' x = (if x = ?i then Some ?row else if x \<in> S then None else find_node d x)" for x
    using \<open>?i \<in> S\<close> same_graph_msg(1) [OF same2] by (auto simp: d2 find_appended find' id split: option.split)
  moreover have "dependencies d'' = filter (\<lambda>e. d_blocker_id e \<notin> S \<and> d_blocked_id e \<notin> S) (dependencies d)"
    "verifications d'' = filter (\<lambda>v. v_node_id v \<notin> S) (verifications d)"
    using same2 fresh(3) by (simp_all add: same_graph_def d2 drop_nodes_def S')
  ultimately show ?thesis using c2 by blast
qed

lemma undo_restores_deleted_node_witness:
  "\<exists>d2. snd (undo_locked demo_env \<lparr>ud_meta = None, ud_project_id = ''p'', ud_seq = 6\<rparr>
      (snd (delete_node_locked demo_env \<lparr>dn_meta = None, dn_node_id = ''a'', dn_fail_if_referenced = False\<rparr>
        (idle demo_db)))) = idle d2 \<and> find_node d2 ''s'' = None \<and> dependencies d2 = [] \<and>
    map_option n_title (find_node d2 ''a'') = Some ''a title''"
proof -
  let ?req = "\<lparr>dn_meta = None, dn_node_id = ''a'', dn_fail_if_referenced = False\<rparr>"
  let ?r = "\<lparr>ud_meta = None, ud_project_id = ''p'', ud_seq = 6\<rparr>"
  let ?out = "delete_node_locked demo_env ?req (idle demo_db)"
  let ?out2 = "undo_locked demo_env ?r (snd ?out)" and ?n = "demo_node ''a'' (Some ''w'') ''TASK'' None 100"
  have out: "case ?out of (x, c) \<Rightarrow> \<not> isl x \<and> mu_seq (projr x) = ud_seq ?r \<and> \<not> isl (fst (undo_locked demo_env ?r c))"
    by code_simp
  then have run: "?out = (Inr (projr (fst ?out)), snd ?out)" "?out2 = (Inr (projr (fst ?out2)), snd ?out2)"
    by (simp_all add: prod_eq_iff case_prod_beta)
  have n: "find_node demo_db (dn_node_id ?req) = Some ?n" "plain_row ?n"
    by (code_simp, simp add: plain_row_def demo_node_def is_i32_def)
  have miss: "ledger_hit x p (idem_key None) = None" for x p by (simp add: ledger_hit_def idem_key_def)
  have seq: "ud_seq ?r = mu_seq (projr (fst ?out))" using out by (simp only: case_prod_beta)
  have pid: "ud_project_id ?r = n_project_id ?n" by code_simp
  have "subtree demo_db ''a'' = [''a'', ''s'']" by code_simp
  then have S: "{''a'', ''s''} = {j. (dn_node_id ?req, j) \<in> (set (parent_edges demo_db))\<^sup>*}"
    using sql_union.reach_set [of "parent_edges demo_db" "''a''"] by (simp add: subtree_def)
  obtain d2 where d2: "snd ?out2 = idle d2"
    and f: "\<forall>j. find_node d2 j = (if j = dn_node_id ?req
        then Some (?n\<lparr>n_created_at := clock demo_env, n_updated_at := clock demo_env\<rparr>)
        else if j \<in> {''a'', ''s''} then None else find_node demo_db j)"
    and deps: "dependencies d2 = filter (\<lambda>e. d_blocker_id e \<notin> {''a'', ''s''} \<and> d_blocked_id e \<notin> {''a'', ''s''})
      (dependencies demo_db)"
    using undo_restores_deleted_node [OF demo_inv demo_codec refl run(1) n _ run(2) pid seq _ S] miss by auto
  have "dependencies d2 = []" unfolding deps by code_simp
  moreover have "find_node d2 ''s'' = None" "map_option n_title (find_node d2 ''a'') = Some ''a title''"
    by (simp_all add: spec [OF f, of "''s''"] spec [OF f, of "''a''"]) (simp add: demo_node_def)
  ultimately show ?thesis using d2 by blast
qed

end
