(* ===== verification/Read_Props.thy ===== *)
theory Read_Props
  imports Example
begin

text \<open>
  Properties of the answers a client reads: a snapshot never fails and every code in it is one the
  protocol defines, and every page stays within the limit it was asked for.
\<close>

section \<open>Snapshots\<close>

definition dependency_msg :: "dependency_row \<Rightarrow> pb_dependency" where
  "dependency_msg e = \<lparr>dy_blocker_id = d_blocker_id e, dy_blocked_id = d_blocked_id e\<rparr>"

definition snapshot_of :: "string \<Rightarrow> db \<Rightarrow> get_snapshot_response" where
  "snapshot_of pid d = \<lparr>gsr_project = map_option project_msg (find_project d pid),
     gsr_nodes = map (node_msg d) (project_nodes pid d),
     gsr_dependencies = map dependency_msg (filter (\<lambda>e. node_in_project pid d (d_blocker_id e) \<and>
       node_in_project pid d (d_blocked_id e)) (dependencies d)),
     gsr_progress = progress_of pid d,
     gsr_recent_events = take 25 (rev (project_log pid d)),
     gsr_seq = max_event_seq d\<rparr>"

lemma dependency_row_ok: "dependency_row_msg e = Inr (dependency_msg e)"
  by (simp add: dependency_row_msg_def dependency_msg_def Let_def row_simps)

lemma collect_dependencies: "collect_res dependency_row_msg es = Inr (map dependency_msg es)"
  by (rule collect_res_map) (rule dependency_row_ok)

lemma snapshot_ok:
  assumes "db_inv d"
  shows "get_snapshot_locked pid d = Inr (snapshot_of pid d)"
proof -
  have inv: "keys_inv d" "hierarchy_inv d" "log_inv d" using assms by (simp_all add: db_inv_def)
  have nodes: "read_nodes (project_nodes pid d) d = Inr (map (node_msg d) (project_nodes pid d))"
    using inv(1) by (intro read_nodes_ok) (auto simp: project_nodes_def)
  have project: "transpose_res (\<lambda>p. row_to_project (project_cells p)) (find_project d pid) =
      Inr (map_option project_msg (find_project d pid))"
    by (cases "find_project d pid") (simp_all add: row_simps)
  have recent: "map event_msg (sql_limit 25 (by_seq_desc (filter (\<lambda>e. e_project_id e = pid) (events d)))) =
      take 25 (rev (project_log pid d))"
    using by_seq_desc_sorted [OF log_filter_sorted [OF inv(3)]]
    by (simp add: sql_limit_def project_log_def take_map rev_map)
  show ?thesis
    unfolding get_snapshot_locked_def project nodes collect_dependencies progress_for_ok [OF inv(2)] events_decode
    by (simp add: snapshot_of_def recent row_simps)
qed

text \<open>The codes a node message may hold, and how they hang together.\<close>

definition node_typed :: "pb_node \<Rightarrow> bool" where
  "node_typed n \<longleftrightarrow>
     nd_kind n \<in> node_kind_i32 ` {NodeKind_WorkPackage, NodeKind_Task, NodeKind_Step} \<and>
     nd_declared_status n \<in> declared_status_i32 ` {DeclaredStatus_Open, DeclaredStatus_Deferred, DeclaredStatus_Done} \<and>
     nd_status n \<in> effective_status_i32 ` {EffectiveStatus_Ready, EffectiveStatus_Blocked,
       EffectiveStatus_Deferred, EffectiveStatus_Done} \<and>
     nd_wp_state n \<in> work_package_state_i32 ` {WorkPackageState_Planned, WorkPackageState_Active,
       WorkPackageState_Done, WorkPackageState_Archived} \<and>
     (nd_status n = effective_status_i32 EffectiveStatus_Done \<longleftrightarrow>
      nd_declared_status n = declared_status_i32 DeclaredStatus_Done) \<and>
     (nd_status n = effective_status_i32 EffectiveStatus_Deferred \<longleftrightarrow>
      nd_declared_status n = declared_status_i32 DeclaredStatus_Deferred) \<and>
     (nd_kind n = node_kind_i32 NodeKind_WorkPackage \<longrightarrow> nd_parent_id n = '''') \<and>
     (nd_kind n \<noteq> node_kind_i32 NodeKind_WorkPackage \<longrightarrow>
      nd_wp_state n = work_package_state_i32 WorkPackageState_Planned) \<and>
     is_i32 (nd_position n)"

lemma node_msg_typed:
  assumes "db_inv d" "n \<in> set (nodes d)"
  shows "node_typed (node_msg d n)"
proof -
  have c: "kind_ok (n_kind n)" "declared_ok (n_declared_status n)" "shape_ok n"
    using assms by (auto simp: inv_defs node_ok_def check_node_def split: if_splits)
  have codes: "node_kind_i32 (kind_of_str (n_kind n)) \<in> node_kind_i32 ` {NodeKind_WorkPackage, NodeKind_Task, NodeKind_Step}"
    "declared_status_i32 (declared_of_str s) \<in> declared_status_i32 ` {DeclaredStatus_Open, DeclaredStatus_Deferred, DeclaredStatus_Done}"
    "work_package_state_i32 (wp_state_of_str w) \<in> work_package_state_i32 ` {WorkPackageState_Planned, WorkPackageState_Active,
       WorkPackageState_Done, WorkPackageState_Archived}" for s w
    by (simp_all add: kind_of_str_def declared_of_str_def wp_state_of_str_def)
  have status: "effective_status (node_status d n) \<in> effective_status_i32 ` {EffectiveStatus_Ready, EffectiveStatus_Blocked,
       EffectiveStatus_Deferred, EffectiveStatus_Done}"
    by (simp add: node_status_def effective_status_def)
  have "effective_status (node_status d n) = 4 \<longleftrightarrow> declared_status_i32 (declared_of_str (n_declared_status n)) = 3"
    "effective_status (node_status d n) = 3 \<longleftrightarrow> declared_status_i32 (declared_of_str (n_declared_status n)) = 2"
    using c(2) by (auto simp: node_status_def effective_status_def declared_ok_def declared_of_str_def)
  moreover have "node_kind_i32 (kind_of_str (n_kind n)) = 1 \<longleftrightarrow> n_kind n = ''WORK_PACKAGE''"
    by (simp add: kind_of_str_def)
  moreover have "n_kind n = ''WORK_PACKAGE'' \<Longrightarrow> n_parent_id n = None"
    "n_kind n \<noteq> ''WORK_PACKAGE'' \<Longrightarrow> n_wp_state n = None"
    using c(3) by (auto simp: shape_ok_def)
  moreover have "nd_wp_state (node_msg d n) = work_package_state_i32 (wp_state_of_str (n_wp_state n))"
    "is_i32 (nd_position (node_msg d n))"
    using wrap32_range [of "n_position n"] by (simp_all add: node_msg_def bare_node_msg_def)
  ultimately show ?thesis
    using codes status by (simp add: node_typed_def) (simp add: wp_state_of_str_def)
qed

text \<open>
  C18: A snapshot never fails and is well typed: on a database of the program \<open>GetSnapshot\<close> returns
  an answer whose nodes are those of the project, each once, with codes the protocol defines (none
  is left unspecified) and a derived status that agrees with the declared one, and whose edges
  join nodes of the same answer. A task or a step is reported as a planned work package state,
  although the protocol gives that field to work packages only.
\<close>

theorem snapshot_well_typed:
  assumes "db_inv d"
  shows "\<exists>s. get_snapshot_locked pid d = Inr s \<and>
    map nd_id (gsr_nodes s) = map n_id (filter (\<lambda>n. n_project_id n = pid) (nodes d)) \<and>
    distinct (map nd_id (gsr_nodes s)) \<and> (\<forall>n \<in> set (gsr_nodes s). node_typed n \<and> nd_project_id n = pid) \<and>
    (\<forall>e \<in> set (gsr_dependencies s). {dy_blocker_id e, dy_blocked_id e} \<subseteq> nd_id ` set (gsr_nodes s))"
proof (intro exI conjI)
  show "get_snapshot_locked pid d = Inr (snapshot_of pid d)" by (rule snapshot_ok [OF assms])
  show ids: "map nd_id (gsr_nodes (snapshot_of pid d)) = map n_id (filter (\<lambda>n. n_project_id n = pid) (nodes d))"
    by (simp add: snapshot_of_def project_nodes_def)
  show "distinct (map nd_id (gsr_nodes (snapshot_of pid d)))"
    unfolding ids using assms by (simp add: inv_defs distinct_map_filter_key)
  show "\<forall>n \<in> set (gsr_nodes (snapshot_of pid d)). node_typed n \<and> nd_project_id n = pid"
    using node_msg_typed [OF assms] by (simp add: snapshot_of_def project_nodes_def)
  have "i \<in> n_id ` set (project_nodes pid d)" if "node_in_project pid d i" for i
    using that find_node_SomeD [of d i] by (force simp: node_in_project_def project_nodes_def split: option.splits)
  then show "\<forall>e \<in> set (gsr_dependencies (snapshot_of pid d)).
      {dy_blocker_id e, dy_blocked_id e} \<subseteq> nd_id ` set (gsr_nodes (snapshot_of pid d))"
    by (simp add: snapshot_of_def dependency_msg_def image_image)
qed

lemma snapshot_well_typed_witness:
  "\<exists>s. get_snapshot_locked ''p'' demo_db = Inr s \<and> map nd_id (gsr_nodes s) = [''w'', ''a'', ''b'', ''s''] \<and>
    (\<forall>n \<in> set (gsr_nodes s). node_typed n)"
proof -
  have "map n_id (filter (\<lambda>n. n_project_id n = ''p'') (nodes demo_db)) = [''w'', ''a'', ''b'', ''s'']" by code_simp
  then show ?thesis using snapshot_well_typed [OF demo_inv, of "''p''"] by auto
qed

section \<open>Limits\<close>

lemma sql_limit_length: "0 \<le> n \<Longrightarrow> length (sql_limit n xs) \<le> nat n"
  by (simp add: sql_limit_def)

lemma read_nodes_length: "read_nodes ns d = Inr ms \<Longrightarrow> length ms = length ns"
  by (auto simp: read_nodes_def res_bind_eq_Inr dest!: collect_res_length)

text \<open>
  C19: Every answer stays within its limit: a page of \<open>PollChanges\<close> has at most the requested number
  of events, or a thousand when none is given, all of them after the cursor and none after the
  returned one, which never goes back; pages of \<open>ListEvents\<close> and \<open>Search\<close> have at most the
  requested number of rows and always room for one, whatever the request says; a snapshot
  carries at most 25 recent events.
\<close>

theorem pages_bounded:
  assumes "db_inv d"
  shows "(\<forall>r. poll_changes_locked pid a l d = Inr r \<longrightarrow>
      length (pcr_events r) \<le> nat (if l \<le> 0 then 1000 else l) \<and> a \<le> pcr_seq r \<and>
      (\<forall>e \<in> set (pcr_events r). a < ev_seq e \<and> ev_seq e \<le> pcr_seq r)) \<and>
    (\<forall>rows more. list_events_locked pid i b l d = Inr (rows, more) \<longrightarrow> length rows \<le> nat (max l 1)) \<and>
    (\<forall>ns. search_locked fts pid q l d = Inr ns \<longrightarrow> length ns \<le> nat (max l 1)) \<and>
    (\<forall>s. get_snapshot_locked pid d = Inr s \<longrightarrow> length (gsr_recent_events s) \<le> 25)"
proof (intro conjI allI impI)
  have inv: "log_inv d" using assms by (simp add: db_inv_def)
  define page where "page = take (nat (if l \<le> 0 then 1000 else l)) (filter (\<lambda>e. a < ev_seq e) (project_log pid d))"
  have after: "a < ev_seq e" if "e \<in> set page" for e
    using that by (auto simp: page_def dest: in_set_takeD)
  have "sorted_wrt (\<lambda>x y. ev_seq x < ev_seq y) page"
    using project_log_sorted [OF inv, of pid]
    by (simp add: page_def sorted_wrt_map sorted_wrt_take sorted_wrt_filter)
  then have upto: "ev_seq e \<le> ev_seq (last page)" if "e \<in> set page" for e
    using that by (cases page rule: rev_cases) (auto simp: sorted_wrt_append less_imp_le)
  fix r
  assume "poll_changes_locked pid a l d = Inr r"
  then have r: "pcr_events r = page" "pcr_seq r = (if page = [] then a else ev_seq (last page))"
    using poll_changes_ok [OF inv, of pid a l] by (auto simp: page_def Let_def)
  show "length (pcr_events r) \<le> nat (if l \<le> 0 then 1000 else l)" by (simp add: r page_def)
  show "a \<le> pcr_seq r" using after [of "last page"] by (simp add: r less_imp_le)
  show "\<forall>e \<in> set (pcr_events r). a < ev_seq e \<and> ev_seq e \<le> pcr_seq r"
    using after upto by (auto simp: r)
next
  fix rows more
  assume "list_events_locked pid i b l d = Inr (rows, more)"
  then show "length rows \<le> nat (max l 1)"
    by (auto simp: list_events_locked_def Let_def res_bind_eq_Inr)
next
  fix ns
  assume "search_locked fts pid q l d = Inr ns"
  then show "length ns \<le> nat (max l 1)"
    using sql_limit_length [of "max l 1"] by (fastforce simp: search_locked_def res_bind_eq_Inr dest!: read_nodes_length)
next
  fix s
  assume "get_snapshot_locked pid d = Inr s"
  then show "length (gsr_recent_events s) \<le> 25" using snapshot_ok [OF assms, of pid] by (auto simp: snapshot_of_def)
qed

lemma pages_bounded_witness:
  "\<exists>r. poll_changes_locked ''p'' 1 1 demo_db = Inr r \<and> length (pcr_events r) \<le> 1 \<and> 1 \<le> pcr_seq r \<and> pcr_seq r = 2"
proof -
  have "\<not> isl (poll_changes_locked ''p'' 1 1 demo_db)" by code_simp
  then obtain r where r: "poll_changes_locked ''p'' 1 1 demo_db = Inr r" by (auto simp: isl_def) (metis sum.exhaust)
  have "pcr_seq (projr (poll_changes_locked ''p'' 1 1 demo_db)) = 2" by code_simp
  then show ?thesis using pages_bounded [OF demo_inv, of "''p''" 1 1] r by auto
qed

end
