(* ===== verification/Status_Props.thy ===== *)
theory Status_Props
  imports Store_Settles Example
begin

text \<open>
  Who decides: the declared status of a node is what a human or an agent set with \<open>SetStatus\<close>, and
  no other write touches it; and a node is created once, however often the request is sent.
\<close>

section \<open>Writes that keep every declared status\<close>

definition declared_kept :: "db \<Rightarrow> db \<Rightarrow> bool" where
  "declared_kept d d' \<longleftrightarrow> (\<forall>n' \<in> set (nodes d'). \<exists>n \<in> set (nodes d).
     n_id n = n_id n' \<and> n_declared_status n = n_declared_status n')"

lemma declared_kept_trans:
  assumes "declared_kept a b" "declared_kept b c"
  shows "declared_kept a c"
  unfolding declared_kept_def
proof
  fix n
  assume "n \<in> set (nodes c)"
  then obtain m where "m \<in> set (nodes b)" "n_id m = n_id n" "n_declared_status m = n_declared_status n"
    using assms(2) by (auto simp: declared_kept_def)
  then show "\<exists>k \<in> set (nodes a). n_id k = n_id n \<and> n_declared_status k = n_declared_status n"
    using assms(1) by (fastforce simp: declared_kept_def)
qed

interpretation declared: session_order declared_kept
  by unfold_locales (simp add: declared_kept_def, blast, rule declared_kept_trans)

named_theorems declared_rules \<open>programs that keep every declared status\<close>

lemmas declared_programs [declared_rules] = declared.moves_return declared.moves_throw declared.moves_read
  declared.moves_lift declared.moves_run declared.moves_bind declared.moves_each declared.moves_if
  declared.moves_option declared.moves_prod

lemma declared_tx [declared_rules]:
  "safe_body f \<Longrightarrow> sm_moves declared_kept f \<Longrightarrow> sm_moves declared_kept (in_tx E f)"
  by (rule declared.moves_tx) (simp_all add: safe_body_def)

lemma declared_same: "nodes d' = nodes d \<Longrightarrow> declared_kept d d'"
  by (auto simp: declared_kept_def)

definition keeps_declared :: "(node_row \<Rightarrow> node_row) \<Rightarrow> bool" where
  "keeps_declared f \<longleftrightarrow> (\<forall>n. n_id (f n) = n_id n \<and> n_declared_status (f n) = n_declared_status n)"

lemma declared_put: "keeps_declared f \<Longrightarrow> declared_kept d (put_node E i f d)"
  by (auto simp: declared_kept_def put_node_def keeps_declared_def)

lemma declared_update: "keeps_declared f \<Longrightarrow> stmt_moves declared_kept (update_node E i f)"
  by (rule stmt_movesI)
    (auto simp: update_node_def declared_same declared_put split: option.splits)

lemma declared_statements [declared_rules]:
  "stmt_moves declared_kept (update_node_place E i parent k pos)"
  "stmt_moves declared_kept (delete_node i)"
  "stmt_moves declared_kept (insert_dependency E a b)" "stmt_moves declared_kept (delete_dependency a b)"
  "stmt_moves declared_kept (upsert_report E i r a t)" "stmt_moves declared_kept (upsert_verdict E i r)"
  "stmt_moves declared_kept (clear_verdict i)" "stmt_moves declared_kept (delete_verification i)"
  "stmt_moves declared_kept (insert_event E p j kd au su pl)" "stmt_moves declared_kept (insert_ledger E s key q en)"
  "stmt_moves declared_kept (insert_project E i nm de)" "stmt_moves declared_kept (update_project i g)"
proof -
  show "stmt_moves declared_kept (update_node_place E i parent k pos)"
    by (rule stmt_movesI)
      (auto simp: update_node_place_def Let_def keeps_declared_def intro!: declared_same declared_put
        split: option.splits if_splits)
  show "stmt_moves declared_kept (delete_node i)"
    by (rule stmt_movesI) (auto simp: delete_node_def drop_nodes_def declared_kept_def split: if_splits)
qed (rule stmt_movesI, auto simp: stmt_defs Let_def intro!: declared_same split: option.splits if_splits)+

lemma declared_log [declared_rules]:
  "sm_moves declared_kept (append_event E p i k a s t)" "sm_moves declared_kept (record_idempotency E p key q)"
  "sm_moves declared_kept (record_idempotency_created E p key q e)" "sm_moves declared_kept (delete_event E p a c)"
  unfolding delete_event_def append_event_def record_idempotency_def record_idempotency_created_def
  by (intro declared_rules)+

lemma declared_field [declared_rules]: "sm_moves declared_kept (update_field E req f)"
  unfolding update_field_def Let_def
  by (intro declared.moves_if declared.moves_run declared.moves_throw declared_update) (simp_all add: keeps_declared_def)

lemma declared_node_writes [declared_rules]:
  "sm_moves declared_kept (update_node_locked E r1)" "sm_moves declared_kept (delete_node_locked E r2)"
  "sm_moves declared_kept (add_dependency_locked E r3)" "sm_moves declared_kept (remove_dependency_locked E r4)"
  unfolding update_node_locked_def update_node_tx_def delete_node_locked_def delete_node_tx_def
    add_dependency_locked_def add_dependency_tx_def remove_dependency_locked_def remove_dependency_tx_def Let_def
  by (intro declared_rules safe_rules stmt_pres)+

lemma declared_review_writes [declared_rules]:
  "sm_moves declared_kept (report_condition_locked E r1)" "sm_moves declared_kept (set_verdict_locked E r2)"
  "sm_moves declared_kept (add_comment_locked E r3)"
  unfolding report_condition_locked_def report_condition_tx_def set_verdict_locked_def set_verdict_tx_def
    verdict_stmt_def add_comment_locked_def add_comment_tx_def Let_def
  by (intro declared_rules safe_rules stmt_pres)+

lemma declared_move [declared_rules]: "sm_moves declared_kept (move_node_locked E r)"
  unfolding move_node_locked_def move_node_tx_def drop_children_def drop_child_def Let_def
  by (intro declared_rules safe_rules stmt_pres)

lemma declared_project_txs [declared_rules]:
  "sm_moves declared_kept (create_project_tx E r1)" "sm_moves declared_kept (update_project_tx E r2)"
  "sm_moves declared_kept (archive_project_tx E r3)"
  unfolding create_project_tx_def update_project_tx_def update_project_field_def archive_project_tx_def
  by (intro declared_rules)+

lemma declared_project_writes [declared_rules]:
  "sm_moves declared_kept (create_project_locked E r1)" "sm_moves declared_kept (update_project_locked E r2)"
  "sm_moves declared_kept (archive_project_locked E r3)"
  unfolding create_project_locked_def create_project_fresh_def update_project_locked_def archive_project_locked_def
  by (intro declared_rules safe_project_txs)+

text \<open>
  C23: Only a status write sets a status: apart from \<open>SetStatus\<close>, \<open>Undo\<close> and the creation of a node,
  no method changes what a node declares, whatever the request holds and however the call ends.
  Reports of agents, verdicts, comments, edits, moves and edges leave it alone, so nothing is
  ever done, deferred or reopened as a side effect.
\<close>

theorem only_status_writes_declare:
  assumes "m \<notin> {''SetStatus'', ''Undo'', ''CreateNode''}" "dispatch C fts E m req c = (r, c')"
    and "n' \<in> set (nodes (live c'))"
  shows "\<exists>n \<in> set (nodes (live c)). n_id n = n_id n' \<and> n_declared_status n = n_declared_status n'"
proof -
  have other: "m \<noteq> ''SetStatus''" "m \<noteq> ''Undo''" "m \<noteq> ''CreateNode''" using assms(1) by simp_all
  have "sm_moves declared_kept (dispatch C fts E m req)"
    unfolding dispatch_def answer_def by (simp only: other if_False) (intro declared_rules)
  from sm_movesD [OF this assms(2)] show ?thesis using assms(3) by (simp add: declared_kept_def)
qed

lemma only_status_writes_declare_witness:
  "\<exists>n \<in> set (nodes demo_db). n_id n = ''a'' \<and> n_declared_status n =
    n_declared_status (the (find_node (live (snd (dispatch demo_wire no_index demo_env ''ReportCondition'' []
      (idle demo_db)))) ''a''))"
proof -
  let ?out = "dispatch demo_wire no_index demo_env ''ReportCondition'' [] (idle demo_db)"
  let ?n = "demo_node ''a'' (Some ''w'') ''TASK'' None 100"
  have "find_node (live (snd ?out)) ''a'' = Some ?n" "verifications (live (snd ?out)) \<noteq> verifications demo_db"
    by code_simp+
  moreover from this(1) have "?n \<in> set (nodes (live (snd ?out)))" using find_node_SomeD by blast
  ultimately show ?thesis
    using only_status_writes_declare [of "''ReportCondition''" demo_wire no_index demo_env "[]" "idle demo_db"
      "fst ?out" "snd ?out" ?n]
    by (simp add: demo_node_def)
qed

section \<open>A node is created once\<close>

lemma created_ledger:
  assumes "find_ledger d p k = None"
  shows "find_ledger (ledger_put E p (Some k) q en (log_put e (d\<lparr>nodes := ns\<rparr>))) p k =
    Some \<lparr>i_project_id = p, i_key = k, i_seq = q, i_entity_id = en, i_created_at = clock E\<rparr>"
  using assms by (intro find_ledger_put) (simp add: find_ledger_def)

text \<open>
  C24: Exactly once: after a \<open>CreateNode\<close> with a fresh idempotency key has succeeded it has added one
  row, under an identifier that was free; and whatever calls the session has served since then,
  repeating the request adds nothing and answers with that node, or with no node once it is gone,
  and with the event number of the first run.
\<close>

theorem create_node_once:
  assumes "db_inv d" "create_node_locked E req (idle d) = (Inr m, c1)"
    and "idem_key (cn_meta req) = Some k" "find_ledger d (cn_project_id req) k = None" "calls c1 c2"
  shows "\<exists>i. i \<notin> node_ids d \<and> nodes (live c1) = nodes d @ [new_node_row E req i] \<and>
    create_node_locked E' req c2 = (Inr \<lparr>mu_events = [],
      mu_changed_nodes = (case find_node (live c2) i of None \<Rightarrow> [] | Some n \<Rightarrow> [node_msg (live c2) n]),
      mu_changed_progress = [], mu_seq = mu_seq m\<rparr>, c2)"
proof -
  have "ledger_hit d (cn_project_id req) (idem_key (cn_meta req)) = None"
    using assms(3,4) by (simp add: ledger_hit_def)
  with assms(1,2) show ?thesis
  proof (cases rule: create_node_outcome)
    case (1 i d')
    have "find_ledger (live c1) (cn_project_id req) k = Some \<lparr>i_project_id = cn_project_id req, i_key = k,
        i_seq = last_seq d + 1, i_entity_id = Some i, i_created_at = clock E\<rparr>"
      unfolding 1(3,5) assms(3) by (simp add: created_ledger [OF assms(4)])
    then have "find_ledger (live c2) (cn_project_id req) k = Some \<lparr>i_project_id = cn_project_id req, i_key = k,
        i_seq = last_seq d + 1, i_entity_id = Some i, i_created_at = clock E\<rparr>"
      using calls_ledger [OF assms(5)] by (simp add: ledger_le_def)
    moreover have "mu_seq m = last_seq d + 1" unfolding 1(6) by (simp add: last_event_seq_def)
    moreover have "i \<notin> node_ids d"
      using 1(2) by (auto simp: insert_node_def new_node_row_def split: option.splits if_splits)
    moreover have "nodes (live c1) = nodes d @ [new_node_row E req i]" unfolding 1(3,5) by simp
    ultimately show ?thesis
      by (intro exI [of _ i])
        (auto simp: create_node_locked_def sm_bind_read check_created_ok fetch_node_ok assms(3) sm_return_def
          empty_mutation_def split: option.split)
  qed
qed

definition demo_create :: create_node_request where
  "demo_create = \<lparr>cn_meta = Some \<lparr>wm_author = ''me'', wm_idempotency_key = ''k1''\<rparr>, cn_project_id = ''p'',
     cn_parent_id = ''w'', cn_kind = 2, cn_title = ''third'', cn_description = '''', cn_condition = '''',
     cn_position = 300, cn_reference = '''', cn_note = ''''\<rparr>"

lemma create_node_once_witness:
  "let c1 = snd (create_node_locked demo_env demo_create (idle demo_db)) in length (nodes (live c1)) = 5 \<and>
    (\<exists>m. create_node_locked busy_env demo_create c1 = (Inr m, c1) \<and> mu_seq m = 5)"
proof -
  let ?out = "create_node_locked demo_env demo_create (idle demo_db)"
  have "\<not> isl (fst ?out)" by code_simp
  then have run: "?out = (Inr (projr (fst ?out)), snd ?out)" by (simp add: prod_eq_iff)
  have "mu_seq (projr (fst ?out)) = 5" "length (nodes demo_db) = 4" by code_simp+
  moreover have "idem_key (cn_meta demo_create) = Some ''k1''" by code_simp
  moreover have "find_ledger demo_db (cn_project_id demo_create) ''k1'' = None" by code_simp
  ultimately show ?thesis
    using create_node_once [OF demo_inv run _ _ calls.none, of "''k1''" busy_env] by (auto simp: Let_def)
qed

end
