(* ===== verification/Liveness_Props.thy ===== *)
theory Liveness_Props
  imports Graph_Runs Example
begin

text \<open>
  Progress: the open work of a database can always be finished in an order in which every node is
  ready when its turn comes; and the one state of a session from which nothing follows, the
  transaction a failed commit has left open.
\<close>

section \<open>Ready work\<close>

definition open_ids :: "db \<Rightarrow> string list" where
  "open_ids d = map n_id (filter (\<lambda>n. n_declared_status n = ''OPEN'') (nodes d))"

definition nothing_deferred :: "db \<Rightarrow> bool" where
  "nothing_deferred d \<longleftrightarrow> (\<forall>n \<in> set (nodes d). n_declared_status n \<noteq> ''DEFERRED'')"

lemma wf_dep_edges: "db_inv d \<Longrightarrow> wf (set (dep_edges d))"
  by (intro finite_acyclic_wf) (simp_all add: inv_defs)

lemma ready_upstream:
  assumes inv: "db_inv d" and plain: "nothing_deferred d"
    and n: "n \<in> set (nodes d)" "n_declared_status n = ''OPEN''"
  shows "\<exists>r \<in> set (nodes d). node_status d r = ''READY'' \<and> n_declared_status r = ''OPEN''"
  using n
proof (induction "n_id n" arbitrary: n rule: wf_induct_rule [OF wf_dep_edges [OF inv]])
  case 1
  show ?case
  proof (cases "node_status d n = ''READY''")
    case True
    then show ?thesis using 1(2,3) by blast
  next
    case False
    then obtain b where b: "b \<in> set (nodes d)" "(n_id b, n_id n) \<in> set (dep_edges d)" "n_declared_status b \<noteq> ''DONE''"
      using 1(3) blocked_iff [where d = d and ns = "nodes d" and i = "n_id n"]
      by (auto simp: node_status_def split: if_splits)
    have "declared_ok (n_declared_status b)"
      using inv b(1) by (auto simp: inv_defs node_ok_def check_node_def split: if_splits)
    then have "n_declared_status b = ''OPEN''"
      using b plain by (auto simp: declared_ok_def nothing_deferred_def)
    then show ?thesis using 1(1) [OF b(2,1)] by simp
  qed
qed

text \<open>A run of \<open>SetStatus\<close> calls, each of which finishes a node that is ready at its turn.\<close>

definition finish_request :: "string \<Rightarrow> set_status_request" where
  "finish_request i = \<lparr>ss_meta = None, ss_node_id = i, ss_declared_status = declared_status_i32 DeclaredStatus_Done\<rparr>"

inductive works_off :: "env \<Rightarrow> db \<Rightarrow> string list \<Rightarrow> db \<Rightarrow> bool" where
  rests: "works_off E d [] d"
| finishes: "n \<in> set (nodes d) \<Longrightarrow> node_status d n = ''READY'' \<Longrightarrow>
    set_status_locked E (finish_request (n_id n)) (idle d) = (Inr m, idle d1) \<Longrightarrow>
    works_off E d1 is d' \<Longrightarrow> works_off E d (n_id n # is) d'"

lemma finish_runs:
  assumes "db_inv d" "json_codec E" "commit_error E = None" "last_seq d < max_seq" "n \<in> set (nodes d)"
  obtains m d1 where "set_status_locked E (finish_request (n_id n)) (idle d) = (Inr m, idle d1)" "db_inv d1"
    "last_seq d1 = last_seq d + 1"
    "nodes d1 = map (\<lambda>x. if n_id x = n_id n then x\<lparr>n_declared_status := ''DONE'', n_updated_at := clock E\<rparr> else x) (nodes d)"
proof -
  have n: "find_node d (ss_node_id (finish_request (n_id n))) = Some n"
    using assms(1,5) find_node_iff [of d "n_id n" n] by (simp add: db_inv_def finish_request_def)
  have "ledger_hit d p (idem_key (ss_meta (finish_request i))) = None" for p i
    by (simp add: ledger_hit_def idem_key_def finish_request_def)
  from set_status_runs [OF assms(1-4) n this] obtain m d1 where
    r: "set_status_locked E (finish_request (n_id n)) (idle d) = (Inr m, idle d1)" "db_inv d1"
      "last_seq d1 = last_seq d + 1" "same_graph (put_node E (n_id n)
        (\<lambda>x. x\<lparr>n_declared_status := declared_str (declared_status_i32 DeclaredStatus_Done)\<rparr>) d) d1"
    by (auto simp: finish_request_def)
  have "declared_str (declared_status_i32 DeclaredStatus_Done) = ''DONE''" by code_simp
  then show thesis using that [OF r(1-3)] r(4) by (simp add: same_graph_def put_node_def)
qed

lemma open_ids_finished:
  assumes "nodes d1 = map (\<lambda>x. if n_id x = i then x\<lparr>n_declared_status := ''DONE'', n_updated_at := t\<rparr> else x) (nodes d)"
  shows "open_ids d1 = filter (\<lambda>j. j \<noteq> i) (open_ids d)"
proof -
  have "map n_id (filter (\<lambda>n. n_declared_status n = ''OPEN'')
      (map (\<lambda>x. if n_id x = i then x\<lparr>n_declared_status := ''DONE'', n_updated_at := t\<rparr> else x) xs)) =
    filter (\<lambda>j. j \<noteq> i) (map n_id (filter (\<lambda>n. n_declared_status n = ''OPEN'') xs))" for xs
    by (induction xs) auto
  then show ?thesis using assms by (simp add: open_ids_def)
qed

text \<open>
  C6: Open work can always be finished in order. In a database of the program without deferred
  nodes, and as long as event numbers are left and commits succeed, there is an order in which
  every open node is ready when it is its turn and is then set to done, each exactly once; in
  the end every node is done. No set of dependencies that the program accepts can deadlock.
\<close>

theorem ready_work_drains:
  assumes "db_inv d" "json_codec E" "commit_error E = None" "nothing_deferred d"
    and "last_seq d + int (length (open_ids d)) \<le> max_seq"
  shows "\<exists>is d'. works_off E d is d' \<and> distinct is \<and> set is = set (open_ids d) \<and>
    (\<forall>n \<in> set (nodes d'). n_declared_status n = ''DONE'')"
  using assms(1,4,5)
proof (induction "length (open_ids d)" arbitrary: d rule: less_induct)
  case less
  show ?case
  proof (cases "open_ids d")
    case Nil
    have "n_declared_status n = ''DONE''" if "n \<in> set (nodes d)" for n
    proof -
      have "declared_ok (n_declared_status n)"
        using less(2) that by (auto simp: inv_defs node_ok_def check_node_def split: if_splits)
      moreover have "n_declared_status n \<noteq> ''OPEN''" using Nil that by (auto simp: open_ids_def filter_empty_conv)
      ultimately show ?thesis using less(3) that by (auto simp: declared_ok_def nothing_deferred_def)
    qed
    then show ?thesis using Nil works_off.rests [of E d] by (intro exI [of _ "[]"] exI [of _ d]) simp
  next
    case (Cons j js)
    then have "j \<in> set (open_ids d)" by simp
    then obtain n0 where "n0 \<in> set (nodes d)" "n_declared_status n0 = ''OPEN''"
      by (auto simp: open_ids_def)
    then obtain r where r: "r \<in> set (nodes d)" "node_status d r = ''READY''" "n_declared_status r = ''OPEN''"
      using ready_upstream [OF less(2,3)] by blast
    have "last_seq d < max_seq" using less(4) Cons by simp
    from finish_runs [OF less(2) assms(2,3) this r(1)] obtain m d1 where
      run: "set_status_locked E (finish_request (n_id r)) (idle d) = (Inr m, idle d1)" and inv1: "db_inv d1"
      and seq: "last_seq d1 = last_seq d + 1"
      and nodes: "nodes d1 = map (\<lambda>x. if n_id x = n_id r
        then x\<lparr>n_declared_status := ''DONE'', n_updated_at := clock E\<rparr> else x) (nodes d)" .
    note ids = open_ids_finished [OF nodes]
    have "n_id r \<in> set (open_ids d)" using r by (auto simp: open_ids_def)
    then have fewer: "length (open_ids d1) < length (open_ids d)"
      unfolding ids by (rule length_filter_less) simp
    have "nothing_deferred d1" using less(3) by (auto simp: nothing_deferred_def nodes)
    moreover have "last_seq d1 + int (length (open_ids d1)) \<le> max_seq" using fewer less(4) seq by simp
    ultimately obtain "is" d' where IH: "works_off E d1 is d'" "distinct is" "set is = set (open_ids d1)"
      "\<forall>n \<in> set (nodes d'). n_declared_status n = ''DONE''"
      using less(1) [OF fewer inv1] by blast
    then show ?thesis
      using works_off.finishes [OF r(1,2) run IH(1)] \<open>n_id r \<in> set (open_ids d)\<close>
      by (intro exI [of _ "n_id r # is"] exI [of _ d']) (auto simp: ids)
  qed
qed

lemma ready_work_drains_witness:
  "\<exists>is d'. works_off demo_env demo_db is d' \<and> set is = {''w'', ''a'', ''b'', ''s''} \<and>
    (\<forall>n \<in> set (nodes d'). n_declared_status n = ''DONE'')"
proof -
  have ids: "open_ids demo_db = [''w'', ''a'', ''b'', ''s'']" by code_simp
  have "nothing_deferred demo_db" by (simp add: nothing_deferred_def demo_db_def demo_node_def)
  moreover have "last_seq demo_db + int (length (open_ids demo_db)) \<le> max_seq"
    unfolding ids by (simp add: demo_db_def max_seq_def)
  ultimately show ?thesis
    using ready_work_drains [OF demo_inv demo_codec demo_env_sel(2)] unfolding ids by auto
qed

section \<open>The session after a failed commit\<close>

lemma calls_stuck: "calls c c' \<Longrightarrow> savepoint c \<noteq> None \<Longrightarrow> c' = c"
proof (induction rule: calls.induct)
  case (more c c1 C fts E m req r c')
  then show ?case using dispatch_stuck [of C fts E m req] by (fastforce simp: stuck_def)
qed simp



end
