(* ===== verification/Native_Store.thy ===== *)
theory Native_Store
  imports Store_Reports
begin

text \<open>
  The native store of the daemon (\<open>flowd/src/store/mod.rs\<close>, \<open>flowd/src/store/watch.rs\<close>): every
  write runs on the blocking pool under the connection's lock, and its mutation is published to
  the watchers afterwards, outside the lock. Requests interleave, so the edge is a step relation:
  a write commits, its mutation waits, and is published later or dropped with its request.
\<close>

section \<open>Requests\<close>

datatype write_request =
    WCreateNode create_node_request
  | WUpdateNode update_node_request
  | WDeleteNode delete_node_request
  | WSetStatus set_status_request
  | WAddDependency add_dependency_request
  | WRemoveDependency remove_dependency_request
  | WReportCondition report_condition_request
  | WSetVerdict set_verdict_request
  | WAddComment add_comment_request
  | WUndo undo_request
  | WMoveNode move_node_request

fun write_op :: "env \<Rightarrow> write_request \<Rightarrow> (db, mutation) sm" where
  "write_op E (WCreateNode r) = create_node_locked E r"
| "write_op E (WUpdateNode r) = update_node_locked E r"
| "write_op E (WDeleteNode r) = delete_node_locked E r"
| "write_op E (WSetStatus r) = set_status_locked E r"
| "write_op E (WAddDependency r) = add_dependency_locked E r"
| "write_op E (WRemoveDependency r) = remove_dependency_locked E r"
| "write_op E (WReportCondition r) = report_condition_locked E r"
| "write_op E (WSetVerdict r) = set_verdict_locked E r"
| "write_op E (WAddComment r) = add_comment_locked E r"
| "write_op E (WUndo r) = undo_locked E r"
| "write_op E (WMoveNode r) = move_node_locked E r"

datatype project_request =
    WCreateProject create_project_request
  | WUpdateProject update_project_request
  | WArchiveProject archive_project_request

fun project_op :: "env \<Rightarrow> project_request \<Rightarrow> (db, pb_project) sm" where
  "project_op E (WCreateProject r) = create_project_locked E r"
| "project_op E (WUpdateProject r) = update_project_locked E r"
| "project_op E (WArchiveProject r) = archive_project_locked E r"

lemma write_op_safe [safe_rules]: "safe_op (write_op E w)"
  by (cases w) (simp_all add: safe_rules)

lemma project_op_safe [safe_rules]: "safe_op (project_op E w)"
  by (cases w) (simp_all add: safe_rules)

lemma write_op_tells: "tells_op (write_op E w)"
  by (cases w) (simp_all add: create_node_tells update_node_tells delete_node_tells set_status_tells
      add_dependency_tells remove_dependency_tells report_condition_tells set_verdict_tells
      add_comment_tells undo_tells move_node_tells)

section \<open>Notifications\<close>

record notified =
  nt_project_id :: string
  nt_seq :: int
  nt_events :: "pb_event list"
  nt_changed_nodes :: "pb_node list"
  nt_changed_progress :: "pb_progress list"

text \<open>\<open>publish\<close> sends nothing for a mutation without events, which is what a retry returns.\<close>

definition publish :: "mutation \<Rightarrow> notified list" where
  "publish m = (case mu_events m of
     [] \<Rightarrow> []
   | e # es \<Rightarrow> [\<lparr>nt_project_id = ev_project_id e, nt_seq = mu_seq m, nt_events = mu_events m,
       nt_changed_nodes = mu_changed_nodes m, nt_changed_progress = mu_changed_progress m\<rparr>])"

text \<open>
  \<open>offload\<close>: what the blocking pool returns when it joins the task, the result of the closure or
  the text of the panic.
\<close>

definition offload :: "string + 'a res \<Rightarrow> 'a res" where
  "offload joined = (case joined of
     Inl e \<Rightarrow> Inl (internal (''db task panicked: '' @ e)) | Inr r \<Rightarrow> r)"

section \<open>The edge\<close>

text \<open>
  The connection, the mutations of requests that have not published yet, everything sent to the
  broadcast channel, and, for specification only, the mutations whose request was cancelled
  between its commit and its publication.
\<close>

record edge =
  e_conn :: "db conn"
  e_pending :: "mutation list"
  e_sent :: "notified list"
  e_dropped :: "mutation list"

definition edge_start :: "db conn \<Rightarrow> edge" where
  "edge_start c = \<lparr>e_conn = c, e_pending = [], e_sent = [], e_dropped = []\<rparr>"

text \<open>A request that runs alone: \<open>write_pub!\<close> from the call to its answer.\<close>

definition write_pub :: "env \<Rightarrow> write_request \<Rightarrow> edge \<Rightarrow> mutation res \<times> edge" where
  "write_pub E w s = (case write_op E w (e_conn s) of
     (Inl x, c) \<Rightarrow> (offload (Inr (Inl x)), s\<lparr>e_conn := c\<rparr>)
   | (Inr m, c) \<Rightarrow> (offload (Inr (Inr m)), s\<lparr>e_conn := c, e_sent := e_sent s @ publish m\<rparr>))"

inductive edge_step :: "edge \<Rightarrow> edge \<Rightarrow> bool" where
  commits: "write_op E w (e_conn s) = (Inr m, c) \<Longrightarrow>
     edge_step s (s\<lparr>e_conn := c, e_pending := e_pending s @ [m]\<rparr>)"
| fails: "write_op E w (e_conn s) = (Inl x, c) \<Longrightarrow> edge_step s (s\<lparr>e_conn := c\<rparr>)"
| on_project: "project_op E w (e_conn s) = (r, c) \<Longrightarrow> edge_step s (s\<lparr>e_conn := c\<rparr>)"
| publishes: "e_pending s = xs @ m # ys \<Longrightarrow>
     edge_step s (s\<lparr>e_pending := xs @ ys, e_sent := e_sent s @ publish m\<rparr>)"
| cancelled: "e_pending s = xs @ m # ys \<Longrightarrow>
     edge_step s (s\<lparr>e_pending := xs @ ys, e_dropped := e_dropped s @ [m]\<rparr>)"

inductive edge_steps :: "edge \<Rightarrow> edge \<Rightarrow> bool" where
  stay: "edge_steps s s"
| go: "edge_steps s t \<Longrightarrow> edge_step t u \<Longrightarrow> edge_steps s u"

inductive_cases edge_stepE: "edge_step s t"

lemma edge_steps_trans: "edge_steps t u \<Longrightarrow> edge_steps s t \<Longrightarrow> edge_steps s u"
  by (induction rule: edge_steps.induct) (auto intro: edge_steps.go)

text \<open>A request that runs alone is two steps of the edge.\<close>

lemma write_pub_steps: "edge_steps s (snd (write_pub E w s))"
proof -
  obtain r c where run: "write_op E w (e_conn s) = (r, c)" by fastforce
  show ?thesis
  proof (cases r)
    case (Inl x)
    then show ?thesis
      using run by (auto simp: write_pub_def intro: edge_steps.go [OF edge_steps.stay] edge_step.fails)
  next
    case (Inr m)
    let ?t = "s\<lparr>e_conn := c, e_pending := e_pending s @ [m]\<rparr>"
    have "edge_step s ?t" using run Inr by (auto intro: edge_step.commits)
    moreover have "edge_step ?t (?t\<lparr>e_pending := e_pending s @ [], e_sent := e_sent ?t @ publish m\<rparr>)"
      by (rule edge_step.publishes) simp
    ultimately have "edge_steps s (?t\<lparr>e_pending := e_pending s @ [], e_sent := e_sent ?t @ publish m\<rparr>)"
      by (blast intro: edge_steps.intros)
    then show ?thesis using run Inr by (simp add: write_pub_def)
  qed
qed

section \<open>Invariants of the edge\<close>

definition one_project :: "pb_event list \<Rightarrow> bool" where
  "one_project es \<longleftrightarrow> (\<exists>p. \<forall>e \<in> set es. ev_project_id e = p)"

definition edge_inv :: "edge \<Rightarrow> bool" where
  "edge_inv s \<longleftrightarrow> conn_inv db_inv (e_conn s) \<and> (\<forall>m \<in> set (e_pending s). one_project (mu_events m)) \<and>
     (\<forall>n \<in> set (e_sent s). \<forall>e \<in> set (nt_events n). ev_project_id e = nt_project_id n)"

lemma publish_events: "(\<Union>n \<in> set (publish m). set (nt_events n)) = set (mu_events m)"
  by (cases "mu_events m") (simp_all add: publish_def)

lemma publish_project:
  "one_project (mu_events m) \<Longrightarrow> n \<in> set (publish m) \<Longrightarrow> e \<in> set (nt_events n) \<Longrightarrow> ev_project_id e = nt_project_id n"
  by (cases "mu_events m") (auto simp: publish_def one_project_def)

lemma edge_start_inv: "conn_inv db_inv c \<Longrightarrow> edge_inv (edge_start c)"
  by (simp add: edge_inv_def edge_start_def)

lemma write_keeps: "write_op E w c = (r, c') \<Longrightarrow> conn_inv db_inv c \<Longrightarrow> conn_inv db_inv c'"
  using write_op_safe [of E w] sm_keepsD [of db_inv "write_op E w" c] by (fastforce simp: safe_op_def)

lemma project_keeps: "project_op E w c = (r, c') \<Longrightarrow> conn_inv db_inv c \<Longrightarrow> conn_inv db_inv c'"
  using project_op_safe [of E w] sm_keepsD [of db_inv "project_op E w" c] by (fastforce simp: safe_op_def)

lemma edge_step_inv: "edge_step s t \<Longrightarrow> edge_inv s \<Longrightarrow> edge_inv t"
proof (induction rule: edge_step.induct)
  case (commits E w s m c)
  then have "one_project (mu_events m)"
    using write_op_tells [of E w] by (auto simp: tells_op_def one_project_def)
  then show ?case using commits write_keeps by (auto simp: edge_inv_def)
next
  case (publishes s xs m ys)
  then show ?case using publish_project [of m] by (auto simp: edge_inv_def)
qed (auto simp: edge_inv_def intro: write_keeps project_keeps)

lemma edge_steps_inv: "edge_steps s t \<Longrightarrow> edge_inv s \<Longrightarrow> edge_inv t"
  by (induction rule: edge_steps.induct) (auto intro: edge_step_inv)

section \<open>No event is forgotten\<close>

text \<open>The events the edge still has to tell or has told after the \<open>n\<close>-th message, or dropped.\<close>

definition told :: "nat \<Rightarrow> edge \<Rightarrow> pb_event set" where
  "told n s = (\<Union>m \<in> set (e_pending s) \<union> set (e_dropped s). set (mu_events m)) \<union>
     (\<Union>x \<in> set (drop n (e_sent s)). set (nt_events x))"

lemma told_publish:
  assumes "e_pending s = xs @ m # ys" "n \<le> length (e_sent s)"
  shows "told n (s\<lparr>e_pending := xs @ ys, e_sent := e_sent s @ publish m\<rparr>) = told n s"
  using assms publish_events [of m] by (auto simp: told_def)

lemma told_cancel:
  "e_pending s = xs @ m # ys \<Longrightarrow>
   told n (s\<lparr>e_pending := xs @ ys, e_dropped := e_dropped s @ [m]\<rparr>) = told n s"
  by (auto simp: told_def)

lemma write_op_stuck [stuck_rules]: "stuck (write_op E w)"
  by (cases w) (simp_all add: stuck_rules)

lemma project_op_stuck [stuck_rules]: "stuck (project_op E w)"
  by (cases w) (simp_all add: stuck_rules)

lemma project_op_mute: "mute (project_op E w)"
  by (cases w) (simp_all add: tells_rules)

lemma stuckD: "stuck f \<Longrightarrow> f c = (r, c') \<Longrightarrow> savepoint c' = None \<Longrightarrow> savepoint c = None"
  by (metis stuck_def snd_conv)

text \<open>A request that fails on an idle session leaves no event behind.\<close>

lemma failed_no_events:
  assumes "safe_op f" "stuck f" "conn_inv db_inv c" "f c = (Inl x, c')" "savepoint c' = None"
  shows "live c' = live c"
proof -
  have "savepoint c = None" using stuckD [OF assms(2,4,5)] .
  moreover have "durable_db c' = durable_db c"
    using assms(1,3,4) by (auto simp: safe_op_def atomic_on_def)
  ultimately show ?thesis using assms(5) by (simp add: durable_db_def)
qed

lemma edge_step_idle: "edge_step s t \<Longrightarrow> savepoint (e_conn t) = None \<Longrightarrow> savepoint (e_conn s) = None"
  by (induction rule: edge_step.induct)
    (auto dest: stuckD [OF write_op_stuck] stuckD [OF project_op_stuck])

text \<open>One step, on a session without a failed commit.\<close>

lemma edge_step_told:
  assumes "edge_step s t" "edge_inv s" "savepoint (e_conn t) = None" "n \<le> length (e_sent s)"
  shows "told n s \<subseteq> told n t" "new_events (live (e_conn s)) (live (e_conn t)) \<subseteq> told n t"
    "n \<le> length (e_sent t)"
proof -
  have "told n s \<subseteq> told n t \<and> new_events (live (e_conn s)) (live (e_conn t)) \<subseteq> told n t \<and>
      n \<le> length (e_sent t)"
    using assms
  proof (induction rule: edge_step.induct)
    case (commits E w s m c)
    then have "new_events (live (e_conn s)) (live c) \<subseteq> set (mu_events m)"
      using write_op_tells [of E w] by (auto simp: tells_op_def)
    then show ?case using commits by (auto simp: told_def)
  next
    case (fails E w s x c)
    then have "live c = live (e_conn s)"
      using failed_no_events [OF write_op_safe write_op_stuck] by (simp add: edge_inv_def)
    then show ?case using fails by (simp add: told_def)
  next
    case (on_project E w s r c)
    have "new_events (live (e_conn s)) (live c) = {}"
    proof (cases r)
      case (Inl x)
      then have "live c = live (e_conn s)"
        using on_project failed_no_events [OF project_op_safe project_op_stuck] by (simp add: edge_inv_def)
      then show ?thesis by simp
    next
      case (Inr x)
      then have "set (events (live c)) \<subseteq> set (events (live (e_conn s)))"
        using on_project(1) project_op_mute [of E w] by (simp add: mute_def)
      then show ?thesis by (auto simp: new_events_def)
    qed
    then show ?case using on_project by (simp add: told_def)
  qed (simp_all add: told_publish told_cancel)
  then show "told n s \<subseteq> told n t" "new_events (live (e_conn s)) (live (e_conn t)) \<subseteq> told n t"
    "n \<le> length (e_sent t)" by simp_all
qed

lemma edge_steps_idle: "edge_steps s t \<Longrightarrow> savepoint (e_conn t) = None \<Longrightarrow> savepoint (e_conn s) = None"
  by (induction rule: edge_steps.induct) (auto dest: edge_step_idle)

lemma edge_steps_told:
  assumes "edge_steps s t" "edge_inv s" "savepoint (e_conn t) = None" "n \<le> length (e_sent s)"
  shows "told n s \<subseteq> told n t \<and> new_events (live (e_conn s)) (live (e_conn t)) \<subseteq> told n t \<and>
    n \<le> length (e_sent t)"
  using assms
proof (induction rule: edge_steps.induct)
  case (stay s)
  then show ?case by simp
next
  case (go s t u)
  have idle: "savepoint (e_conn t) = None" using go(2,5) by (rule edge_step_idle)
  have IH: "told n s \<subseteq> told n t" "new_events (live (e_conn s)) (live (e_conn t)) \<subseteq> told n t"
    "n \<le> length (e_sent t)" using go(3) go(4) idle go(6) by simp_all
  have "edge_inv t" using edge_steps_inv [OF go(1,4)] .
  note step = edge_step_told [OF go(2) this go(5) IH(3)]
  show ?case
    using IH step new_events_trans [of "live (e_conn s)" "live (e_conn u)" "live (e_conn t)"] by blast
qed

text \<open>Two writes that commit in one order and start to publish in the other.\<close>

lemma overtaking_steps:
  assumes "write_op E v c = (Inr m, c1)" "write_op E w c1 = (Inr m', c2)"
  shows "edge_steps (edge_start c) \<lparr>e_conn = c2, e_pending = [m], e_sent = publish m', e_dropped = []\<rparr>"
proof -
  let ?s = "\<lambda>c ms ns. \<lparr>e_conn = c, e_pending = ms, e_sent = ns, e_dropped = []\<rparr>"
  have "edge_step (?s c [] []) (?s c1 [m] [])"
    using edge_step.commits [of E v "?s c [] []"] assms(1) by simp
  moreover have "edge_step (?s c1 [m] []) (?s c2 [m, m'] [])"
    using edge_step.commits [of E w "?s c1 [m] []"] assms(2) by simp
  moreover have "edge_step (?s c2 [m, m'] []) (?s c2 [m] (publish m'))"
    using edge_step.publishes [of "?s c2 [m, m'] []" "[m]" m' "[]"] by simp
  ultimately show ?thesis unfolding edge_start_def by (blast intro: edge_steps.intros)
qed

end
