(* ===== verification/Board.thy ===== *)
theory Board
  imports Graph_Runs Native_Store
begin

text \<open>
  The abstract specification of the tracker's graph, and the proof that the store implements it.
  A board knows which nodes there are, their parent, kind and declared status, and which node
  blocks which; four acts change it, and each says when it is refused. \<open>board_of\<close> reads the
  board off a database: the log, the ledger, verifications and texts are invisible to it.
\<close>

section \<open>The specification\<close>

record card =
  c_parent :: "string option"
  c_kind :: string
  c_declared :: string

record board =
  b_cards :: "string \<Rightarrow> card option"
  b_blocks :: "(string \<times> string) set"

datatype act =
    Declare string string
  | Block string string
  | Unblock string string
  | Remove string bool

definition b_parents :: "board \<Rightarrow> (string \<times> string) set" where
  "b_parents b = {(p, j). \<exists>k. b_cards b j = Some k \<and> c_parent k = Some p}"

definition below :: "board \<Rightarrow> string \<Rightarrow> string set" where
  "below b i = {j. (i, j) \<in> (b_parents b)\<^sup>*}"

definition touched :: "board \<Rightarrow> string \<Rightarrow> bool" where
  "touched b i \<longleftrightarrow> (\<exists>e \<in> b_blocks b. fst e = i \<or> snd e = i)"

fun act_on :: "act \<Rightarrow> board \<Rightarrow> board option" where
  "act_on (Declare i s) b = (case b_cards b i of
     None \<Rightarrow> None
   | Some k \<Rightarrow> Some (b\<lparr>b_cards := (b_cards b)(i \<mapsto> k\<lparr>c_declared := s\<rparr>)\<rparr>))"
| "act_on (Block x y) b =
     (if x \<in> dom (b_cards b) \<and> y \<in> dom (b_cards b) \<and> (y, x) \<notin> (b_blocks b)\<^sup>*
      then Some (b\<lparr>b_blocks := insert (x, y) (b_blocks b)\<rparr>) else None)"
| "act_on (Unblock x y) b =
     (if x \<in> dom (b_cards b) then Some (b\<lparr>b_blocks := b_blocks b - {(x, y)}\<rparr>) else None)"
| "act_on (Remove i unless_touched) b =
     (if i \<in> dom (b_cards b) \<and> (unless_touched \<longrightarrow> \<not> touched b i)
      then Some \<lparr>b_cards = b_cards b |` (- below b i),
                 b_blocks = {e \<in> b_blocks b. fst e \<notin> below b i \<and> snd e \<notin> below b i}\<rparr>
      else None)"

section \<open>The abstraction\<close>

definition card_of :: "node_row \<Rightarrow> card" where
  "card_of n = \<lparr>c_parent = n_parent_id n, c_kind = n_kind n, c_declared = n_declared_status n\<rparr>"

definition board_of :: "db \<Rightarrow> board" where
  "board_of d = \<lparr>b_cards = (\<lambda>i. map_option card_of (find_node d i)), b_blocks = set (dep_edges d)\<rparr>"

fun act_of :: "write_request \<Rightarrow> act option" where
  "act_of (WSetStatus r) = Some (Declare (ss_node_id r) (declared_str (ss_declared_status r)))"
| "act_of (WAddDependency r) = Some (Block (ad_blocker_id r) (ad_blocked_id r))"
| "act_of (WRemoveDependency r) = Some (Unblock (rd_blocker_id r) (rd_blocked_id r))"
| "act_of (WDeleteNode r) = Some (Remove (dn_node_id r) (dn_fail_if_referenced r))"
| "act_of _ = None"

fun write_key :: "write_request \<Rightarrow> string option" where
  "write_key (WSetStatus r) = idem_key (ss_meta r)"
| "write_key (WAddDependency r) = idem_key (ad_meta r)"
| "write_key (WRemoveDependency r) = idem_key (rd_meta r)"
| "write_key (WDeleteNode r) = idem_key (dn_meta r)"
| "write_key _ = None"

text \<open>A database and an environment in which nothing but the request can stop a new write.\<close>

definition unhindered :: "env \<Rightarrow> db \<Rightarrow> write_request \<Rightarrow> bool" where
  "unhindered E d w \<longleftrightarrow> db_inv d \<and> json_codec E \<and> commit_error E = None \<and>
     last_seq d + int (length (nodes d)) < max_seq \<and> '''' \<notin> project_ids d \<and>
     (\<forall>p. ledger_hit d p (write_key w) = None)"

definition implements :: "env \<Rightarrow> db \<Rightarrow> write_request \<Rightarrow> act \<Rightarrow> bool" where
  "implements E d w a \<longleftrightarrow> (case act_on a (board_of d) of
     None \<Rightarrow> \<exists>e. write_op E w (idle d) = (Inl e, idle d)
   | Some b \<Rightarrow> \<exists>m d'. write_op E w (idle d) = (Inr m, idle d') \<and> board_of d' = b)"

lemma board_of_sel [simp]:
  "b_cards (board_of d) i = map_option card_of (find_node d i)" "b_blocks (board_of d) = set (dep_edges d)"
  "i \<in> dom (b_cards (board_of d)) \<longleftrightarrow> i \<in> node_ids d"
  using find_node_None [of d i] by (auto simp: board_of_def dom_def)

lemma board_of_same: "same_graph d d' \<Longrightarrow> board_of d' = board_of d"
  using same_graph_msg(1) [of d d'] by (simp add: board_of_def same_graph_def dep_edges_def)

lemma settles_write [settle_rules]: "settles E (write_op E w)"
  by (cases w) (simp_all add: settle_rules)

lemma implementsI:
  assumes "unhindered E d w"
    and "\<And>m c. write_op E w (idle d) = (Inr m, c) \<Longrightarrow> act_on a (board_of d) \<noteq> None"
    and "\<And>b. act_on a (board_of d) = Some b \<Longrightarrow>
      \<exists>m d'. write_op E w (idle d) = (Inr m, idle d') \<and> board_of d' = b"
  shows "implements E d w a"
proof (cases "act_on a (board_of d)")
  case (Some b)
  then show ?thesis using assms(3) by (simp add: implements_def)
next
  case None
  obtain r c where run: "write_op E w (idle d) = (r, c)" by fastforce
  with assms(2) None obtain e where "r = Inl e" by (cases r) auto
  moreover have "c = idle d"
    using failed_op_idle [OF write_op_safe settles_write, of d E w e c] assms(1) run \<open>r = Inl e\<close>
    by (simp add: unhindered_def)
  ultimately show ?thesis using None run by (simp add: implements_def)
qed

section \<open>The four acts\<close>

lemma declare_implemented:
  assumes ok: "unhindered E d (WSetStatus r)"
  shows "implements E d (WSetStatus r) (Declare (ss_node_id r) (declared_str (ss_declared_status r)))"
proof (rule implementsI [OF ok])
  fix m c
  assume "write_op E (WSetStatus r) (idle d) = (Inr m, c)"
  then have "set_status_locked E r (idle d) = (Inr m, c)" by simp
  then show "act_on (Declare (ss_node_id r) (declared_str (ss_declared_status r))) (board_of d) \<noteq> None"
    using set_status_outcome [of d E r m c] ok by (fastforce simp: unhindered_def)
next
  fix b
  let ?f = "\<lambda>n. n\<lparr>n_declared_status := declared_str (ss_declared_status r)\<rparr>"
  assume b: "act_on (Declare (ss_node_id r) (declared_str (ss_declared_status r))) (board_of d) = Some b"
  then obtain n where n: "find_node d (ss_node_id r) = Some n" by (auto split: option.splits)
  obtain m d' where run: "set_status_locked E r (idle d) = (Inr m, idle d')"
    "same_graph (put_node E (ss_node_id r) ?f d) d'"
    using set_status_runs [of d E r n] n ok by (auto simp: unhindered_def)
  have "board_of d' = board_of (put_node E (ss_node_id r) ?f d)" by (rule board_of_same [OF run(2)])
  also have "\<dots> = b"
    using b n by (auto simp: board_of_def find_put_node fun_eq_iff card_of_def dep_edges_def)
  finally show "\<exists>m d'. write_op E (WSetStatus r) (idle d) = (Inr m, idle d') \<and> board_of d' = b"
    using run(1) by auto
qed

lemma insert_dependency_iff:
  assumes "db_inv d"
  shows "(\<exists>x. insert_dependency E a b d = Inr x) \<longleftrightarrow>
    a \<in> node_ids d \<and> b \<in> node_ids d \<and> (b, a) \<notin> (set (dep_edges d))\<^sup>*"
proof -
  have known: "(a, b) \<in> set (dep_edges d) \<Longrightarrow> a \<in> node_ids d \<and> b \<in> node_ids d"
    using assms by (auto simp: inv_defs dep_edges_def)
  show ?thesis
    using dep_guard_None [of d a b] known
    by (cases "dependencies_no_cycle d a b") (auto simp: insert_dependency_def)
qed

lemma block_implemented:
  assumes ok: "unhindered E d (WAddDependency r)"
  shows "implements E d (WAddDependency r) (Block (ad_blocker_id r) (ad_blocked_id r))"
proof (rule implementsI [OF ok])
  let ?a = "ad_blocker_id r" and ?b = "ad_blocked_id r"
  have inv: "db_inv d" and miss: "ledger_hit d p (idem_key (ad_meta r)) = None" for p
    using ok by (simp_all add: unhindered_def)
  {
    fix m c
    assume "write_op E (WAddDependency r) (idle d) = (Inr m, c)"
    then have run: "add_dependency_locked E r (idle d) = (Inr m, c)" by simp
    have "\<exists>x. insert_dependency E ?a ?b d = Inr x"
      using inv run by (cases rule: add_dependency_outcome) (auto simp: miss)
    then show "act_on (Block ?a ?b) (board_of d) \<noteq> None"
      using insert_dependency_iff [OF inv] by simp
  next
    fix b
    assume b: "act_on (Block ?a ?b) (board_of d) = Some b"
    then have ids: "?a \<in> node_ids d" "?b \<in> node_ids d" "(?b, ?a) \<notin> (set (dep_edges d))\<^sup>*"
      by (simp_all split: if_splits)
    then obtain d1 where d1: "insert_dependency E ?a ?b d = Inr ((), d1)"
      using insert_dependency_iff [OF inv, of E ?a ?b] by auto
    obtain m d' where run: "add_dependency_locked E r (idle d) = (Inr m, idle d')" "same_graph d1 d'"
      using add_dependency_runs [of d E r d1] ok ids(1) d1 by (auto simp: unhindered_def)
    have "?a \<noteq> ?b" using ids(3) by auto
    then have "set (dep_edges d1) = insert (?a, ?b) (set (dep_edges d))" "nodes d1 = nodes d"
      using d1 ids dep_guard_None [of d ?a ?b]
      by (auto simp: insert_dependency_def dep_edges_def split: if_splits)
    moreover have "b = (board_of d)\<lparr>b_blocks := insert (?a, ?b) (set (dep_edges d))\<rparr>"
      using b ids by simp
    ultimately have "board_of d1 = b" by (simp add: board_of_def find_node_cong [of d1 d])
    then show "\<exists>m d'. write_op E (WAddDependency r) (idle d) = (Inr m, idle d') \<and> board_of d' = b"
      using run board_of_same by auto
  }
qed

lemma unblock_implemented:
  assumes ok: "unhindered E d (WRemoveDependency r)"
  shows "implements E d (WRemoveDependency r) (Unblock (rd_blocker_id r) (rd_blocked_id r))"
proof (rule implementsI [OF ok])
  let ?a = "rd_blocker_id r" and ?b = "rd_blocked_id r"
  have inv: "db_inv d" and miss: "ledger_hit d p (idem_key (rd_meta r)) = None" for p
    using ok by (simp_all add: unhindered_def)
  {
    fix m c
    assume "write_op E (WRemoveDependency r) (idle d) = (Inr m, c)"
    then have run: "remove_dependency_locked E r (idle d) = (Inr m, c)" by simp
    have "edge_project d ?a \<in> project_ids d"
      using inv run
    proof (cases rule: remove_dependency_outcome)
      case (retry seq)
      then show ?thesis by (simp add: miss)
    next
      case (fresh d1 d')
      have "\<forall>e \<in> set (events d'). e_project_id e \<in> project_ids d'"
        using fresh(4) by (simp add: inv_defs event_ok_def)
      moreover have "project_ids d' = project_ids d"
        using fresh(2,3) log_tail_sel(3) by (auto simp: same_graph_def delete_dependency_def project_ids_def)
      ultimately show ?thesis by (simp add: fresh(3))
    qed
    then have "?a \<in> node_ids d"
      using ok find_node_None [of d ?a] by (auto simp: unhindered_def edge_project_def split: option.splits)
    then show "act_on (Unblock ?a ?b) (board_of d) \<noteq> None" by simp
  next
    fix b
    assume b: "act_on (Unblock ?a ?b) (board_of d) = Some b"
    then have a: "?a \<in> node_ids d" by (simp split: if_splits)
    obtain d1 where d1: "delete_dependency ?a ?b d = Inr ((), d1)" by (simp add: delete_dependency_def)
    obtain m d' where run: "remove_dependency_locked E r (idle d) = (Inr m, idle d')" "same_graph d1 d'"
      using remove_dependency_runs [of d E r d1] ok a d1 by (auto simp: unhindered_def)
    have "set (dep_edges d1) = set (dep_edges d) - {(?a, ?b)}" "nodes d1 = nodes d"
      using d1 by (auto simp: delete_dependency_def dep_edges_def)
    moreover have "b = (board_of d)\<lparr>b_blocks := set (dep_edges d) - {(?a, ?b)}\<rparr>"
      using b a by simp
    ultimately have "board_of d1 = b" by (simp add: board_of_def find_node_cong [of d1 d])
    then show "\<exists>m d'. write_op E (WRemoveDependency r) (idle d) = (Inr m, idle d') \<and> board_of d' = b"
      using run board_of_same by auto
  }
qed

lemma below_subtree:
  assumes "keys_inv d"
  shows "below (board_of d) i = set (subtree d i)"
proof -
  have "b_parents (board_of d) = set (parent_edges d)"
    using find_node_iff [OF assms] by (force simp: b_parents_def parent_edges_iff card_of_def)
  then show ?thesis
    using sql_union.reach_set [of "parent_edges d" i] by (simp add: below_def subtree_def)
qed

lemma subtree_length:
  assumes "i \<in> node_ids d"
  shows "length (subtree d i) \<le> length (nodes d)"
proof -
  have d: "distinct (subtree d i)" "set (subtree d i) = {j. (i, j) \<in> (set (parent_edges d))\<^sup>*}"
    using closure_distinct [of "[]" "parent_edges d" "[i]"] sql_union.reach_set [of "parent_edges d" i]
    by (simp_all add: subtree_def)
  have "j \<in> node_ids d" if "(i, j) \<in> (set (parent_edges d))\<^sup>*" for j
    using that assms by (induction rule: rtrancl_induct) (auto simp: parent_edges_iff node_ids_def)
  then have "set (subtree d i) \<subseteq> set (map n_id (nodes d))" using d(2) by (auto simp: node_ids_def)
  then have "card (set (subtree d i)) \<le> card (set (map n_id (nodes d)))" by (intro card_mono) simp_all
  then show ?thesis
    using distinct_card [OF d(1)] card_length [of "map n_id (nodes d)"] by simp
qed

lemma board_drop:
  assumes "keys_inv d"
  shows "board_of (drop_nodes (subtree d i) d) = \<lparr>b_cards = b_cards (board_of d) |` (- below (board_of d) i),
    b_blocks = {e \<in> b_blocks (board_of d). fst e \<notin> below (board_of d) i \<and> snd e \<notin> below (board_of d) i}\<rparr>"
proof -
  have "set (dep_edges (drop_nodes g d)) = {e \<in> set (dep_edges d). fst e \<notin> set g \<and> snd e \<notin> set g}" for g
    by (auto simp: dep_edges_def drop_nodes_def)
  then show ?thesis
    unfolding below_subtree [OF assms]
    by (auto simp: board_of_def find_node_drop [OF assms] restrict_map_def)
qed

lemma referenced_delete_fails:
  assumes "find_node d (dn_node_id r) = Some n" "ledger_hit d (n_project_id n) (idem_key (dn_meta r)) = None"
    and "dn_fail_if_referenced r" "touched (board_of d) (dn_node_id r)"
  shows "isl (fst (delete_node_locked E r (idle d)))"
proof -
  have "filter (\<lambda>e. d_blocker_id e = dn_node_id r \<or> d_blocked_id e = dn_node_id r) (dependencies d) \<noteq> []"
    using assms(4) by (auto simp: touched_def filter_empty_conv dep_edges_def)
  then show ?thesis
    using assms(1-3) unfolding delete_node_locked_def Let_def node_prologue
    by (simp add: sm_bind_read row_simps sm_bind_def [of "sm_bind x y" for x y] sm_throw_def)
qed

lemma remove_implemented:
  assumes ok: "unhindered E d (WDeleteNode r)"
  shows "implements E d (WDeleteNode r) (Remove (dn_node_id r) (dn_fail_if_referenced r))"
proof (rule implementsI [OF ok])
  let ?i = "dn_node_id r" and ?s = "dn_fail_if_referenced r"
  have inv: "db_inv d" "keys_inv d" and miss: "ledger_hit d p (idem_key (dn_meta r)) = None" for p
    using ok by (simp_all add: unhindered_def db_inv_def)
  {
    fix m c
    assume "write_op E (WDeleteNode r) (idle d) = (Inr m, c)"
    then have run: "delete_node_locked E r (idle d) = (Inr m, c)" by simp
    obtain n where n: "find_node d ?i = Some n"
      using inv(1) run by (cases rule: delete_node_outcome) auto
    have "?s \<longrightarrow> \<not> touched (board_of d) ?i"
      using referenced_delete_fails [OF n miss, of E] run by auto
    then show "act_on (Remove ?i ?s) (board_of d) \<noteq> None"
      using find_node_in_ids [OF n] by simp
  next
    fix b
    assume b: "act_on (Remove ?i ?s) (board_of d) = Some b"
    then have i: "?i \<in> node_ids d" and free: "?s \<Longrightarrow> \<not> touched (board_of d) ?i" by (auto split: if_splits)
    obtain n where n: "find_node d ?i = Some n" using node_ids_find [OF i] by blast
    have room: "last_seq d + int (length (subtree d ?i)) \<le> max_seq"
      using subtree_length [OF i] ok by (simp add: unhindered_def)
    have "\<And>e. ?s \<Longrightarrow> e \<in> set (dependencies d) \<Longrightarrow> d_blocker_id e \<noteq> ?i \<and> d_blocked_id e \<noteq> ?i"
      using free by (fastforce simp: touched_def dep_edges_def)
    with delete_node_runs [OF inv(1) _ _ room n miss] obtain m d' where
      run: "delete_node_locked E r (idle d) = (Inr m, idle d')"
      using ok unfolding unhindered_def by blast
    have "same_graph (drop_nodes (subtree d ?i) d) d'"
      using inv(1) run by (cases rule: delete_node_outcome) (auto simp: miss)
    then have "board_of d' = b"
      using b i free board_of_same board_drop [OF inv(2)] by auto
    then show "\<exists>m d'. write_op E (WDeleteNode r) (idle d) = (Inr m, idle d') \<and> board_of d' = b"
      using run by auto
  }
qed

lemmas acts_implemented = declare_implemented block_implemented unblock_implemented remove_implemented

end
