(* ===== verification/Board_Props.thy ===== *)
theory Board_Props
  imports Board Example
begin

text \<open>
  The refinement theorem: on the graph of nodes and dependencies the store behaves as the board of
  \<open>Board\<close> prescribes, refusals included.
\<close>

text \<open>
  C3: The store implements the board. For every new request of \<open>SetStatus\<close>, \<open>AddDependency\<close>,
  \<open>RemoveDependency\<close> and \<open>DeleteNode\<close> that only the graph itself can stop (event numbers are
  left, the commit works), the operation succeeds exactly when the board allows the act, and the
  board of the new database is then the one the act prescribes; when the board refuses, the
  operation returns an error and leaves the session as it was.
\<close>

theorem store_implements_board:
  assumes "unhindered E d w" "act_of w = Some a"
  shows "case act_on a (board_of d) of
      None \<Rightarrow> \<exists>e. write_op E w (idle d) = (Inl e, idle d)
    | Some b \<Rightarrow> \<exists>m d'. write_op E w (idle d) = (Inr m, idle d') \<and> board_of d' = b"
proof -
  have "implements E d w a" using assms by (cases w) (auto simp: acts_implemented)
  then show ?thesis by (simp add: implements_def)
qed

lemma demo_unhindered:
  assumes "write_key w = None"
  shows "unhindered demo_env demo_db w"
proof -
  have "last_seq demo_db + int (length (nodes demo_db)) < max_seq" "'''' \<notin> project_ids demo_db"
    by (simp_all add: demo_db_def max_seq_def project_ids_def)
  then show ?thesis using assms demo_inv demo_codec by (simp add: unhindered_def ledger_hit_def)
qed

lemma store_implements_board_witness:
  "(\<exists>m d'. write_op demo_env (WDeleteNode \<lparr>dn_meta = None, dn_node_id = ''a'', dn_fail_if_referenced = False\<rparr>)
      (idle demo_db) = (Inr m, idle d') \<and> b_cards (board_of d') ''s'' = None \<and> b_blocks (board_of d') = {}) \<and>
   (\<exists>e. write_op demo_env (WDeleteNode \<lparr>dn_meta = None, dn_node_id = ''a'', dn_fail_if_referenced = True\<rparr>)
      (idle demo_db) = (Inl e, idle demo_db))"
proof -
  let ?w = "\<lambda>s. WDeleteNode \<lparr>dn_meta = None, dn_node_id = ''a'', dn_fail_if_referenced = s\<rparr>"
  let ?b = "board_of demo_db"
  have ok: "unhindered demo_env demo_db (?w s)" "act_of (?w s) = Some (Remove ''a'' s)" for s
    by (rule demo_unhindered) (simp_all add: idem_key_def)
  have e: "set (dep_edges demo_db) = {(''a'', ''b'')}" and a: "''a'' \<in> node_ids demo_db"
    by (auto simp: dep_edges_def demo_db_def node_ids_def demo_node_def)
  have s: "subtree demo_db ''a'' = [''a'', ''s'']" by code_simp
  have b: "below ?b ''a'' = {''a'', ''s''}"
    using below_subtree [of demo_db "''a''"] demo_inv s by (simp add: db_inv_def)
  have "touched ?b ''a''" using e by (simp add: touched_def)
  then have refused: "act_on (Remove ''a'' True) ?b = None"
    and allowed: "act_on (Remove ''a'' False) ?b = Some \<lparr>b_cards = b_cards ?b |` (- {''a'', ''s''}), b_blocks = {}\<rparr>"
    using a e b by auto
  obtain m d' where run: "write_op demo_env (?w False) (idle demo_db) = (Inr m, idle d')"
    and d': "board_of d' = \<lparr>b_cards = b_cards ?b |` (- {''a'', ''s''}), b_blocks = {}\<rparr>"
    using store_implements_board [OF ok, of False] unfolding allowed option.case by blast
  have "b_cards (board_of d') ''s'' = None" "b_blocks (board_of d') = {}" unfolding d' by simp_all
  then show ?thesis
    using run store_implements_board [OF ok, of True] unfolding refused option.case by blast
qed

end
