(* ===== verification/Watch.thy ===== *)
theory Watch
  imports Native_Store
begin

text \<open>
  The \<open>Watch\<close> stream (\<open>flowd/src/grpc/mod.rs\<close>): subscribe to the broadcast channel, replay what the
  log holds after the client's cursor, then forward notifications and heartbeats. The channel and
  the timer belong to tokio: what each turn of the \<open>select!\<close> yields, and whether the client still
  takes messages, are arguments of the loop.
\<close>

section \<open>The task behind the stream\<close>

datatype turn =
    Ticks
  | Receives notified
  | Lags
  | ChannelClosed

definition replay_limit :: nat where
  "replay_limit = 1000"

definition heartbeat_response :: watch_response where
  "heartbeat_response = \<lparr>wtr_events = [], wtr_changed_nodes = [], wtr_changed_progress = [],
     wtr_seq = 0, wtr_resync_required = False, wtr_heartbeat = True\<rparr>"

definition live_response :: "notified \<Rightarrow> watch_response" where
  "live_response m = \<lparr>wtr_events = nt_events m, wtr_changed_nodes = nt_changed_nodes m,
     wtr_changed_progress = nt_changed_progress m, wtr_seq = nt_seq m,
     wtr_resync_required = False, wtr_heartbeat = False\<rparr>"

definition lagged_response :: watch_response where
  "lagged_response = \<lparr>wtr_events = [], wtr_changed_nodes = [], wtr_changed_progress = [],
     wtr_seq = 0, wtr_resync_required = True, wtr_heartbeat = False\<rparr>"

text \<open>The replay; an error of the store is skipped over.\<close>

definition watch_replay :: "int \<Rightarrow> pb_event list res \<Rightarrow> watch_response list" where
  "watch_replay from_seq found =
     (if from_seq > 0
      then (case found of
          Inl e \<Rightarrow> []
        | Inr evs \<Rightarrow>
            (let resync = length evs > replay_limit in
             if evs \<noteq> []
             then [\<lparr>wtr_events = evs, wtr_changed_nodes = [], wtr_changed_progress = [],
               wtr_seq = ev_seq (last evs), wtr_resync_required = resync, wtr_heartbeat = False\<rparr>]
             else []))
      else [])"

text \<open>
  The loop. Each turn comes with whether the client takes the message; a message it does not take
  ends the stream, and so does a lag or a closed channel.
\<close>

fun watch_live :: "string \<Rightarrow> (turn \<times> bool) list \<Rightarrow> watch_response list" where
  "watch_live p [] = []"
| "watch_live p ((Ticks, taken) # ts) = (if taken then heartbeat_response # watch_live p ts else [])"
| "watch_live p ((Receives m, taken) # ts) =
     (if nt_project_id m = p
      then (if taken then live_response m # watch_live p ts else [])
      else watch_live p ts)"
| "watch_live p ((Lags, taken) # ts) = (if taken then [lagged_response] else [])"
| "watch_live p ((ChannelClosed, taken) # ts) = []"

text \<open>The whole stream, the client taking the replay or not.\<close>

definition watch_stream ::
  "watch_request \<Rightarrow> pb_event list res \<Rightarrow> bool \<Rightarrow> (turn \<times> bool) list \<Rightarrow> watch_response list" where
  "watch_stream req found taken ts =
     (if taken then watch_replay (wt_from_seq req) found else []) @ watch_live (wt_project_id req) ts"

section \<open>What the loop forwards\<close>

fun received :: "(turn \<times> bool) list \<Rightarrow> notified list" where
  "received [] = []"
| "received ((Receives m, taken) # ts) = m # received ts"
| "received (t # ts) = received ts"

text \<open>Turns without a lag, a closed channel or a client that has gone.\<close>

definition undisturbed :: "(turn \<times> bool) list \<Rightarrow> bool" where
  "undisturbed ts \<longleftrightarrow> (\<forall>t \<in> set ts. snd t \<and> fst t \<noteq> Lags \<and> fst t \<noteq> ChannelClosed)"

lemma watch_live_forwards:
  "undisturbed ts \<Longrightarrow>
   filter (\<lambda>r. \<not> wtr_heartbeat r) (watch_live p ts) = map live_response (filter (\<lambda>m. nt_project_id m = p) (received ts))"
  by (induction p ts rule: watch_live.induct)
    (auto simp: undisturbed_def heartbeat_response_def live_response_def)

definition delivered :: "watch_response list \<Rightarrow> pb_event set" where
  "delivered rs = (\<Union>r \<in> set rs. set (wtr_events r))"

lemma delivered_append [simp]: "delivered (xs @ ys) = delivered xs \<union> delivered ys"
  by (simp add: delivered_def)

lemma delivered_live:
  assumes "undisturbed ts" "m \<in> set (received ts)" "nt_project_id m = p" "e \<in> set (nt_events m)"
  shows "e \<in> delivered (watch_live p ts)"
proof -
  have "live_response m \<in> set (filter (\<lambda>r. \<not> wtr_heartbeat r) (watch_live p ts))"
    unfolding watch_live_forwards [OF assms(1)] using assms(2,3) by simp
  moreover have "e \<in> set (wtr_events (live_response m))" using assms(4) by (simp add: live_response_def)
  ultimately show ?thesis unfolding delivered_def by fastforce
qed

lemma delivered_replay: "0 < from_seq \<Longrightarrow> delivered (watch_replay from_seq (Inr evs)) = set evs"
  by (simp add: watch_replay_def delivered_def)

text \<open>However the turns come out, a lag is the last thing the client hears.\<close>

lemma watch_live_lag:
  assumes "undisturbed ts"
  shows "watch_live p (ts @ (Lags, True) # us) = watch_live p ts @ [lagged_response]"
  using assms by (induction p ts rule: watch_live.induct) (auto simp: undisturbed_def)

end
