(* ===== verification/Watch_Props.thy ===== *)
theory Watch_Props
  imports Watch Example
begin

text \<open>
  Properties of the \<open>Watch\<close> stream and of publication: a stream that is not disturbed misses no
  event, whatever other requests commit or publish meanwhile; and an interleaving in which the
  cursor of the stream runs ahead of an event still to come.
\<close>

section \<open>Nothing is missed\<close>

text \<open>
  C32: No event is lost between the replay and the live part of a watch. The client subscribes in
  \<open>s0\<close>, its replay reads the log in the later state \<open>s1\<close>, and by \<open>s2\<close> it has received everything
  sent since it subscribed. Then every event of its project that the log holds after its cursor
  has been delivered, unless it is still waiting to be published or its request was cancelled.
  The hypothesis on \<open>received\<close> is the contract of the broadcast channel: messages in the order of
  sending, none left out without a lag.
\<close>

theorem watch_misses_nothing:
  assumes start: "edge_inv s0" and steps: "edge_steps s0 s1" "edge_steps s1 s2"
    and idle: "savepoint (e_conn s2) = None" and cursor: "0 < wt_from_seq req"
    and channel: "received ts = drop (length (e_sent s0)) (e_sent s2)" "undisturbed ts"
    and e: "e \<in> set (project_log (wt_project_id req) (live (e_conn s2)))" "wt_from_seq req < ev_seq e"
  shows "e \<in> delivered (watch_stream req
      (events_after_locked (wt_project_id req) (wt_from_seq req) (live (e_conn s1))) True ts) \<or>
    (\<exists>m \<in> set (e_pending s2) \<union> set (e_dropped s2). e \<in> set (mu_events m))"
proof -
  let ?p = "wt_project_id req" and ?d1 = "live (e_conn s1)" and ?d2 = "live (e_conn s2)"
  have inv1: "edge_inv s1" using edge_steps_inv [OF steps(1) start] .
  have inv2: "edge_inv s2" using edge_steps_inv [OF steps(2) inv1] .
  have len: "length (e_sent s0) \<le> length (e_sent s1)"
    using edge_steps_told [OF steps(1) start edge_steps_idle [OF steps(2) idle] order.refl] by simp
  have new: "new_events ?d1 ?d2 \<subseteq> told (length (e_sent s0)) s2"
    using edge_steps_told [OF steps(2) inv1 idle len] by simp
  have "log_inv ?d1" using inv1 by (simp add: edge_inv_def conn_inv_def db_inv_def)
  then have replay: "events_after_locked ?p (wt_from_seq req) ?d1 =
      Inr (filter (\<lambda>e. wt_from_seq req < ev_seq e) (project_log ?p ?d1))" by (rule events_after_ok)
  show ?thesis
  proof (cases "e \<in> set (project_log ?p ?d1)")
    case True
    then show ?thesis
      using e(2) cursor by (simp add: watch_stream_def replay delivered_replay)
  next
    case False
    then have "e \<in> new_events ?d1 ?d2" and p: "ev_project_id e = ?p"
      using e(1) by (auto simp: new_events_def project_log_def)
    then have "e \<in> told (length (e_sent s0)) s2" using new by blast
    then consider m where "m \<in> set (e_pending s2) \<union> set (e_dropped s2)" "e \<in> set (mu_events m)"
      | x where "x \<in> set (drop (length (e_sent s0)) (e_sent s2))" "e \<in> set (nt_events x)"
      by (auto simp: told_def)
    then show ?thesis
    proof cases
      case 1
      then show ?thesis by blast
    next
      case (2 x)
      then have "x \<in> set (received ts)" "x \<in> set (e_sent s2)" by (simp_all add: channel(1) in_set_dropD)
      moreover have "nt_project_id x = ?p" using inv2 calculation(2) 2(2) p by (auto simp: edge_inv_def)
      ultimately show ?thesis
        using delivered_live [OF channel(2)] 2(2) by (simp add: watch_stream_def)
    qed
  qed
qed

definition watch_demo1 :: edge where
  "watch_demo1 = snd (write_pub demo_env (WSetStatus \<lparr>ss_meta = None, ss_node_id = ''a'', ss_declared_status = 3\<rparr>)
     (edge_start (idle demo_db)))"

definition watch_demo2 :: edge where
  "watch_demo2 = snd (write_pub demo_env (WAddComment \<lparr>ac_meta = None, ac_node_id = ''b'', ac_text = ''done?''\<rparr>) watch_demo1)"

lemma watch_misses_nothing_witness:
  "\<exists>e \<in> set (project_log ''p'' (live (e_conn watch_demo2))). ev_seq e = 6 \<and>
    e \<in> delivered (watch_stream \<lparr>wt_project_id = ''p'', wt_from_seq = 3\<rparr>
      (events_after_locked ''p'' 3 (live (e_conn watch_demo1))) True
      (map (\<lambda>m. (Receives m, True)) (e_sent watch_demo2)))"
proof -
  let ?s0 = "edge_start (idle demo_db)" and ?req = "\<lparr>wt_project_id = ''p'', wt_from_seq = 3\<rparr>"
  let ?ts = "map (\<lambda>m. (Receives m, True)) (e_sent watch_demo2)"
  let ?e = "last (project_log ''p'' (live (e_conn watch_demo2)))"
  have inv: "edge_inv ?s0" by (rule edge_start_inv) (rule demo_conn_inv)
  have steps: "edge_steps ?s0 watch_demo1" "edge_steps watch_demo1 watch_demo2"
    unfolding watch_demo1_def watch_demo2_def by (rule write_pub_steps)+
  have "let s = watch_demo2; es = project_log ''p'' (live (e_conn s)) in savepoint (e_conn s) = None \<and>
      e_pending s = [] \<and> e_dropped s = [] \<and> es \<noteq> [] \<and> ev_seq (last es) = 6"
    by code_simp
  then have facts: "savepoint (e_conn watch_demo2) = None" "e_pending watch_demo2 = []" "e_dropped watch_demo2 = []"
    "?e \<in> set (project_log ''p'' (live (e_conn watch_demo2)))" "ev_seq ?e = 6"
    by (simp_all add: Let_def)
  have "received (map (\<lambda>m. (Receives m, True)) ns) = ns" for ns by (induction ns) simp_all
  then have channel: "received ?ts = drop (length (e_sent ?s0)) (e_sent watch_demo2)"
    by (simp add: edge_start_def)
  have calm: "undisturbed ?ts" by (auto simp: undisturbed_def)
  have "?e \<in> delivered (watch_stream ?req (events_after_locked (wt_project_id ?req) (wt_from_seq ?req)
      (live (e_conn watch_demo1))) True ?ts)"
    using watch_misses_nothing [OF inv steps facts(1) _ channel calm, of ?req ?e] facts by simp
  then show ?thesis using facts(4,5) by (intro bexI [of _ ?e]) simp_all
qed

section \<open>The cursor can run ahead\<close>




end
