(* ===== verification/Grpc.thy ===== *)
theory Grpc
  imports Watch
begin

text \<open>
  The gRPC service of the daemon: the handlers (\<open>flowd/src/grpc/mod.rs\<close>) and the routing that
  \<open>tonic-build\<close> generated for them (\<open>flowcore/src/generated/flow.v1.tonic.rs\<close>). A handler runs
  alone here, from the call to its answer; how the writes behind it interleave is the subject
  of \<open>Native_Store\<close>.
\<close>

section \<open>Statuses\<close>

text \<open>The statuses of the daemon's own answers, and the one a client stub makes up.\<close>

datatype grpc_status =
    StatusNotFound string
  | StatusInvalidArgument string
  | StatusFailedPrecondition string
  | StatusInternal string
  | StatusUnknown string

definition into_status :: "domain_error \<Rightarrow> grpc_status" where
  "into_status e = (case err_code e of
     NotFound \<Rightarrow> StatusNotFound (err_message e)
   | InvalidArgument \<Rightarrow> StatusInvalidArgument (err_message e)
   | FailedPrecondition \<Rightarrow> StatusFailedPrecondition (err_message e)
   | Internal \<Rightarrow> StatusInternal (err_message e))"

section \<open>Reads and project writes of the native store\<close>

definition native_read :: "(db \<Rightarrow> 'a res) \<Rightarrow> edge \<Rightarrow> 'a res \<times> edge" where
  "native_read q s = (offload (Inr (q (live (e_conn s)))), s)"

definition native_list_projects :: "bool \<Rightarrow> edge \<Rightarrow> pb_project list res \<times> edge" where
  "native_list_projects archived = native_read (list_projects_locked archived)"

definition native_get_snapshot :: "string \<Rightarrow> edge \<Rightarrow> get_snapshot_response res \<times> edge" where
  "native_get_snapshot pid = native_read (get_snapshot_locked pid)"

definition native_events_after :: "string \<Rightarrow> int \<Rightarrow> edge \<Rightarrow> pb_event list res \<times> edge" where
  "native_events_after pid from_seq = native_read (events_after_locked pid from_seq)"

definition native_poll_changes :: "string \<Rightarrow> int \<Rightarrow> int \<Rightarrow> edge \<Rightarrow> poll_changes_response res \<times> edge" where
  "native_poll_changes pid after_seq lim = native_read (poll_changes_locked pid after_seq lim)"

definition native_list_events ::
  "string \<Rightarrow> string \<Rightarrow> int \<Rightarrow> int \<Rightarrow> edge \<Rightarrow> (pb_event list \<times> bool) res \<times> edge" where
  "native_list_events pid nid before_seq lim = native_read (list_events_locked pid nid before_seq lim)"

definition native_search ::
  "(string \<Rightarrow> db \<Rightarrow> string list res) \<Rightarrow> string \<Rightarrow> string \<Rightarrow> int \<Rightarrow> edge \<Rightarrow> pb_node list res \<times> edge" where
  "native_search fts pid q lim = native_read (search_locked fts pid q lim)"

lemmas native_read_defs = native_list_projects_def native_get_snapshot_def native_events_after_def
  native_poll_changes_def native_list_events_def native_search_def

definition native_project :: "env \<Rightarrow> project_request \<Rightarrow> edge \<Rightarrow> pb_project res \<times> edge" where
  "native_project E w s = (case project_op E w (e_conn s) of (r, c) \<Rightarrow> (offload (Inr r), s\<lparr>e_conn := c\<rparr>))"

section \<open>Handlers\<close>

text \<open>\<open>map_err(into_status)\<close>, and the response message around what the store returned.\<close>

definition respond :: "('a \<Rightarrow> 'b) \<Rightarrow> 'a res \<times> 's \<Rightarrow> (grpc_status + 'b) \<times> 's" where
  "respond wrap = (\<lambda>(r, s). (map_sum into_status wrap r, s))"

definition grpc_list_projects ::
  "list_projects_request \<Rightarrow> edge \<Rightarrow> (grpc_status + list_projects_response) \<times> edge" where
  "grpc_list_projects r s = respond (\<lambda>ps. \<lparr>lpr_projects = ps\<rparr>)
     (native_list_projects (lp_include_archived r) s)"

definition grpc_get_snapshot ::
  "get_snapshot_request \<Rightarrow> edge \<Rightarrow> (grpc_status + get_snapshot_response) \<times> edge" where
  "grpc_get_snapshot r s = respond (\<lambda>x. x) (native_get_snapshot (gs_project_id r) s)"

definition grpc_list_events ::
  "list_events_request \<Rightarrow> edge \<Rightarrow> (grpc_status + list_events_response) \<times> edge" where
  "grpc_list_events r s = respond (\<lambda>(evs, more). \<lparr>ler_events = evs, ler_has_more = more\<rparr>)
     (native_list_events (le_project_id r) (le_node_id r) (le_before_seq r) (le_limit r) s)"

definition grpc_search ::
  "(string \<Rightarrow> db \<Rightarrow> string list res) \<Rightarrow> search_request \<Rightarrow> edge \<Rightarrow> (grpc_status + search_response) \<times> edge" where
  "grpc_search fts r s = respond (\<lambda>ns. \<lparr>srr_nodes = ns\<rparr>)
     (native_search fts (sr_project_id r) (sr_query r) (sr_limit r) s)"

definition grpc_poll_changes ::
  "poll_changes_request \<Rightarrow> edge \<Rightarrow> (grpc_status + poll_changes_response) \<times> edge" where
  "grpc_poll_changes r s = respond (\<lambda>x. x)
     (native_poll_changes (pc_project_id r) (pc_after_seq r) (pc_limit r) s)"

definition grpc_create_node ::
  "env \<Rightarrow> create_node_request \<Rightarrow> edge \<Rightarrow> (grpc_status + create_node_response) \<times> edge" where
  "grpc_create_node E r s = respond (\<lambda>m. \<lparr>cnr_mutation = Some m\<rparr>) (write_pub E (WCreateNode r) s)"

definition grpc_update_node ::
  "env \<Rightarrow> update_node_request \<Rightarrow> edge \<Rightarrow> (grpc_status + update_node_response) \<times> edge" where
  "grpc_update_node E r s = respond (\<lambda>m. \<lparr>unr_mutation = Some m\<rparr>) (write_pub E (WUpdateNode r) s)"

definition grpc_delete_node ::
  "env \<Rightarrow> delete_node_request \<Rightarrow> edge \<Rightarrow> (grpc_status + delete_node_response) \<times> edge" where
  "grpc_delete_node E r s = respond (\<lambda>m. \<lparr>dnr_mutation = Some m\<rparr>) (write_pub E (WDeleteNode r) s)"

definition grpc_set_status ::
  "env \<Rightarrow> set_status_request \<Rightarrow> edge \<Rightarrow> (grpc_status + set_status_response) \<times> edge" where
  "grpc_set_status E r s = respond (\<lambda>m. \<lparr>ssr_mutation = Some m\<rparr>) (write_pub E (WSetStatus r) s)"

definition grpc_report_condition ::
  "env \<Rightarrow> report_condition_request \<Rightarrow> edge \<Rightarrow> (grpc_status + report_condition_response) \<times> edge" where
  "grpc_report_condition E r s = respond (\<lambda>m. \<lparr>rcr_mutation = Some m\<rparr>) (write_pub E (WReportCondition r) s)"

definition grpc_set_verdict ::
  "env \<Rightarrow> set_verdict_request \<Rightarrow> edge \<Rightarrow> (grpc_status + set_verdict_response) \<times> edge" where
  "grpc_set_verdict E r s = respond (\<lambda>m. \<lparr>svr_mutation = Some m\<rparr>) (write_pub E (WSetVerdict r) s)"

definition grpc_add_comment ::
  "env \<Rightarrow> add_comment_request \<Rightarrow> edge \<Rightarrow> (grpc_status + add_comment_response) \<times> edge" where
  "grpc_add_comment E r s = respond (\<lambda>m. \<lparr>acr_mutation = Some m\<rparr>) (write_pub E (WAddComment r) s)"

definition grpc_add_dependency ::
  "env \<Rightarrow> add_dependency_request \<Rightarrow> edge \<Rightarrow> (grpc_status + add_dependency_response) \<times> edge" where
  "grpc_add_dependency E r s = respond (\<lambda>m. \<lparr>adr_mutation = Some m\<rparr>) (write_pub E (WAddDependency r) s)"

definition grpc_remove_dependency ::
  "env \<Rightarrow> remove_dependency_request \<Rightarrow> edge \<Rightarrow> (grpc_status + remove_dependency_response) \<times> edge" where
  "grpc_remove_dependency E r s = respond (\<lambda>m. \<lparr>rdr_mutation = Some m\<rparr>) (write_pub E (WRemoveDependency r) s)"

definition grpc_undo ::
  "env \<Rightarrow> undo_request \<Rightarrow> edge \<Rightarrow> (grpc_status + undo_response) \<times> edge" where
  "grpc_undo E r s = respond (\<lambda>m. \<lparr>udr_mutation = Some m\<rparr>) (write_pub E (WUndo r) s)"

definition grpc_move_node ::
  "env \<Rightarrow> move_node_request \<Rightarrow> edge \<Rightarrow> (grpc_status + move_node_response) \<times> edge" where
  "grpc_move_node E r s = respond (\<lambda>m. \<lparr>mvr_mutation = Some m\<rparr>) (write_pub E (WMoveNode r) s)"

definition grpc_create_project ::
  "env \<Rightarrow> create_project_request \<Rightarrow> edge \<Rightarrow> (grpc_status + create_project_response) \<times> edge" where
  "grpc_create_project E r s = respond (\<lambda>p. \<lparr>cpr_project = Some p\<rparr>) (native_project E (WCreateProject r) s)"

definition grpc_update_project ::
  "env \<Rightarrow> update_project_request \<Rightarrow> edge \<Rightarrow> (grpc_status + update_project_response) \<times> edge" where
  "grpc_update_project E r s = respond (\<lambda>p. \<lparr>upr_project = Some p\<rparr>) (native_project E (WUpdateProject r) s)"

definition grpc_archive_project ::
  "env \<Rightarrow> archive_project_request \<Rightarrow> edge \<Rightarrow> (grpc_status + archive_project_response) \<times> edge" where
  "grpc_archive_project E r s = respond (\<lambda>p. \<lparr>apr_project = Some p\<rparr>) (native_project E (WArchiveProject r) s)"

section \<open>The arms of the router\<close>

text \<open>
  One arm of the generated server: the message is decoded, the handler called and its response
  encoded. How tonic reports an undecodable message is the parameter \<open>bad\<close>.
\<close>

definition svc_unary ::
  "(bytes \<Rightarrow> string + 'r) \<Rightarrow> ('r \<Rightarrow> 's \<Rightarrow> (grpc_status + 'b) \<times> 's) \<Rightarrow> ('b \<Rightarrow> bytes) \<Rightarrow>
   (string \<Rightarrow> grpc_status) \<Rightarrow> bytes \<Rightarrow> 's \<Rightarrow> (grpc_status + bytes) \<times> 's" where
  "svc_unary dec handler enc bad bs s = (case dec bs of
     Inl e \<Rightarrow> (Inl (bad e), s)
   | Inr r \<Rightarrow> (case handler r s of (x, s') \<Rightarrow> (map_sum id enc x, s')))"

definition svc_list_projects ::
  "codec \<Rightarrow> (string \<Rightarrow> grpc_status) \<Rightarrow> bytes \<Rightarrow> edge \<Rightarrow> (grpc_status + bytes) \<times> edge" where
  "svc_list_projects C = svc_unary (dec_list_projects C) grpc_list_projects (enc_list_projects C)"

definition svc_get_snapshot ::
  "codec \<Rightarrow> (string \<Rightarrow> grpc_status) \<Rightarrow> bytes \<Rightarrow> edge \<Rightarrow> (grpc_status + bytes) \<times> edge" where
  "svc_get_snapshot C = svc_unary (dec_get_snapshot C) grpc_get_snapshot (enc_get_snapshot C)"

definition svc_list_events ::
  "codec \<Rightarrow> (string \<Rightarrow> grpc_status) \<Rightarrow> bytes \<Rightarrow> edge \<Rightarrow> (grpc_status + bytes) \<times> edge" where
  "svc_list_events C = svc_unary (dec_list_events C) grpc_list_events (enc_list_events C)"

definition svc_search ::
  "(string \<Rightarrow> db \<Rightarrow> string list res) \<Rightarrow> codec \<Rightarrow> (string \<Rightarrow> grpc_status) \<Rightarrow> bytes \<Rightarrow> edge \<Rightarrow> (grpc_status + bytes) \<times> edge" where
  "svc_search fts C = svc_unary (dec_search C) (grpc_search fts) (enc_search C)"

definition svc_poll_changes ::
  "codec \<Rightarrow> (string \<Rightarrow> grpc_status) \<Rightarrow> bytes \<Rightarrow> edge \<Rightarrow> (grpc_status + bytes) \<times> edge" where
  "svc_poll_changes C = svc_unary (dec_poll_changes C) grpc_poll_changes (enc_poll_changes C)"

definition svc_create_node ::
  "env \<Rightarrow> codec \<Rightarrow> (string \<Rightarrow> grpc_status) \<Rightarrow> bytes \<Rightarrow> edge \<Rightarrow> (grpc_status + bytes) \<times> edge" where
  "svc_create_node E C = svc_unary (dec_create_node C) (grpc_create_node E) (enc_create_node C)"

definition svc_update_node ::
  "env \<Rightarrow> codec \<Rightarrow> (string \<Rightarrow> grpc_status) \<Rightarrow> bytes \<Rightarrow> edge \<Rightarrow> (grpc_status + bytes) \<times> edge" where
  "svc_update_node E C = svc_unary (dec_update_node C) (grpc_update_node E) (enc_update_node C)"

definition svc_delete_node ::
  "env \<Rightarrow> codec \<Rightarrow> (string \<Rightarrow> grpc_status) \<Rightarrow> bytes \<Rightarrow> edge \<Rightarrow> (grpc_status + bytes) \<times> edge" where
  "svc_delete_node E C = svc_unary (dec_delete_node C) (grpc_delete_node E) (enc_delete_node C)"

definition svc_set_status ::
  "env \<Rightarrow> codec \<Rightarrow> (string \<Rightarrow> grpc_status) \<Rightarrow> bytes \<Rightarrow> edge \<Rightarrow> (grpc_status + bytes) \<times> edge" where
  "svc_set_status E C = svc_unary (dec_set_status C) (grpc_set_status E) (enc_set_status C)"

definition svc_report_condition ::
  "env \<Rightarrow> codec \<Rightarrow> (string \<Rightarrow> grpc_status) \<Rightarrow> bytes \<Rightarrow> edge \<Rightarrow> (grpc_status + bytes) \<times> edge" where
  "svc_report_condition E C = svc_unary (dec_report_condition C) (grpc_report_condition E) (enc_report_condition C)"

definition svc_set_verdict ::
  "env \<Rightarrow> codec \<Rightarrow> (string \<Rightarrow> grpc_status) \<Rightarrow> bytes \<Rightarrow> edge \<Rightarrow> (grpc_status + bytes) \<times> edge" where
  "svc_set_verdict E C = svc_unary (dec_set_verdict C) (grpc_set_verdict E) (enc_set_verdict C)"

definition svc_add_comment ::
  "env \<Rightarrow> codec \<Rightarrow> (string \<Rightarrow> grpc_status) \<Rightarrow> bytes \<Rightarrow> edge \<Rightarrow> (grpc_status + bytes) \<times> edge" where
  "svc_add_comment E C = svc_unary (dec_add_comment C) (grpc_add_comment E) (enc_add_comment C)"

definition svc_add_dependency ::
  "env \<Rightarrow> codec \<Rightarrow> (string \<Rightarrow> grpc_status) \<Rightarrow> bytes \<Rightarrow> edge \<Rightarrow> (grpc_status + bytes) \<times> edge" where
  "svc_add_dependency E C = svc_unary (dec_add_dependency C) (grpc_add_dependency E) (enc_add_dependency C)"

definition svc_remove_dependency ::
  "env \<Rightarrow> codec \<Rightarrow> (string \<Rightarrow> grpc_status) \<Rightarrow> bytes \<Rightarrow> edge \<Rightarrow> (grpc_status + bytes) \<times> edge" where
  "svc_remove_dependency E C = svc_unary (dec_remove_dependency C) (grpc_remove_dependency E) (enc_remove_dependency C)"

definition svc_undo ::
  "env \<Rightarrow> codec \<Rightarrow> (string \<Rightarrow> grpc_status) \<Rightarrow> bytes \<Rightarrow> edge \<Rightarrow> (grpc_status + bytes) \<times> edge" where
  "svc_undo E C = svc_unary (dec_undo C) (grpc_undo E) (enc_undo C)"

definition svc_move_node ::
  "env \<Rightarrow> codec \<Rightarrow> (string \<Rightarrow> grpc_status) \<Rightarrow> bytes \<Rightarrow> edge \<Rightarrow> (grpc_status + bytes) \<times> edge" where
  "svc_move_node E C = svc_unary (dec_move_node C) (grpc_move_node E) (enc_move_node C)"

definition svc_create_project ::
  "env \<Rightarrow> codec \<Rightarrow> (string \<Rightarrow> grpc_status) \<Rightarrow> bytes \<Rightarrow> edge \<Rightarrow> (grpc_status + bytes) \<times> edge" where
  "svc_create_project E C = svc_unary (dec_create_project C) (grpc_create_project E) (enc_create_project C)"

definition svc_update_project ::
  "env \<Rightarrow> codec \<Rightarrow> (string \<Rightarrow> grpc_status) \<Rightarrow> bytes \<Rightarrow> edge \<Rightarrow> (grpc_status + bytes) \<times> edge" where
  "svc_update_project E C = svc_unary (dec_update_project C) (grpc_update_project E) (enc_update_project C)"

definition svc_archive_project ::
  "env \<Rightarrow> codec \<Rightarrow> (string \<Rightarrow> grpc_status) \<Rightarrow> bytes \<Rightarrow> edge \<Rightarrow> (grpc_status + bytes) \<times> edge" where
  "svc_archive_project E C = svc_unary (dec_archive_project C) (grpc_archive_project E) (enc_archive_project C)"

section \<open>Routing\<close>

text \<open>A unary answer, an opened stream, or the \<open>grpc-status\<close> 12 of a path nobody serves.\<close>

datatype 'w reply =
    UnaryReply "grpc_status + bytes"
  | StreamReply "grpc_status + 'w"
  | Unimplemented

definition service_path :: "string \<Rightarrow> string" where
  "service_path m = ''/flow.v1.FlowService/'' @ m"

definition svc_watch ::
  "(bytes \<Rightarrow> string + watch_request) \<Rightarrow> (string \<Rightarrow> grpc_status) \<Rightarrow> bytes \<Rightarrow> grpc_status + watch_request" where
  "svc_watch dec bad bs = map_sum bad id (dec bs)"

definition grpc_serve ::
  "codec \<Rightarrow> (bytes \<Rightarrow> string + watch_request) \<Rightarrow> (string \<Rightarrow> db \<Rightarrow> string list res) \<Rightarrow> env \<Rightarrow>
   (string \<Rightarrow> grpc_status) \<Rightarrow> string \<Rightarrow> bytes \<Rightarrow> edge \<Rightarrow> watch_request reply \<times> edge" where
  "grpc_serve C dec_watch fts E bad path bs s = (let unary = map_prod UnaryReply id in
     if path = ''/flow.v1.FlowService/ListProjects'' then unary (svc_list_projects C bad bs s)
     else if path = ''/flow.v1.FlowService/GetSnapshot'' then unary (svc_get_snapshot C bad bs s)
     else if path = ''/flow.v1.FlowService/ListEvents'' then unary (svc_list_events C bad bs s)
     else if path = ''/flow.v1.FlowService/Search'' then unary (svc_search fts C bad bs s)
     else if path = ''/flow.v1.FlowService/PollChanges'' then unary (svc_poll_changes C bad bs s)
     else if path = ''/flow.v1.FlowService/Watch'' then (StreamReply (svc_watch dec_watch bad bs), s)
     else if path = ''/flow.v1.FlowService/CreateNode'' then unary (svc_create_node E C bad bs s)
     else if path = ''/flow.v1.FlowService/UpdateNode'' then unary (svc_update_node E C bad bs s)
     else if path = ''/flow.v1.FlowService/DeleteNode'' then unary (svc_delete_node E C bad bs s)
     else if path = ''/flow.v1.FlowService/SetStatus'' then unary (svc_set_status E C bad bs s)
     else if path = ''/flow.v1.FlowService/ReportCondition'' then unary (svc_report_condition E C bad bs s)
     else if path = ''/flow.v1.FlowService/SetVerdict'' then unary (svc_set_verdict E C bad bs s)
     else if path = ''/flow.v1.FlowService/AddComment'' then unary (svc_add_comment E C bad bs s)
     else if path = ''/flow.v1.FlowService/AddDependency'' then unary (svc_add_dependency E C bad bs s)
     else if path = ''/flow.v1.FlowService/RemoveDependency'' then unary (svc_remove_dependency E C bad bs s)
     else if path = ''/flow.v1.FlowService/Undo'' then unary (svc_undo E C bad bs s)
     else if path = ''/flow.v1.FlowService/MoveNode'' then unary (svc_move_node E C bad bs s)
     else if path = ''/flow.v1.FlowService/CreateProject'' then unary (svc_create_project E C bad bs s)
     else if path = ''/flow.v1.FlowService/UpdateProject'' then unary (svc_update_project E C bad bs s)
     else if path = ''/flow.v1.FlowService/ArchiveProject'' then unary (svc_archive_project E C bad bs s)
     else (Unimplemented, s))"

end
