(* ===== verification/Grpc_Props.thy ===== *)
theory Grpc_Props
  imports Grpc Example
begin

text \<open>
  The gRPC edge and \<open>dispatch\<close>, the entry point of the other hosts, are two implementations of the
  same service: on every unary path they agree, up to the form in which errors are reported.
\<close>

definition agrees ::
  "(string \<Rightarrow> grpc_status) \<Rightarrow> (grpc_status + bytes) \<times> edge \<Rightarrow> bytes res \<times> db conn \<Rightarrow> bool" where
  "agrees bad a b \<longleftrightarrow> e_conn (snd a) = snd b \<and> (fst a = map_sum into_status id (fst b) \<or>
     (\<exists>e. fst b = Inl (invalid_argument (''bad request: '' @ e)) \<and> fst a = Inl (bad e)))"

lemma agrees_unary:
  assumes handler: "\<And>r. handler r s = respond wrap (res r)"
    and run: "\<And>r. run r (e_conn s) = (fst (res r), e_conn (snd (res r)))"
    and enc: "\<And>x. enc' x = enc (wrap x)"
  shows "agrees bad (svc_unary dec handler enc bad bs s) (answer dec run enc' bs (e_conn s))"
proof (cases "dec bs")
  case (Inl e)
  then show ?thesis
    by (auto simp: agrees_def svc_unary_def answer_def decode_def sm_bind_def lift_res_def)
next
  case (Inr r)
  obtain x s' where res: "res r = (x, s')" by fastforce
  then have "run r (e_conn s) = (x, e_conn s')" using run by simp
  then show ?thesis
    by (cases x) (simp_all add: Inr agrees_def svc_unary_def answer_def decode_def sm_bind_def
        lift_res_def handler respond_def res enc sm_return_def)
qed

lemma offload_done [simp]: "offload (Inr r) = r"
  by (simp add: offload_def)

lemma native_read_run:
  "read_db q (e_conn s) = (fst (native_read q s), e_conn (snd (native_read q s)))"
  by (simp add: native_read_def read_db_def)

lemma write_pub_run:
  "write_op E w (e_conn s) = (fst (write_pub E w s), e_conn (snd (write_pub E w s)))"
  by (auto simp: write_pub_def split: prod.split sum.split)

lemma native_project_run:
  "project_op E w (e_conn s) = (fst (native_project E w s), e_conn (snd (native_project E w s)))"
  by (simp add: native_project_def split: prod.split)

lemma agrees_read:
  assumes "\<And>r. handler r s = respond wrap (native_read (q r) s)" "\<And>x. enc' x = enc (wrap x)"
  shows "agrees bad (svc_unary dec handler enc bad bs s) (answer dec (\<lambda>r. read_db (q r)) enc' bs (e_conn s))"
  by (rule agrees_unary [where res = "\<lambda>r. native_read (q r) s"]) (simp_all add: assms native_read_run [symmetric])

lemma agrees_write:
  assumes "\<And>r. handler r s = respond wrap (write_pub E (W r) s)" "\<And>r. run r = write_op E (W r)"
    "\<And>x. enc' x = enc (wrap x)"
  shows "agrees bad (svc_unary dec handler enc bad bs s) (answer dec run enc' bs (e_conn s))"
  by (rule agrees_unary [where res = "\<lambda>r. write_pub E (W r) s"]) (simp_all add: assms write_pub_run [symmetric])

lemma agrees_project:
  assumes "\<And>r. handler r s = respond wrap (native_project E (W r) s)" "\<And>r. run r = project_op E (W r)"
    "\<And>x. enc' x = enc (wrap x)"
  shows "agrees bad (svc_unary dec handler enc bad bs s) (answer dec run enc' bs (e_conn s))"
  by (rule agrees_unary [where res = "\<lambda>r. native_project E (W r) s"]) (simp_all add: assms native_project_run [symmetric])

definition unary_methods :: "string list" where
  "unary_methods = [''ListProjects'', ''GetSnapshot'', ''ListEvents'', ''Search'', ''PollChanges'',
     ''CreateNode'', ''UpdateNode'', ''DeleteNode'', ''SetStatus'', ''ReportCondition'', ''SetVerdict'',
     ''AddComment'', ''AddDependency'', ''RemoveDependency'', ''Undo'', ''MoveNode'', ''CreateProject'',
     ''UpdateProject'', ''ArchiveProject'']"

lemma list_projects_agrees: "agrees bad (svc_list_projects C bad bs s) (dispatch C fts E ''ListProjects'' bs (e_conn s))"
  unfolding svc_list_projects_def by (auto simp: dispatch_def grpc_list_projects_def native_read_defs intro!: agrees_read)

lemma get_snapshot_agrees: "agrees bad (svc_get_snapshot C bad bs s) (dispatch C fts E ''GetSnapshot'' bs (e_conn s))"
  unfolding svc_get_snapshot_def by (auto simp: dispatch_def grpc_get_snapshot_def native_read_defs intro!: agrees_read)

lemma list_events_agrees: "agrees bad (svc_list_events C bad bs s) (dispatch C fts E ''ListEvents'' bs (e_conn s))"
  unfolding svc_list_events_def by (auto simp: dispatch_def grpc_list_events_def native_read_defs intro!: agrees_read)

lemma search_agrees: "agrees bad (svc_search fts C bad bs s) (dispatch C fts E ''Search'' bs (e_conn s))"
  unfolding svc_search_def by (auto simp: dispatch_def grpc_search_def native_read_defs intro!: agrees_read)

lemma poll_changes_agrees: "agrees bad (svc_poll_changes C bad bs s) (dispatch C fts E ''PollChanges'' bs (e_conn s))"
  unfolding svc_poll_changes_def by (auto simp: dispatch_def grpc_poll_changes_def native_read_defs intro!: agrees_read)

lemma create_node_agrees: "agrees bad (svc_create_node E C bad bs s) (dispatch C fts E ''CreateNode'' bs (e_conn s))"
  unfolding svc_create_node_def by (auto simp: dispatch_def grpc_create_node_def intro!: agrees_write [where E = E and W = WCreateNode])

lemma update_node_agrees: "agrees bad (svc_update_node E C bad bs s) (dispatch C fts E ''UpdateNode'' bs (e_conn s))"
  unfolding svc_update_node_def by (auto simp: dispatch_def grpc_update_node_def intro!: agrees_write [where E = E and W = WUpdateNode])

lemma delete_node_agrees: "agrees bad (svc_delete_node E C bad bs s) (dispatch C fts E ''DeleteNode'' bs (e_conn s))"
  unfolding svc_delete_node_def by (auto simp: dispatch_def grpc_delete_node_def intro!: agrees_write [where E = E and W = WDeleteNode])

lemma set_status_agrees: "agrees bad (svc_set_status E C bad bs s) (dispatch C fts E ''SetStatus'' bs (e_conn s))"
  unfolding svc_set_status_def by (auto simp: dispatch_def grpc_set_status_def intro!: agrees_write [where E = E and W = WSetStatus])

lemma report_condition_agrees: "agrees bad (svc_report_condition E C bad bs s) (dispatch C fts E ''ReportCondition'' bs (e_conn s))"
  unfolding svc_report_condition_def by (auto simp: dispatch_def grpc_report_condition_def intro!: agrees_write [where E = E and W = WReportCondition])

lemma set_verdict_agrees: "agrees bad (svc_set_verdict E C bad bs s) (dispatch C fts E ''SetVerdict'' bs (e_conn s))"
  unfolding svc_set_verdict_def by (auto simp: dispatch_def grpc_set_verdict_def intro!: agrees_write [where E = E and W = WSetVerdict])

lemma add_comment_agrees: "agrees bad (svc_add_comment E C bad bs s) (dispatch C fts E ''AddComment'' bs (e_conn s))"
  unfolding svc_add_comment_def by (auto simp: dispatch_def grpc_add_comment_def intro!: agrees_write [where E = E and W = WAddComment])

lemma add_dependency_agrees: "agrees bad (svc_add_dependency E C bad bs s) (dispatch C fts E ''AddDependency'' bs (e_conn s))"
  unfolding svc_add_dependency_def by (auto simp: dispatch_def grpc_add_dependency_def intro!: agrees_write [where E = E and W = WAddDependency])

lemma remove_dependency_agrees: "agrees bad (svc_remove_dependency E C bad bs s) (dispatch C fts E ''RemoveDependency'' bs (e_conn s))"
  unfolding svc_remove_dependency_def by (auto simp: dispatch_def grpc_remove_dependency_def intro!: agrees_write [where E = E and W = WRemoveDependency])

lemma undo_agrees: "agrees bad (svc_undo E C bad bs s) (dispatch C fts E ''Undo'' bs (e_conn s))"
  unfolding svc_undo_def by (auto simp: dispatch_def grpc_undo_def intro!: agrees_write [where E = E and W = WUndo])

lemma move_node_agrees: "agrees bad (svc_move_node E C bad bs s) (dispatch C fts E ''MoveNode'' bs (e_conn s))"
  unfolding svc_move_node_def by (auto simp: dispatch_def grpc_move_node_def intro!: agrees_write [where E = E and W = WMoveNode])

lemma create_project_agrees: "agrees bad (svc_create_project E C bad bs s) (dispatch C fts E ''CreateProject'' bs (e_conn s))"
  unfolding svc_create_project_def by (auto simp: dispatch_def grpc_create_project_def intro!: agrees_project [where E = E and W = WCreateProject])

lemma update_project_agrees: "agrees bad (svc_update_project E C bad bs s) (dispatch C fts E ''UpdateProject'' bs (e_conn s))"
  unfolding svc_update_project_def by (auto simp: dispatch_def grpc_update_project_def intro!: agrees_project [where E = E and W = WUpdateProject])

lemma archive_project_agrees: "agrees bad (svc_archive_project E C bad bs s) (dispatch C fts E ''ArchiveProject'' bs (e_conn s))"
  unfolding svc_archive_project_def by (auto simp: dispatch_def grpc_archive_project_def intro!: agrees_project [where E = E and W = WArchiveProject])

lemmas all_agree = list_projects_agrees get_snapshot_agrees list_events_agrees search_agrees
  poll_changes_agrees create_node_agrees update_node_agrees delete_node_agrees
  set_status_agrees report_condition_agrees set_verdict_agrees add_comment_agrees
  add_dependency_agrees remove_dependency_agrees undo_agrees move_node_agrees
  create_project_agrees update_project_agrees archive_project_agrees

section \<open>Two front doors, one service\<close>

lemma serve_arms:
  "grpc_serve C dec_watch fts E bad (service_path ''ListProjects'') bs s = map_prod UnaryReply id (svc_list_projects C bad bs s)"
  "grpc_serve C dec_watch fts E bad (service_path ''GetSnapshot'') bs s = map_prod UnaryReply id (svc_get_snapshot C bad bs s)"
  "grpc_serve C dec_watch fts E bad (service_path ''ListEvents'') bs s = map_prod UnaryReply id (svc_list_events C bad bs s)"
  "grpc_serve C dec_watch fts E bad (service_path ''Search'') bs s = map_prod UnaryReply id (svc_search fts C bad bs s)"
  "grpc_serve C dec_watch fts E bad (service_path ''PollChanges'') bs s = map_prod UnaryReply id (svc_poll_changes C bad bs s)"
  "grpc_serve C dec_watch fts E bad (service_path ''CreateNode'') bs s = map_prod UnaryReply id (svc_create_node E C bad bs s)"
  "grpc_serve C dec_watch fts E bad (service_path ''UpdateNode'') bs s = map_prod UnaryReply id (svc_update_node E C bad bs s)"
  "grpc_serve C dec_watch fts E bad (service_path ''DeleteNode'') bs s = map_prod UnaryReply id (svc_delete_node E C bad bs s)"
  "grpc_serve C dec_watch fts E bad (service_path ''SetStatus'') bs s = map_prod UnaryReply id (svc_set_status E C bad bs s)"
  "grpc_serve C dec_watch fts E bad (service_path ''ReportCondition'') bs s = map_prod UnaryReply id (svc_report_condition E C bad bs s)"
  "grpc_serve C dec_watch fts E bad (service_path ''SetVerdict'') bs s = map_prod UnaryReply id (svc_set_verdict E C bad bs s)"
  "grpc_serve C dec_watch fts E bad (service_path ''AddComment'') bs s = map_prod UnaryReply id (svc_add_comment E C bad bs s)"
  "grpc_serve C dec_watch fts E bad (service_path ''AddDependency'') bs s = map_prod UnaryReply id (svc_add_dependency E C bad bs s)"
  "grpc_serve C dec_watch fts E bad (service_path ''RemoveDependency'') bs s = map_prod UnaryReply id (svc_remove_dependency E C bad bs s)"
  "grpc_serve C dec_watch fts E bad (service_path ''Undo'') bs s = map_prod UnaryReply id (svc_undo E C bad bs s)"
  "grpc_serve C dec_watch fts E bad (service_path ''MoveNode'') bs s = map_prod UnaryReply id (svc_move_node E C bad bs s)"
  "grpc_serve C dec_watch fts E bad (service_path ''CreateProject'') bs s = map_prod UnaryReply id (svc_create_project E C bad bs s)"
  "grpc_serve C dec_watch fts E bad (service_path ''UpdateProject'') bs s = map_prod UnaryReply id (svc_update_project E C bad bs s)"
  "grpc_serve C dec_watch fts E bad (service_path ''ArchiveProject'') bs s = map_prod UnaryReply id (svc_archive_project E C bad bs s)"
  by (simp_all only: grpc_serve_def service_path_def Let_def append.simps list.inject char.inject
      list.distinct simp_thms if_True if_False)



text \<open>
  A request for a path the service does not have is answered with the status of an
  unimplemented method, and nothing is decoded, read or written; \<open>dispatch\<close> answers not-found for
  the same method name.
\<close>

lemma grpc_unknown_path:
  assumes "m \<notin> set unary_methods" "m \<noteq> ''Watch''"
  shows "grpc_serve C dec_watch fts E bad (service_path m) bs s = (Unimplemented, s) \<and>
    dispatch C fts E m bs c = (Inl \<lparr>err_code = NotFound, err_message = ''unknown method: '' @ m\<rparr>, c)"
proof
  show "grpc_serve C dec_watch fts E bad (service_path m) bs s = (Unimplemented, s)"
    using assms by (simp add: grpc_serve_def service_path_def unary_methods_def)
  show "dispatch C fts E m bs c = (Inl \<lparr>err_code = NotFound, err_message = ''unknown method: '' @ m\<rparr>, c)"
    using assms by (simp add: unary_methods_def dispatch_def sm_throw_def not_found_def new_error_def)
qed

end
