(* ===== verification/Grpc_Client.thy ===== *)
theory Grpc_Client
  imports Grpc
begin

text \<open>
  The client half of the code \<open>tonic-build\<close> generated (\<open>flow.v1.tonic.rs\<close>): one stub per method,
  which waits until the channel is ready, sends the encoded request to the method's path and
  decodes what comes back. The channel is tonic's: what it does with a request is an argument.
\<close>

section \<open>Channels\<close>

text \<open>What a stub hands to the channel: the path, the \<open>GrpcMethod\<close> extension and the message.\<close>

record client_request =
  cq_path :: string
  cq_service :: string
  cq_method :: string
  cq_body :: bytes

record ('c, 'w) channel =
  ch_ready :: "'c \<Rightarrow> (string + unit) \<times> 'c"
  ch_unary :: "client_request \<Rightarrow> 'c \<Rightarrow> (grpc_status + bytes) \<times> 'c"
  ch_stream :: "client_request \<Rightarrow> 'c \<Rightarrow> (grpc_status + 'w) \<times> 'c"

text \<open>Encoders of requests and decoders of responses, the other half of prost's wire format.\<close>

record client_codec =
  cenc_list_projects :: "list_projects_request \<Rightarrow> bytes"
  cenc_get_snapshot :: "get_snapshot_request \<Rightarrow> bytes"
  cenc_list_events :: "list_events_request \<Rightarrow> bytes"
  cenc_search :: "search_request \<Rightarrow> bytes"
  cenc_poll_changes :: "poll_changes_request \<Rightarrow> bytes"
  cenc_create_node :: "create_node_request \<Rightarrow> bytes"
  cenc_update_node :: "update_node_request \<Rightarrow> bytes"
  cenc_delete_node :: "delete_node_request \<Rightarrow> bytes"
  cenc_set_status :: "set_status_request \<Rightarrow> bytes"
  cenc_report_condition :: "report_condition_request \<Rightarrow> bytes"
  cenc_set_verdict :: "set_verdict_request \<Rightarrow> bytes"
  cenc_add_comment :: "add_comment_request \<Rightarrow> bytes"
  cenc_add_dependency :: "add_dependency_request \<Rightarrow> bytes"
  cenc_remove_dependency :: "remove_dependency_request \<Rightarrow> bytes"
  cenc_undo :: "undo_request \<Rightarrow> bytes"
  cenc_move_node :: "move_node_request \<Rightarrow> bytes"
  cenc_create_project :: "create_project_request \<Rightarrow> bytes"
  cenc_update_project :: "update_project_request \<Rightarrow> bytes"
  cenc_archive_project :: "archive_project_request \<Rightarrow> bytes"
  cenc_watch :: "watch_request \<Rightarrow> bytes"
  cdec_list_projects :: "bytes \<Rightarrow> string + list_projects_response"
  cdec_get_snapshot :: "bytes \<Rightarrow> string + get_snapshot_response"
  cdec_list_events :: "bytes \<Rightarrow> string + list_events_response"
  cdec_search :: "bytes \<Rightarrow> string + search_response"
  cdec_poll_changes :: "bytes \<Rightarrow> string + poll_changes_response"
  cdec_create_node :: "bytes \<Rightarrow> string + create_node_response"
  cdec_update_node :: "bytes \<Rightarrow> string + update_node_response"
  cdec_delete_node :: "bytes \<Rightarrow> string + delete_node_response"
  cdec_set_status :: "bytes \<Rightarrow> string + set_status_response"
  cdec_report_condition :: "bytes \<Rightarrow> string + report_condition_response"
  cdec_set_verdict :: "bytes \<Rightarrow> string + set_verdict_response"
  cdec_add_comment :: "bytes \<Rightarrow> string + add_comment_response"
  cdec_add_dependency :: "bytes \<Rightarrow> string + add_dependency_response"
  cdec_remove_dependency :: "bytes \<Rightarrow> string + remove_dependency_response"
  cdec_undo :: "bytes \<Rightarrow> string + undo_response"
  cdec_move_node :: "bytes \<Rightarrow> string + move_node_response"
  cdec_create_project :: "bytes \<Rightarrow> string + create_project_response"
  cdec_update_project :: "bytes \<Rightarrow> string + update_project_response"
  cdec_archive_project :: "bytes \<Rightarrow> string + archive_project_response"

section \<open>Stubs\<close>

text \<open>
  The common shape of the stubs, for either kind of call of the channel. A channel that is not
  ready is reported as status unknown, and then nothing is sent.
\<close>

definition client_send ::
  "('c \<Rightarrow> (string + unit) \<times> 'c) \<Rightarrow> (client_request \<Rightarrow> 'c \<Rightarrow> (grpc_status + 'b) \<times> 'c) \<Rightarrow>
   string \<Rightarrow> string \<Rightarrow> bytes \<Rightarrow> 'c \<Rightarrow> (grpc_status + 'b) \<times> 'c" where
  "client_send ready send path m body c = (case ready c of
     (Inl e, c1) \<Rightarrow> (Inl (StatusUnknown (''Service was not ready: '' @ e)), c1)
   | (Inr _, c1) \<Rightarrow> send \<lparr>cq_path = path, cq_service = ''flow.v1.FlowService'', cq_method = m, cq_body = body\<rparr> c1)"

definition client_unary ::
  "('c, 'w) channel \<Rightarrow> (string \<Rightarrow> grpc_status) \<Rightarrow> string \<Rightarrow> string \<Rightarrow> ('r \<Rightarrow> bytes) \<Rightarrow>
   (bytes \<Rightarrow> string + 'a) \<Rightarrow> 'r \<Rightarrow> 'c \<Rightarrow> (grpc_status + 'a) \<times> 'c" where
  "client_unary ch bad path m enc dec r c =
     (case client_send (ch_ready ch) (ch_unary ch) path m (enc r) c of
        (Inl st, c1) \<Rightarrow> (Inl st, c1)
      | (Inr b, c1) \<Rightarrow> (map_sum bad id (dec b), c1))"

definition client_list_projects ::
  "client_codec \<Rightarrow> ('c, 'w) channel \<Rightarrow> (string \<Rightarrow> grpc_status) \<Rightarrow> list_projects_request \<Rightarrow> 'c \<Rightarrow>
   (grpc_status + list_projects_response) \<times> 'c" where
  "client_list_projects K ch bad = client_unary ch bad ''/flow.v1.FlowService/ListProjects'' ''ListProjects''
     (cenc_list_projects K) (cdec_list_projects K)"

definition client_get_snapshot ::
  "client_codec \<Rightarrow> ('c, 'w) channel \<Rightarrow> (string \<Rightarrow> grpc_status) \<Rightarrow> get_snapshot_request \<Rightarrow> 'c \<Rightarrow>
   (grpc_status + get_snapshot_response) \<times> 'c" where
  "client_get_snapshot K ch bad = client_unary ch bad ''/flow.v1.FlowService/GetSnapshot'' ''GetSnapshot''
     (cenc_get_snapshot K) (cdec_get_snapshot K)"

definition client_list_events ::
  "client_codec \<Rightarrow> ('c, 'w) channel \<Rightarrow> (string \<Rightarrow> grpc_status) \<Rightarrow> list_events_request \<Rightarrow> 'c \<Rightarrow>
   (grpc_status + list_events_response) \<times> 'c" where
  "client_list_events K ch bad = client_unary ch bad ''/flow.v1.FlowService/ListEvents'' ''ListEvents''
     (cenc_list_events K) (cdec_list_events K)"

definition client_search ::
  "client_codec \<Rightarrow> ('c, 'w) channel \<Rightarrow> (string \<Rightarrow> grpc_status) \<Rightarrow> search_request \<Rightarrow> 'c \<Rightarrow>
   (grpc_status + search_response) \<times> 'c" where
  "client_search K ch bad = client_unary ch bad ''/flow.v1.FlowService/Search'' ''Search''
     (cenc_search K) (cdec_search K)"

definition client_poll_changes ::
  "client_codec \<Rightarrow> ('c, 'w) channel \<Rightarrow> (string \<Rightarrow> grpc_status) \<Rightarrow> poll_changes_request \<Rightarrow> 'c \<Rightarrow>
   (grpc_status + poll_changes_response) \<times> 'c" where
  "client_poll_changes K ch bad = client_unary ch bad ''/flow.v1.FlowService/PollChanges'' ''PollChanges''
     (cenc_poll_changes K) (cdec_poll_changes K)"

definition client_create_node ::
  "client_codec \<Rightarrow> ('c, 'w) channel \<Rightarrow> (string \<Rightarrow> grpc_status) \<Rightarrow> create_node_request \<Rightarrow> 'c \<Rightarrow>
   (grpc_status + create_node_response) \<times> 'c" where
  "client_create_node K ch bad = client_unary ch bad ''/flow.v1.FlowService/CreateNode'' ''CreateNode''
     (cenc_create_node K) (cdec_create_node K)"

definition client_update_node ::
  "client_codec \<Rightarrow> ('c, 'w) channel \<Rightarrow> (string \<Rightarrow> grpc_status) \<Rightarrow> update_node_request \<Rightarrow> 'c \<Rightarrow>
   (grpc_status + update_node_response) \<times> 'c" where
  "client_update_node K ch bad = client_unary ch bad ''/flow.v1.FlowService/UpdateNode'' ''UpdateNode''
     (cenc_update_node K) (cdec_update_node K)"

definition client_delete_node ::
  "client_codec \<Rightarrow> ('c, 'w) channel \<Rightarrow> (string \<Rightarrow> grpc_status) \<Rightarrow> delete_node_request \<Rightarrow> 'c \<Rightarrow>
   (grpc_status + delete_node_response) \<times> 'c" where
  "client_delete_node K ch bad = client_unary ch bad ''/flow.v1.FlowService/DeleteNode'' ''DeleteNode''
     (cenc_delete_node K) (cdec_delete_node K)"

definition client_set_status ::
  "client_codec \<Rightarrow> ('c, 'w) channel \<Rightarrow> (string \<Rightarrow> grpc_status) \<Rightarrow> set_status_request \<Rightarrow> 'c \<Rightarrow>
   (grpc_status + set_status_response) \<times> 'c" where
  "client_set_status K ch bad = client_unary ch bad ''/flow.v1.FlowService/SetStatus'' ''SetStatus''
     (cenc_set_status K) (cdec_set_status K)"

definition client_report_condition ::
  "client_codec \<Rightarrow> ('c, 'w) channel \<Rightarrow> (string \<Rightarrow> grpc_status) \<Rightarrow> report_condition_request \<Rightarrow> 'c \<Rightarrow>
   (grpc_status + report_condition_response) \<times> 'c" where
  "client_report_condition K ch bad = client_unary ch bad ''/flow.v1.FlowService/ReportCondition'' ''ReportCondition''
     (cenc_report_condition K) (cdec_report_condition K)"

definition client_set_verdict ::
  "client_codec \<Rightarrow> ('c, 'w) channel \<Rightarrow> (string \<Rightarrow> grpc_status) \<Rightarrow> set_verdict_request \<Rightarrow> 'c \<Rightarrow>
   (grpc_status + set_verdict_response) \<times> 'c" where
  "client_set_verdict K ch bad = client_unary ch bad ''/flow.v1.FlowService/SetVerdict'' ''SetVerdict''
     (cenc_set_verdict K) (cdec_set_verdict K)"

definition client_add_comment ::
  "client_codec \<Rightarrow> ('c, 'w) channel \<Rightarrow> (string \<Rightarrow> grpc_status) \<Rightarrow> add_comment_request \<Rightarrow> 'c \<Rightarrow>
   (grpc_status + add_comment_response) \<times> 'c" where
  "client_add_comment K ch bad = client_unary ch bad ''/flow.v1.FlowService/AddComment'' ''AddComment''
     (cenc_add_comment K) (cdec_add_comment K)"

definition client_add_dependency ::
  "client_codec \<Rightarrow> ('c, 'w) channel \<Rightarrow> (string \<Rightarrow> grpc_status) \<Rightarrow> add_dependency_request \<Rightarrow> 'c \<Rightarrow>
   (grpc_status + add_dependency_response) \<times> 'c" where
  "client_add_dependency K ch bad = client_unary ch bad ''/flow.v1.FlowService/AddDependency'' ''AddDependency''
     (cenc_add_dependency K) (cdec_add_dependency K)"

definition client_remove_dependency ::
  "client_codec \<Rightarrow> ('c, 'w) channel \<Rightarrow> (string \<Rightarrow> grpc_status) \<Rightarrow> remove_dependency_request \<Rightarrow> 'c \<Rightarrow>
   (grpc_status + remove_dependency_response) \<times> 'c" where
  "client_remove_dependency K ch bad = client_unary ch bad ''/flow.v1.FlowService/RemoveDependency'' ''RemoveDependency''
     (cenc_remove_dependency K) (cdec_remove_dependency K)"

definition client_undo ::
  "client_codec \<Rightarrow> ('c, 'w) channel \<Rightarrow> (string \<Rightarrow> grpc_status) \<Rightarrow> undo_request \<Rightarrow> 'c \<Rightarrow>
   (grpc_status + undo_response) \<times> 'c" where
  "client_undo K ch bad = client_unary ch bad ''/flow.v1.FlowService/Undo'' ''Undo''
     (cenc_undo K) (cdec_undo K)"

definition client_move_node ::
  "client_codec \<Rightarrow> ('c, 'w) channel \<Rightarrow> (string \<Rightarrow> grpc_status) \<Rightarrow> move_node_request \<Rightarrow> 'c \<Rightarrow>
   (grpc_status + move_node_response) \<times> 'c" where
  "client_move_node K ch bad = client_unary ch bad ''/flow.v1.FlowService/MoveNode'' ''MoveNode''
     (cenc_move_node K) (cdec_move_node K)"

definition client_create_project ::
  "client_codec \<Rightarrow> ('c, 'w) channel \<Rightarrow> (string \<Rightarrow> grpc_status) \<Rightarrow> create_project_request \<Rightarrow> 'c \<Rightarrow>
   (grpc_status + create_project_response) \<times> 'c" where
  "client_create_project K ch bad = client_unary ch bad ''/flow.v1.FlowService/CreateProject'' ''CreateProject''
     (cenc_create_project K) (cdec_create_project K)"

definition client_update_project ::
  "client_codec \<Rightarrow> ('c, 'w) channel \<Rightarrow> (string \<Rightarrow> grpc_status) \<Rightarrow> update_project_request \<Rightarrow> 'c \<Rightarrow>
   (grpc_status + update_project_response) \<times> 'c" where
  "client_update_project K ch bad = client_unary ch bad ''/flow.v1.FlowService/UpdateProject'' ''UpdateProject''
     (cenc_update_project K) (cdec_update_project K)"

definition client_archive_project ::
  "client_codec \<Rightarrow> ('c, 'w) channel \<Rightarrow> (string \<Rightarrow> grpc_status) \<Rightarrow> archive_project_request \<Rightarrow> 'c \<Rightarrow>
   (grpc_status + archive_project_response) \<times> 'c" where
  "client_archive_project K ch bad = client_unary ch bad ''/flow.v1.FlowService/ArchiveProject'' ''ArchiveProject''
     (cenc_archive_project K) (cdec_archive_project K)"

definition client_watch ::
  "client_codec \<Rightarrow> ('c, 'w) channel \<Rightarrow> watch_request \<Rightarrow> 'c \<Rightarrow> (grpc_status + 'w) \<times> 'c" where
  "client_watch K ch r = client_send (ch_ready ch) (ch_stream ch) ''/flow.v1.FlowService/Watch'' ''Watch''
     (cenc_watch K r)"

end
