(* ===== verification/Client_Props.thy ===== *)
theory Client_Props
  imports Grpc_Client Example
begin

text \<open>
  Properties of the generated client: over a channel that leads to the daemon's router, a stub
  answers what the handler of its method answers.
\<close>

section \<open>Calls of any method\<close>

text \<open>The unary methods as data: a request with its method, a response with its method.\<close>

datatype rpc =
    CallListProjects list_projects_request
  | CallGetSnapshot get_snapshot_request
  | CallListEvents list_events_request
  | CallSearch search_request
  | CallPollChanges poll_changes_request
  | CallCreateNode create_node_request
  | CallUpdateNode update_node_request
  | CallDeleteNode delete_node_request
  | CallSetStatus set_status_request
  | CallReportCondition report_condition_request
  | CallSetVerdict set_verdict_request
  | CallAddComment add_comment_request
  | CallAddDependency add_dependency_request
  | CallRemoveDependency remove_dependency_request
  | CallUndo undo_request
  | CallMoveNode move_node_request
  | CallCreateProject create_project_request
  | CallUpdateProject update_project_request
  | CallArchiveProject archive_project_request

datatype rpc_answer =
    AnswerListProjects list_projects_response
  | AnswerGetSnapshot get_snapshot_response
  | AnswerListEvents list_events_response
  | AnswerSearch search_response
  | AnswerPollChanges poll_changes_response
  | AnswerCreateNode create_node_response
  | AnswerUpdateNode update_node_response
  | AnswerDeleteNode delete_node_response
  | AnswerSetStatus set_status_response
  | AnswerReportCondition report_condition_response
  | AnswerSetVerdict set_verdict_response
  | AnswerAddComment add_comment_response
  | AnswerAddDependency add_dependency_response
  | AnswerRemoveDependency remove_dependency_response
  | AnswerUndo undo_response
  | AnswerMoveNode move_node_response
  | AnswerCreateProject create_project_response
  | AnswerUpdateProject update_project_response
  | AnswerArchiveProject archive_project_response

text \<open>The stub a call goes through, and the handler it is meant for.\<close>

fun client_rpc ::
  "client_codec \<Rightarrow> ('c, 'w) channel \<Rightarrow> (string \<Rightarrow> grpc_status) \<Rightarrow> rpc \<Rightarrow> 'c \<Rightarrow> (grpc_status + rpc_answer) \<times> 'c" where
  "client_rpc K ch bad (CallListProjects r) c = apfst (map_sum id AnswerListProjects) (client_list_projects K ch bad r c)"
| "client_rpc K ch bad (CallGetSnapshot r) c = apfst (map_sum id AnswerGetSnapshot) (client_get_snapshot K ch bad r c)"
| "client_rpc K ch bad (CallListEvents r) c = apfst (map_sum id AnswerListEvents) (client_list_events K ch bad r c)"
| "client_rpc K ch bad (CallSearch r) c = apfst (map_sum id AnswerSearch) (client_search K ch bad r c)"
| "client_rpc K ch bad (CallPollChanges r) c = apfst (map_sum id AnswerPollChanges) (client_poll_changes K ch bad r c)"
| "client_rpc K ch bad (CallCreateNode r) c = apfst (map_sum id AnswerCreateNode) (client_create_node K ch bad r c)"
| "client_rpc K ch bad (CallUpdateNode r) c = apfst (map_sum id AnswerUpdateNode) (client_update_node K ch bad r c)"
| "client_rpc K ch bad (CallDeleteNode r) c = apfst (map_sum id AnswerDeleteNode) (client_delete_node K ch bad r c)"
| "client_rpc K ch bad (CallSetStatus r) c = apfst (map_sum id AnswerSetStatus) (client_set_status K ch bad r c)"
| "client_rpc K ch bad (CallReportCondition r) c = apfst (map_sum id AnswerReportCondition) (client_report_condition K ch bad r c)"
| "client_rpc K ch bad (CallSetVerdict r) c = apfst (map_sum id AnswerSetVerdict) (client_set_verdict K ch bad r c)"
| "client_rpc K ch bad (CallAddComment r) c = apfst (map_sum id AnswerAddComment) (client_add_comment K ch bad r c)"
| "client_rpc K ch bad (CallAddDependency r) c = apfst (map_sum id AnswerAddDependency) (client_add_dependency K ch bad r c)"
| "client_rpc K ch bad (CallRemoveDependency r) c = apfst (map_sum id AnswerRemoveDependency) (client_remove_dependency K ch bad r c)"
| "client_rpc K ch bad (CallUndo r) c = apfst (map_sum id AnswerUndo) (client_undo K ch bad r c)"
| "client_rpc K ch bad (CallMoveNode r) c = apfst (map_sum id AnswerMoveNode) (client_move_node K ch bad r c)"
| "client_rpc K ch bad (CallCreateProject r) c = apfst (map_sum id AnswerCreateProject) (client_create_project K ch bad r c)"
| "client_rpc K ch bad (CallUpdateProject r) c = apfst (map_sum id AnswerUpdateProject) (client_update_project K ch bad r c)"
| "client_rpc K ch bad (CallArchiveProject r) c = apfst (map_sum id AnswerArchiveProject) (client_archive_project K ch bad r c)"

fun handler_rpc ::
  "(string \<Rightarrow> db \<Rightarrow> string list res) \<Rightarrow> env \<Rightarrow> rpc \<Rightarrow> edge \<Rightarrow> (grpc_status + rpc_answer) \<times> edge" where
  "handler_rpc fts E (CallListProjects r) s = apfst (map_sum id AnswerListProjects) (grpc_list_projects r s)"
| "handler_rpc fts E (CallGetSnapshot r) s = apfst (map_sum id AnswerGetSnapshot) (grpc_get_snapshot r s)"
| "handler_rpc fts E (CallListEvents r) s = apfst (map_sum id AnswerListEvents) (grpc_list_events r s)"
| "handler_rpc fts E (CallSearch r) s = apfst (map_sum id AnswerSearch) (grpc_search fts r s)"
| "handler_rpc fts E (CallPollChanges r) s = apfst (map_sum id AnswerPollChanges) (grpc_poll_changes r s)"
| "handler_rpc fts E (CallCreateNode r) s = apfst (map_sum id AnswerCreateNode) (grpc_create_node E r s)"
| "handler_rpc fts E (CallUpdateNode r) s = apfst (map_sum id AnswerUpdateNode) (grpc_update_node E r s)"
| "handler_rpc fts E (CallDeleteNode r) s = apfst (map_sum id AnswerDeleteNode) (grpc_delete_node E r s)"
| "handler_rpc fts E (CallSetStatus r) s = apfst (map_sum id AnswerSetStatus) (grpc_set_status E r s)"
| "handler_rpc fts E (CallReportCondition r) s = apfst (map_sum id AnswerReportCondition) (grpc_report_condition E r s)"
| "handler_rpc fts E (CallSetVerdict r) s = apfst (map_sum id AnswerSetVerdict) (grpc_set_verdict E r s)"
| "handler_rpc fts E (CallAddComment r) s = apfst (map_sum id AnswerAddComment) (grpc_add_comment E r s)"
| "handler_rpc fts E (CallAddDependency r) s = apfst (map_sum id AnswerAddDependency) (grpc_add_dependency E r s)"
| "handler_rpc fts E (CallRemoveDependency r) s = apfst (map_sum id AnswerRemoveDependency) (grpc_remove_dependency E r s)"
| "handler_rpc fts E (CallUndo r) s = apfst (map_sum id AnswerUndo) (grpc_undo E r s)"
| "handler_rpc fts E (CallMoveNode r) s = apfst (map_sum id AnswerMoveNode) (grpc_move_node E r s)"
| "handler_rpc fts E (CallCreateProject r) s = apfst (map_sum id AnswerCreateProject) (grpc_create_project E r s)"
| "handler_rpc fts E (CallUpdateProject r) s = apfst (map_sum id AnswerUpdateProject) (grpc_update_project E r s)"
| "handler_rpc fts E (CallArchiveProject r) s = apfst (map_sum id AnswerArchiveProject) (grpc_archive_project E r s)"

text \<open>
  What a call needs of the wire format: its request decodes to itself, and so does the response
  of its handler.
\<close>

definition wire_agrees ::
  "(bytes \<Rightarrow> string + 'r) \<Rightarrow> ('r \<Rightarrow> bytes) \<Rightarrow> (bytes \<Rightarrow> string + 'a) \<Rightarrow> ('a \<Rightarrow> bytes) \<Rightarrow>
   'r \<Rightarrow> (grpc_status + 'a) \<times> edge \<Rightarrow> bool" where
  "wire_agrees dec cenc cdec enc r out \<longleftrightarrow> dec (cenc r) = Inr r \<and>
     (case fst out of Inl _ \<Rightarrow> True | Inr x \<Rightarrow> cdec (enc x) = Inr x)"

fun wire_ok ::
  "client_codec \<Rightarrow> codec \<Rightarrow> (string \<Rightarrow> db \<Rightarrow> string list res) \<Rightarrow> env \<Rightarrow> rpc \<Rightarrow> edge \<Rightarrow> bool" where
  "wire_ok K C fts E (CallListProjects r) s = wire_agrees (dec_list_projects C) (cenc_list_projects K) (cdec_list_projects K) (enc_list_projects C)
     r (grpc_list_projects r s)"
| "wire_ok K C fts E (CallGetSnapshot r) s = wire_agrees (dec_get_snapshot C) (cenc_get_snapshot K) (cdec_get_snapshot K) (enc_get_snapshot C)
     r (grpc_get_snapshot r s)"
| "wire_ok K C fts E (CallListEvents r) s = wire_agrees (dec_list_events C) (cenc_list_events K) (cdec_list_events K) (enc_list_events C)
     r (grpc_list_events r s)"
| "wire_ok K C fts E (CallSearch r) s = wire_agrees (dec_search C) (cenc_search K) (cdec_search K) (enc_search C)
     r (grpc_search fts r s)"
| "wire_ok K C fts E (CallPollChanges r) s = wire_agrees (dec_poll_changes C) (cenc_poll_changes K) (cdec_poll_changes K) (enc_poll_changes C)
     r (grpc_poll_changes r s)"
| "wire_ok K C fts E (CallCreateNode r) s = wire_agrees (dec_create_node C) (cenc_create_node K) (cdec_create_node K) (enc_create_node C)
     r (grpc_create_node E r s)"
| "wire_ok K C fts E (CallUpdateNode r) s = wire_agrees (dec_update_node C) (cenc_update_node K) (cdec_update_node K) (enc_update_node C)
     r (grpc_update_node E r s)"
| "wire_ok K C fts E (CallDeleteNode r) s = wire_agrees (dec_delete_node C) (cenc_delete_node K) (cdec_delete_node K) (enc_delete_node C)
     r (grpc_delete_node E r s)"
| "wire_ok K C fts E (CallSetStatus r) s = wire_agrees (dec_set_status C) (cenc_set_status K) (cdec_set_status K) (enc_set_status C)
     r (grpc_set_status E r s)"
| "wire_ok K C fts E (CallReportCondition r) s = wire_agrees (dec_report_condition C) (cenc_report_condition K) (cdec_report_condition K) (enc_report_condition C)
     r (grpc_report_condition E r s)"
| "wire_ok K C fts E (CallSetVerdict r) s = wire_agrees (dec_set_verdict C) (cenc_set_verdict K) (cdec_set_verdict K) (enc_set_verdict C)
     r (grpc_set_verdict E r s)"
| "wire_ok K C fts E (CallAddComment r) s = wire_agrees (dec_add_comment C) (cenc_add_comment K) (cdec_add_comment K) (enc_add_comment C)
     r (grpc_add_comment E r s)"
| "wire_ok K C fts E (CallAddDependency r) s = wire_agrees (dec_add_dependency C) (cenc_add_dependency K) (cdec_add_dependency K) (enc_add_dependency C)
     r (grpc_add_dependency E r s)"
| "wire_ok K C fts E (CallRemoveDependency r) s = wire_agrees (dec_remove_dependency C) (cenc_remove_dependency K) (cdec_remove_dependency K) (enc_remove_dependency C)
     r (grpc_remove_dependency E r s)"
| "wire_ok K C fts E (CallUndo r) s = wire_agrees (dec_undo C) (cenc_undo K) (cdec_undo K) (enc_undo C)
     r (grpc_undo E r s)"
| "wire_ok K C fts E (CallMoveNode r) s = wire_agrees (dec_move_node C) (cenc_move_node K) (cdec_move_node K) (enc_move_node C)
     r (grpc_move_node E r s)"
| "wire_ok K C fts E (CallCreateProject r) s = wire_agrees (dec_create_project C) (cenc_create_project K) (cdec_create_project K) (enc_create_project C)
     r (grpc_create_project E r s)"
| "wire_ok K C fts E (CallUpdateProject r) s = wire_agrees (dec_update_project C) (cenc_update_project K) (cdec_update_project K) (enc_update_project C)
     r (grpc_update_project E r s)"
| "wire_ok K C fts E (CallArchiveProject r) s = wire_agrees (dec_archive_project C) (cenc_archive_project K) (cdec_archive_project K) (enc_archive_project C)
     r (grpc_archive_project E r s)"

section \<open>A channel to the router\<close>

text \<open>
  A channel that is always ready and carries every request to \<open>grpc_serve\<close>; what a transport makes
  of a reply of the other kind is the argument \<open>other\<close>.
\<close>

definition router_channel ::
  "codec \<Rightarrow> (bytes \<Rightarrow> string + watch_request) \<Rightarrow> (string \<Rightarrow> db \<Rightarrow> string list res) \<Rightarrow> env \<Rightarrow>
   (string \<Rightarrow> grpc_status) \<Rightarrow> (watch_request reply \<Rightarrow> grpc_status) \<Rightarrow> (edge, watch_request) channel" where
  "router_channel C dec_watch fts E bad other = \<lparr>
     ch_ready = (\<lambda>s. (Inr (), s)),
     ch_unary = (\<lambda>q s. case grpc_serve C dec_watch fts E bad (cq_path q) (cq_body q) s of
       (UnaryReply a, s') \<Rightarrow> (a, s') | (x, s') \<Rightarrow> (Inl (other x), s')),
     ch_stream = (\<lambda>q s. case grpc_serve C dec_watch fts E bad (cq_path q) (cq_body q) s of
       (StreamReply a, s') \<Rightarrow> (a, s') | (x, s') \<Rightarrow> (Inl (other x), s'))\<rparr>"

lemma client_unary_router:
  assumes "\<And>b. grpc_serve C dec_watch fts E bad path b s = map_prod UnaryReply id (svc_unary dec h enc bad b s)"
    and "wire_agrees dec cenc cdec enc r (h r s)"
  shows "client_unary (router_channel C dec_watch fts E bad other) bad' path m cenc cdec r s = h r s"
  using assms(2)
  by (cases "h r s"; cases "fst (h r s)")
    (auto simp: client_unary_def client_send_def router_channel_def assms(1) svc_unary_def wire_agrees_def)

named_theorems stub_defs \<open>the stubs and the arms of the router\<close>

lemmas stub_def_rules [stub_defs] =
  client_list_projects_def svc_list_projects_def
  client_get_snapshot_def svc_get_snapshot_def
  client_list_events_def svc_list_events_def
  client_search_def svc_search_def
  client_poll_changes_def svc_poll_changes_def
  client_create_node_def svc_create_node_def
  client_update_node_def svc_update_node_def
  client_delete_node_def svc_delete_node_def
  client_set_status_def svc_set_status_def
  client_report_condition_def svc_report_condition_def
  client_set_verdict_def svc_set_verdict_def
  client_add_comment_def svc_add_comment_def
  client_add_dependency_def svc_add_dependency_def
  client_remove_dependency_def svc_remove_dependency_def
  client_undo_def svc_undo_def
  client_move_node_def svc_move_node_def
  client_create_project_def svc_create_project_def
  client_update_project_def svc_update_project_def
  client_archive_project_def svc_archive_project_def

text \<open>
  C36: A call through the generated client reaches the handler of its method: over a channel to the
  router, and with a wire format that decodes the call's request and response to themselves, every
  stub returns what the handler returns on the request, answer or status, and leaves the daemon in
  the same state. So no stub and no arm of the router uses the path or the message types of another
  method.
\<close>

theorem client_reaches_handler:
  assumes "wire_ok K C fts E q s"
  shows "client_rpc K (router_channel C dec_watch fts E bad other) bad' q s = handler_rpc fts E q s"
  using assms
  by (cases q)
    (simp_all add: stub_defs, (subst client_unary_router, simp only: grpc_serve_def Let_def append.simps
      list.inject char.inject list.distinct simp_thms if_True if_False stub_defs, assumption, rule refl)+)

text \<open>
  A client whose channel is not ready reports status unknown with the channel's reason, whatever
  the method, and sends nothing.
\<close>

lemma client_not_ready:
  assumes "ch_ready ch c = (Inl e, c1)"
  shows "client_rpc K ch bad q c = (Inl (StatusUnknown (''Service was not ready: '' @ e)), c1)"
  using assms by (cases q) (simp_all add: stub_defs client_unary_def client_send_def)

section \<open>A client of the example\<close>

definition demo_request :: set_status_request where
  "demo_request = \<lparr>ss_meta = Some \<lparr>wm_author = ''me'', wm_idempotency_key = ''k''\<rparr>, ss_node_id = ''a'',
     ss_declared_status = 3\<rparr>"

definition demo_answer :: set_status_response where
  "demo_answer = projr (fst (grpc_set_status demo_env demo_request (edge_start (idle demo_db))))"

text \<open>A client that can send one request, the one \<open>demo_wire\<close> decodes.\<close>

definition demo_client :: client_codec where
  "demo_client = \<lparr>
     cenc_list_projects = (\<lambda>r. []),
     cenc_get_snapshot = (\<lambda>r. []),
     cenc_list_events = (\<lambda>r. []),
     cenc_search = (\<lambda>r. []),
     cenc_poll_changes = (\<lambda>r. []),
     cenc_create_node = (\<lambda>r. []),
     cenc_update_node = (\<lambda>r. []),
     cenc_delete_node = (\<lambda>r. []),
     cenc_set_status = (\<lambda>r. []),
     cenc_report_condition = (\<lambda>r. []),
     cenc_set_verdict = (\<lambda>r. []),
     cenc_add_comment = (\<lambda>r. []),
     cenc_add_dependency = (\<lambda>r. []),
     cenc_remove_dependency = (\<lambda>r. []),
     cenc_undo = (\<lambda>r. []),
     cenc_move_node = (\<lambda>r. []),
     cenc_create_project = (\<lambda>r. []),
     cenc_update_project = (\<lambda>r. []),
     cenc_archive_project = (\<lambda>r. []),
     cenc_watch = (\<lambda>r. []),
     cdec_list_projects = (\<lambda>b. Inl ''not sent''),
     cdec_get_snapshot = (\<lambda>b. Inl ''not sent''),
     cdec_list_events = (\<lambda>b. Inl ''not sent''),
     cdec_search = (\<lambda>b. Inl ''not sent''),
     cdec_poll_changes = (\<lambda>b. Inl ''not sent''),
     cdec_create_node = (\<lambda>b. Inl ''not sent''),
     cdec_update_node = (\<lambda>b. Inl ''not sent''),
     cdec_delete_node = (\<lambda>b. Inl ''not sent''),
     cdec_set_status = (\<lambda>b. Inr demo_answer),
     cdec_report_condition = (\<lambda>b. Inl ''not sent''),
     cdec_set_verdict = (\<lambda>b. Inl ''not sent''),
     cdec_add_comment = (\<lambda>b. Inl ''not sent''),
     cdec_add_dependency = (\<lambda>b. Inl ''not sent''),
     cdec_remove_dependency = (\<lambda>b. Inl ''not sent''),
     cdec_undo = (\<lambda>b. Inl ''not sent''),
     cdec_move_node = (\<lambda>b. Inl ''not sent''),
     cdec_create_project = (\<lambda>b. Inl ''not sent''),
     cdec_update_project = (\<lambda>b. Inl ''not sent''),
     cdec_archive_project = (\<lambda>b. Inl ''not sent'')\<rparr>"

lemma client_reaches_handler_witness:
  "let ch = router_channel demo_wire (\<lambda>b. Inl '''') no_index demo_env StatusInternal (\<lambda>x. StatusInternal '''') in
    fst (client_rpc demo_client ch StatusInternal (CallSetStatus demo_request) (edge_start (idle demo_db))) =
      Inr (AnswerSetStatus demo_answer) \<and> ssr_mutation demo_answer \<noteq> None"
proof -
  let ?s = "edge_start (idle demo_db)"
  have ok: "\<not> isl (fst (grpc_set_status demo_env demo_request ?s))" "ssr_mutation demo_answer \<noteq> None"
    by code_simp+
  then have answer: "fst (grpc_set_status demo_env demo_request ?s) = Inr demo_answer"
    by (simp add: demo_answer_def)
  then have "wire_ok demo_client demo_wire no_index demo_env (CallSetStatus demo_request) ?s"
    by (simp add: wire_agrees_def demo_client_def demo_wire_def demo_request_def)
  from client_reaches_handler [OF this] show ?thesis
    unfolding Let_def using ok(2) answer by (simp del: client_rpc.simps)
qed

end
