(* ===== verification/Native_Driver.thy ===== *)
theory Native_Driver
  imports Sql_Seam
begin

text \<open>
  The native driver of the SQL seam (\<open>flowcore/src/sql.rs\<close>, module \<open>native\<close>): parameters bound as
  values of the engine, result cells read back with lossy UTF-8, statements and queries over one
  locked connection, and the methods a session has by default. What the engine answers is the
  argument \<open>engine\<close>.
\<close>

section \<open>Lossy UTF-8\<close>

text \<open>
  \<open>String::from_utf8_lossy\<close>: one well-formed character is copied, and the longest prefix of a
  character that is broken off, at least one byte, is replaced by U+FFFD.
\<close>

definition utf8_width :: "nat \<Rightarrow> nat" where
  "utf8_width b = (if b < 128 then 1 else if 194 \<le> b \<and> b \<le> 223 then 2
     else if 224 \<le> b \<and> b \<le> 239 then 3 else if 240 \<le> b \<and> b \<le> 244 then 4 else 0)"

definition second_ok :: "nat \<Rightarrow> nat \<Rightarrow> bool" where
  "second_ok a b \<longleftrightarrow> (if a = 224 then 160 \<le> b else if a = 240 then 144 \<le> b else 128 \<le> b) \<and>
     (if a = 237 then b \<le> 159 else if a = 244 then b \<le> 143 else b \<le> 191)"

text \<open>The bytes of the first character or broken prefix, and whether it is a character.\<close>

definition byte_at :: "string \<Rightarrow> nat \<Rightarrow> nat" where
  "byte_at s i = (if i < length s then of_char (s ! i) else 0)"

definition utf8_step :: "string \<Rightarrow> bool \<times> nat" where
  "utf8_step s = (let a = byte_at s 0; w = utf8_width a; cont = (\<lambda>i. 128 \<le> byte_at s i \<and> byte_at s i \<le> 191) in
     if w = 0 then (False, 1)
     else if w = 1 then (True, 1)
     else if \<not> second_ok a (byte_at s 1) then (False, 1)
     else if w = 2 then (True, 2)
     else if \<not> cont 2 then (False, 2)
     else if w = 3 then (True, 3)
     else if \<not> cont 3 then (False, 3)
     else (True, 4))"

lemma utf8_step_pos: "0 < snd (utf8_step s)"
  by (simp add: utf8_step_def Let_def)

lemma utf8_step_shrinks: "s \<noteq> [] \<Longrightarrow> length (drop (snd (utf8_step s)) s) < length s"
  using utf8_step_pos [of s] by (cases s) simp_all

definition replacement_char :: string where
  "replacement_char = map char_of [239 :: nat, 191, 189]"

function utf8_lossy :: "string \<Rightarrow> string" where
  "utf8_lossy s = (if s = [] then []
     else (if fst (utf8_step s) then take (snd (utf8_step s)) s else replacement_char) @
       utf8_lossy (drop (snd (utf8_step s)) s))"
  by auto
termination
  by (relation "measure length") (simp_all add: utf8_step_shrinks del: length_drop)

declare utf8_lossy.simps [simp del]

text \<open>The strings of Rust: sequences of characters.\<close>

function utf8_valid :: "string \<Rightarrow> bool" where
  "utf8_valid s \<longleftrightarrow> (if s = [] then True
     else fst (utf8_step s) \<and> utf8_valid (drop (snd (utf8_step s)) s))"
  by auto
termination
  by (relation "measure length") (simp_all add: utf8_step_shrinks del: length_drop)

declare utf8_valid.simps [simp del]

lemma utf8_lossy_valid: "utf8_valid s \<Longrightarrow> utf8_lossy s = s"
proof (induction s rule: utf8_lossy.induct)
  case (1 s)
  show ?case
  proof (cases "s = []")
    case False
    then have "fst (utf8_step s)" "utf8_valid (drop (snd (utf8_step s)) s)"
      using "1.prems" by (simp_all only: utf8_valid.simps [of s] if_False)
    then show ?thesis using False "1.IH" by (simp add: utf8_lossy.simps [of s])
  qed (simp add: utf8_lossy.simps)
qed

section \<open>Values of the engine\<close>

datatype engine_value =
    ENull
  | EInteger int
  | EReal string
  | EText string
  | EBlob "8 word list"

fun to_sql :: "sql_value \<Rightarrow> engine_value" where
  "to_sql VNull = ENull"
| "to_sql (VInt i) = EInteger i"
| "to_sql (VReal f) = EReal f"
| "to_sql (VText s) = EText s"
| "to_sql (VBlob b) = EBlob b"

fun value_of :: "engine_value \<Rightarrow> sql_value" where
  "value_of ENull = VNull"
| "value_of (EInteger i) = VInt i"
| "value_of (EReal f) = VReal f"
| "value_of (EText t) = VText (utf8_lossy t)"
| "value_of (EBlob b) = VBlob b"

text \<open>Values a Rust program can hold: their text is UTF-8.\<close>

fun rust_value :: "sql_value \<Rightarrow> bool" where
  "rust_value (VText s) = utf8_valid s"
| "rust_value _ = True"

lemma value_of_to_sql: "rust_value v \<Longrightarrow> value_of (to_sql v) = v"
  by (cases v) (simp_all add: utf8_lossy_valid)

section \<open>The session\<close>

text \<open>
  What a connection does: a statement reports its number of changed rows or an error, a query its
  column names and then row by row an error or the cells by position.
\<close>

type_synonym engine_row = "nat \<Rightarrow> string + engine_value"

record 'h engine =
  en_execute :: "string \<Rightarrow> engine_value list \<Rightarrow> 'h \<Rightarrow> (string + int) \<times> 'h"
  en_last_rowid :: "'h \<Rightarrow> int"
  en_query :: "string \<Rightarrow> engine_value list \<Rightarrow> 'h \<Rightarrow> (string + (string list \<times> (string + engine_row) list)) \<times> 'h"

definition db_error :: "string + 'a \<Rightarrow> 'a res" where
  "db_error r = map_sum from_db_message id r"

definition row_of_engine :: "string list \<Rightarrow> engine_row \<Rightarrow> row res" where
  "row_of_engine names r = collect_res (\<lambda>(i, name). res_bind (db_error (r i)) (\<lambda>v. Inr (name, value_of v)))
     (enumerate 0 names)"

record exec_info =
  x_changes :: int
  x_last_insert_rowid :: int

definition native_execute ::
  "'h engine \<Rightarrow> string \<Rightarrow> sql_value list \<Rightarrow> 'h \<Rightarrow> exec_info res \<times> 'h" where
  "native_execute En sql params h = (case en_execute En sql (map to_sql params) h of
     (out, h') \<Rightarrow> (res_bind (db_error out) (\<lambda>n.
       Inr \<lparr>x_changes = n, x_last_insert_rowid = en_last_rowid En h'\<rparr>), h'))"

definition native_query ::
  "'h engine \<Rightarrow> string \<Rightarrow> sql_value list \<Rightarrow> 'h \<Rightarrow> row list res \<times> 'h" where
  "native_query En sql params h = (case en_query En sql (map to_sql params) h of
     (out, h') \<Rightarrow> (res_bind (db_error out) (\<lambda>(names, rows).
       collect_res (\<lambda>r. res_bind (db_error r) (row_of_engine names)) rows), h'))"

text \<open>A session is the locked connection; a poisoned lock is an error.\<close>

definition native_session :: "bool \<Rightarrow> 'h \<Rightarrow> 'h res" where
  "native_session poisoned h = (if poisoned then Inl (internal ''store mutex poisoned'') else Inr h)"

text \<open>The default methods of a session, over its \<open>query\<close>.\<close>

definition query_opt :: "('h \<Rightarrow> row list res \<times> 'h) \<Rightarrow> 'h \<Rightarrow> row option res \<times> 'h" where
  "query_opt q h = (case q h of (out, h') \<Rightarrow>
     (res_bind out (\<lambda>rs. Inr (case rs of [] \<Rightarrow> None | r # _ \<Rightarrow> Some r)), h'))"

definition query_one :: "('h \<Rightarrow> row list res \<times> 'h) \<Rightarrow> 'h \<Rightarrow> row res \<times> 'h" where
  "query_one q h = (case query_opt q h of (out, h') \<Rightarrow>
     (res_bind out (\<lambda>r. case r of Some x \<Rightarrow> Inr x | None \<Rightarrow> Inl (internal ''query returned no rows'')), h'))"

section \<open>What the getters read\<close>

text \<open>A row of the engine with the given cells, in the order of the columns.\<close>

definition engine_row_of :: "row \<Rightarrow> engine_row" where
  "engine_row_of r i = (if i < length r then Inr (to_sql (snd (r ! i))) else Inl ''Invalid column index'')"

lemma collect_enumerate:
  "(\<And>i. i < length r \<Longrightarrow> f (k + i, fst (r ! i)) = Inr (r ! i)) \<Longrightarrow>
   collect_res f (enumerate k (map fst r)) = Inr r"
proof (induction r arbitrary: k)
  case (Cons c r)
  have "f (k, fst c) = Inr c" using Cons.prems [of 0] by simp
  moreover have "collect_res f (enumerate (Suc k) (map fst r)) = Inr r"
    by (rule Cons.IH) (use Cons.prems [of "Suc _"] in simp)
  ultimately show ?case by simp
qed simp

lemma row_of_engine_row:
  assumes "\<forall>c \<in> set r. rust_value (snd c)"
  shows "row_of_engine (map fst r) (engine_row_of r) = Inr r"
  unfolding row_of_engine_def
  by (rule collect_enumerate)
    (use assms in \<open>simp add: engine_row_of_def db_error_def value_of_to_sql\<close>)

lemma native_query_rows:
  assumes "en_query En sql (map to_sql ps) h = (Inr (names, map (Inr \<circ> engine_row_of) rows), h1)"
    and "\<forall>r \<in> set rows. map fst r = names \<and> (\<forall>c \<in> set r. rust_value (snd c))"
  shows "native_query En sql ps h = (Inr rows, h1)"
proof -
  have "row_of_engine names (engine_row_of r) = Inr r" if "r \<in> set rows" for r
    using assms(2) that row_of_engine_row [of r] by auto
  then have "collect_res (\<lambda>r. res_bind (db_error r) (row_of_engine names)) (map (Inr \<circ> engine_row_of) rows) = Inr rows"
    by (induction rows) (simp_all add: db_error_def)
  then show ?thesis by (simp add: native_query_def assms(1) db_error_def)
qed

end
