(* ===== verification/Wasm_Bridge.thy ===== *)
theory Wasm_Bridge
  imports Native_Driver
begin

text \<open>
  The wasm facade (\<open>flowwasm/src/lib.rs\<close>): the store's session is a bridge to two host functions
  that take a statement with its parameters as JSON and return a JSON envelope. The host functions
  are parameters; so are serde's texts for a parse error and for an integer as a float.
\<close>

section \<open>Values across the bridge\<close>

text \<open>\<open>json!(f)\<close> prints a number that is not finite as \<open>null\<close>.\<close>

fun value_to_json :: "sql_value \<Rightarrow> json" where
  "value_to_json VNull = JNull"
| "value_to_json (VInt n) = JInt n"
| "value_to_json (VReal f) = (if f \<in> {''NaN'', ''inf'', ''-inf''} then JNull else JFloat f)"
| "value_to_json (VText s) = JStr s"
| "value_to_json (VBlob bs) = JArr (map (\<lambda>b. JInt (uint b)) bs)"

fun json_to_value :: "(int \<Rightarrow> string) \<Rightarrow> json \<Rightarrow> sql_value" where
  "json_to_value float_text JNull = VNull"
| "json_to_value float_text (JBool b) = VInt (if b then 1 else 0)"
| "json_to_value float_text (JInt n) = (if is_i64 n then VInt n else VReal (float_text n))"
| "json_to_value float_text (JFloat f) = VReal f"
| "json_to_value float_text (JStr s) = VText s"
| "json_to_value float_text (JArr js) = VNull"
| "json_to_value float_text (JObj kvs) = VNull"

definition params_to_json :: "env \<Rightarrow> sql_value list \<Rightarrow> string" where
  "params_to_json E params = json_text E (JArr (map value_to_json params))"

fun json_row_to_row :: "(int \<Rightarrow> string) \<Rightarrow> json \<Rightarrow> row res" where
  "json_row_to_row float_text (JObj kvs) = Inr (map (\<lambda>(k, v). (k, json_to_value float_text v)) kvs)"
| "json_row_to_row float_text _ = Inl (internal ''host row is not an object'')"

section \<open>The session\<close>

definition parse_envelope :: "env \<Rightarrow> (string \<Rightarrow> string) \<Rightarrow> string \<Rightarrow> string \<Rightarrow> json res" where
  "parse_envelope E json_error out who = (case json_parse E out of
     None \<Rightarrow> Inl (internal (who @ '' bad json: '' @ json_error out))
   | Some v \<Rightarrow> (case json_get v ''error'' of
         Some e \<Rightarrow> (case json_as_str e of
             Some msg \<Rightarrow> Inl (from_db_message msg)
           | None \<Rightarrow> Inr v)
       | None \<Rightarrow> Inr v))"

text \<open>The host functions act on a state of the host's own, its database.\<close>

type_synonym 'h host_fun = "string \<Rightarrow> string \<Rightarrow> 'h \<Rightarrow> string \<times> 'h"

definition host_execute ::
  "env \<Rightarrow> (string \<Rightarrow> string) \<Rightarrow> 'h host_fun \<Rightarrow> string \<Rightarrow> sql_value list \<Rightarrow> 'h \<Rightarrow> exec_info res \<times> 'h" where
  "host_execute E json_error host_exec sql params h = (case host_exec sql (params_to_json E params) h of
     (out, h') \<Rightarrow> (res_bind (parse_envelope E json_error out ''host_exec'') (\<lambda>v.
       Inr \<lparr>x_changes = (case json_get v ''changes'' of None \<Rightarrow> 0
              | Some x \<Rightarrow> (case json_as_u64 x of None \<Rightarrow> 0 | Some n \<Rightarrow> n)),
            x_last_insert_rowid = (case json_get v ''lastInsertRowid'' of None \<Rightarrow> 0
              | Some x \<Rightarrow> (case json_as_i64 x of None \<Rightarrow> 0 | Some n \<Rightarrow> n))\<rparr>), h'))"

definition envelope_rows :: "json \<Rightarrow> json list res" where
  "envelope_rows v = (case json_get v ''rows'' of
     Some (JArr rows) \<Rightarrow> Inr rows
   | _ \<Rightarrow> Inl (internal ''host_query: missing rows''))"

definition host_rows ::
  "env \<Rightarrow> (string \<Rightarrow> string) \<Rightarrow> (int \<Rightarrow> string) \<Rightarrow> 'h host_fun \<Rightarrow> string \<Rightarrow> sql_value list \<Rightarrow> 'h \<Rightarrow>
   row list res \<times> 'h" where
  "host_rows E json_error float_text host_query sql params h =
     (case host_query sql (params_to_json E params) h of
       (out, h') \<Rightarrow> (res_bind (parse_envelope E json_error out ''host_query'') (\<lambda>v.
         res_bind (envelope_rows v) (collect_res (json_row_to_row float_text))), h'))"

section \<open>Errors\<close>

text \<open>\<open>to_js\<close>, and the host's way back: split at the first colon followed by a space.\<close>

definition to_js :: "domain_error \<Rightarrow> string" where
  "to_js e = code_as_str (err_code e) @ '': '' @ err_message e"

fun split_code :: "string \<Rightarrow> (string \<times> string) option" where
  "split_code (a # b # s) = (if a = CHR '':'' \<and> b = CHR '' '' then Some ([], s)
     else map_option (\<lambda>(k, m). (a # k, m)) (split_code (b # s)))"
| "split_code _ = None"

section \<open>Cells that survive the bridge\<close>

fun plain :: "sql_value \<Rightarrow> bool" where
  "plain VNull = True"
| "plain (VInt n) = is_i64 n"
| "plain (VText s) = True"
| "plain _ = False"

lemma value_roundtrip: "plain v \<Longrightarrow> json_to_value t (value_to_json v) = v"
  by (cases v) simp_all

lemma value_to_json_wf: "plain v \<Longrightarrow> json_wf (value_to_json v)"
  by (cases v) simp_all

text \<open>A row as the host prints it: one entry per column, which serde keeps in key order.\<close>

definition row_json :: "row \<Rightarrow> json" where
  "row_json r = JObj (map (\<lambda>(k, v). (k, value_to_json v)) (sort_key fst r))"

lemma row_json_row: "\<forall>c \<in> set r. plain (snd c) \<Longrightarrow> json_row_to_row t (row_json r) = Inr (sort_key fst r)"
  by (fastforce simp: row_json_def value_roundtrip case_prod_beta intro!: map_idI)

lemma collect_rows:
  "\<forall>r \<in> set rows. \<forall>c \<in> set r. plain (snd c) \<Longrightarrow>
   collect_res (json_row_to_row t) (map row_json rows) = Inr (map (sort_key fst) rows)"
  by (induction rows) (simp_all add: row_json_row)

text \<open>Sorting the cells of a row does not change what a getter finds by name.\<close>

lemma find_sorted_cell:
  assumes "distinct (map fst r)"
  shows "find (\<lambda>c. fst c = col) (sort_key fst r) = find (\<lambda>c. fst c = col) r"
proof -
  have d: "set (sort_key fst r) = set r" "distinct (map fst (sort_key fst r))"
    using assms by (simp_all add: distinct_map)
  then have "find (\<lambda>c. fst c = col) (sort_key fst r) = Some x \<longleftrightarrow> find (\<lambda>c. fst c = col) r = Some x" for x
    using find_Some_iff_key [OF d(2), of col x] find_Some_iff_key [OF assms, of col x] d(1) by simp
  then show ?thesis by (metis option.exhaust)
qed

lemma row_cell_sorted: "distinct (map fst r) \<Longrightarrow> row_cell (sort_key fst r) col = row_cell r col"
  by (simp add: row_cell_def find_sorted_cell)

lemma sort_single: "length r \<le> 1 \<Longrightarrow> sort_key fst r = r"
  by (cases r) simp_all

lemma split_code_prefix: "CHR '':'' \<notin> set k \<Longrightarrow> split_code (k @ '': '' @ m) = Some (k, m)"
  by (induction k rule: induct_list012) auto

end
