(* ===== verification/Bridge_Props.thy ===== *)
theory Bridge_Props
  imports Wasm_Bridge Example
begin

text \<open>
  Properties of the wasm bridge: rows and parameters survive the JSON boundary, an engine error
  keeps its code, and an error thrown to the host can be taken apart again.
\<close>

section \<open>Rows and parameters\<close>

text \<open>
  Rows survive the bridge. When the host answers a query with an envelope that holds the
  engine's rows, each an object with one entry per column (columns distinct, cells null, 64-bit
  integers or text), then the session returns as many rows, every getter by column name reads
  from each of them what it reads from the engine's row, and a row with a single column, the
  only kind read by position, is returned unchanged.
\<close>

lemma bridge_rows_faithful:
  assumes "host_query sql (params_to_json E ps) h = (out, h1)"
    and "json_parse E out = Some (JObj [(''rows'', JArr (map row_json rows))])"
    and "\<forall>r \<in> set rows. distinct (map fst r) \<and> (\<forall>c \<in> set r. plain (snd c))"
  shows "\<exists>rs. host_rows E json_error float_text host_query sql ps h = (Inr rs, h1) \<and>
    length rs = length rows \<and> (\<forall>i < length rows. (\<forall>col. row_cell (rs ! i) col = row_cell (rows ! i) col) \<and>
      (length (rows ! i) = 1 \<longrightarrow> rs ! i = rows ! i))"
proof (intro exI conjI)
  show "host_rows E json_error float_text host_query sql ps h = (Inr (map (sort_key fst) rows), h1)"
    using assms collect_rows [of rows float_text]
    by (simp add: host_rows_def parse_envelope_def envelope_rows_def)
qed (use assms(3) in \<open>auto simp: row_cell_sorted sort_single\<close>)


definition demo_cells :: row where
  "demo_cells = [(''status'', VText ''READY''), (''id'', VText ''a''), (''position'', VInt 100)]"

definition demo_engine :: "nat engine" where
  "demo_engine = \<lparr>en_execute = (\<lambda>sql ps n. (Inl ''dependency would create a cycle: a: b'', n)),
     en_last_rowid = (\<lambda>n. 0),
     en_query = (\<lambda>sql ps n. (Inr (map fst demo_cells, [Inr (engine_row_of demo_cells)]), n + 1))\<rparr>"


text \<open>
  Parameters survive the bridge: the host that parses what a session sends for null, 64-bit
  integer and text parameters gets a JSON array from which the same values are read back.
\<close>

lemma bridge_params_roundtrip:
  assumes "json_codec E" "\<forall>v \<in> set ps. plain v"
  shows "\<exists>js. json_parse E (params_to_json E ps) = Some (JArr js) \<and> map (json_to_value float_text) js = ps"
proof -
  have "json_wf (JArr (map value_to_json ps))" using assms(2) by (auto intro: value_to_json_wf)
  then have "json_parse E (params_to_json E ps) = Some (JArr (map value_to_json ps))"
    using assms(1) by (simp add: json_codec_def params_to_json_def)
  moreover have "map (json_to_value float_text) (map value_to_json ps) = ps"
    using assms(2) by (auto simp: value_roundtrip intro!: map_idI)
  ultimately show ?thesis by blast
qed

section \<open>Errors\<close>

text \<open>
  The store a wasm host holds: \<open>dispatch\<close> with its error turned into the text of a JavaScript
  error. Whatever goes wrong, the host can take code and message apart again.
\<close>

definition wasm_dispatch ::
  "codec \<Rightarrow> (string \<Rightarrow> db \<Rightarrow> string list res) \<Rightarrow> env \<Rightarrow> string \<Rightarrow> bytes \<Rightarrow> db conn \<Rightarrow> (string + bytes) \<times> db conn" where
  "wasm_dispatch C fts E m req c = apfst (map_sum to_js id) (dispatch C fts E m req c)"

lemma split_to_js: "split_code (to_js e) = Some (code_as_str (err_code e), err_message e)"
proof -
  have "CHR '':'' \<notin> set (code_as_str (err_code e))" by (cases "err_code e") simp_all
  then show ?thesis unfolding to_js_def by (rule split_code_prefix)
qed

lemma wasm_dispatch_error:
  "wasm_dispatch C fts E m req c = (Inl t, c') \<Longrightarrow> \<exists>e. dispatch C fts E m req c = (Inl e, c') \<and>
    split_code t = Some (code_as_str (err_code e), err_message e)"
  by (cases "dispatch C fts E m req c"; cases "fst (dispatch C fts E m req c)")
    (auto simp: wasm_dispatch_def split_to_js)

text \<open>
  C38: An engine error reported in an envelope becomes the same domain error as on the native
  driver, with the code its text is classified to, whatever else the envelope holds; and an
  error handed to the host as \<open>code: message\<close> is taken apart into exactly its code and message.
\<close>

theorem bridge_errors_keep_code:
  assumes "host_exec sql (params_to_json E ps) h = (out, h1)"
    and "json_parse E out = Some (JObj kvs)" "map_of kvs ''error'' = Some (JStr msg)"
    and "en_execute En sql (map to_sql ps) g = (Inl msg, g1)"
  shows "native_execute En sql ps g = (Inl (from_db_message msg), g1) \<and>
    host_execute E json_error host_exec sql ps h = (Inl (from_db_message msg), h1) \<and>
    split_code (to_js (from_db_message msg)) = Some (code_as_str (classify msg), msg)"
proof (intro conjI)
  show "native_execute En sql ps g = (Inl (from_db_message msg), g1)"
    using assms(4) by (simp add: native_execute_def db_error_def)
  show "host_execute E json_error host_exec sql ps h = (Inl (from_db_message msg), h1)"
    using assms by (simp add: host_execute_def parse_envelope_def)
  show "split_code (to_js (from_db_message msg)) = Some (code_as_str (classify msg), msg)"
    by (simp add: split_to_js)
qed

lemma bridge_errors_keep_code_witness:
  "fst (native_execute demo_engine ''INSERT'' [] 3) = fst (host_execute demo_env (\<lambda>s. s) (\<lambda>sql ps h. (show_json (JObj [(''error'',
      JStr ''dependency would create a cycle: a: b'')]), h)) ''INSERT'' [] ()) \<and>
   fst (native_execute demo_engine ''INSERT'' [] 3) = Inl \<lparr>err_code = FailedPrecondition, err_message = ''dependency would create a cycle: a: b''\<rparr> \<and>
   split_code ''failed_precondition: dependency would create a cycle: a: b'' =
    Some (''failed_precondition'', ''dependency would create a cycle: a: b'')"
proof -
  let ?m = "''dependency would create a cycle: a: b''"
  let ?v = "JObj [(''error'', JStr ?m)]"
  have parse: "json_parse demo_env (show_json ?v) = Some ?v"
    unfolding demo_env_sel by (rule read_json_show)
  have "classify ?m = FailedPrecondition" by code_simp
  then show ?thesis
    using bridge_errors_keep_code [of "\<lambda>sql ps h. (show_json ?v, h)" "''INSERT''" demo_env "[]" "()"
        "show_json ?v" "()" "[(''error'', JStr ?m)]" ?m demo_engine 3 3 "\<lambda>s. s", OF refl parse]
    by (simp add: to_js_def from_db_message_def demo_engine_def)
qed

end
