(* ===== verification/Db_Setup.thy ===== *)
theory Db_Setup
  imports Session_Rules
begin

text \<open>
  Opening and seeding a database (\<open>flowcore/src/db/mod.rs\<close>). A file is a schema version and, once
  the schema has been applied, the tables. Opening the file, the pragmas and the version stamp are
  calls of the engine that may fail with a text of their own; these outcomes are parameters.
\<close>

section \<open>Opening\<close>

record db_file =
  f_version :: int
  f_tables :: "db option"

datatype target = InMemory | OnPath string

record host_setup =
  connect :: "target \<Rightarrow> string + db_file"
  pragma_error :: "string option"
  version_error :: "string option"
  schema_exists :: string
  stamp_error :: "string option"

definition resolve_url :: "string \<Rightarrow> target" where
  "resolve_url url = (if url = '':memory:'' then InMemory
     else OnPath (if starts_with url ''sqlite://'' then drop 9 url else url))"

text \<open>\<open>SCHEMA_SQL\<close> creates its tables, and fails on a file that has them.\<close>

definition apply_schema :: "host_setup \<Rightarrow> db_file \<Rightarrow> string + db_file" where
  "apply_schema S f = (case f_tables f of
     None \<Rightarrow> Inr (f\<lparr>f_tables := Some empty_db\<rparr>) | Some d \<Rightarrow> Inl (schema_exists S))"

definition setup_error :: "string \<Rightarrow> string \<Rightarrow> domain_error" where
  "setup_error what e = internal (what @ '': '' @ e)"

text \<open>The result of \<open>open\<close>, and the file as it is left.\<close>

definition migrate :: "host_setup \<Rightarrow> db_file \<Rightarrow> db_file res \<times> db_file" where
  "migrate S f =
     (if f_version f < 1
      then (case apply_schema S f of
          Inl e \<Rightarrow> (Inl (setup_error ''apply schema'' e), f)
        | Inr f1 \<Rightarrow> (case stamp_error S of
            Some e \<Rightarrow> (Inl (setup_error ''set user_version'' e), f1)
          | None \<Rightarrow> (Inr (f1\<lparr>f_version := 1\<rparr>), f1\<lparr>f_version := 1\<rparr>)))
      else (Inr f, f))"

definition open_db :: "host_setup \<Rightarrow> string \<Rightarrow> db_file res \<times> db_file option" where
  "open_db S url = (case connect S (resolve_url url) of
     Inl e \<Rightarrow> (Inl (setup_error ''open db'' e), None)
   | Inr f \<Rightarrow> (case pragma_error S of
       Some e \<Rightarrow> (Inl (setup_error ''pragmas'' e), Some f)
     | None \<Rightarrow> (case version_error S of
         Some e \<Rightarrow> (Inl (setup_error ''read user_version'' e), Some f)
       | None \<Rightarrow> (case migrate S f of (r, f') \<Rightarrow> (r, Some f')))))"

section \<open>The seed\<close>

text \<open>\<open>SEED_SQL\<close>, statement by statement; the columns it leaves out take the schema's defaults.\<close>

definition insert_project_row :: "env \<Rightarrow> project_row \<Rightarrow> (db, unit) stmt" where
  "insert_project_row E p d =
     (if p_id p \<in> project_ids d then Inl (violation_error E (UniqueFailed ''projects''))
      else Inr ((), d\<lparr>projects := projects d @ [p]\<rparr>))"

definition seed_project :: "env \<Rightarrow> string \<Rightarrow> string \<Rightarrow> string \<Rightarrow> bool \<Rightarrow> project_row" where
  "seed_project E i name description archived = \<lparr>p_id = i, p_name = name, p_description = description,
     p_archived_at = (if archived then Some (clock E) else None),
     p_created_at = clock E, p_updated_at = clock E\<rparr>"

definition seed_node ::
  "env \<Rightarrow> string \<Rightarrow> string option \<Rightarrow> string \<Rightarrow> string \<Rightarrow> string \<Rightarrow> string \<Rightarrow> string \<Rightarrow>
   string option \<Rightarrow> int \<Rightarrow> node_row" where
  "seed_node E i parent kind title description condition declared wp position =
     \<lparr>n_id = i, n_project_id = ''prj-travel'', n_parent_id = parent, n_kind = kind, n_title = title,
      n_description = description, n_condition = condition, n_reference = None, n_note = '''',
      n_declared_status = declared, n_wp_state = wp, n_position = position,
      n_created_at = clock E, n_updated_at = clock E\<rparr>"

definition quoted :: "string \<Rightarrow> string" where
  "quoted s = [CHR 0x22] @ s @ [CHR 0x22]"

definition seed_payload :: string where
  "seed_payload = ''{'' @ quoted ''before'' @ '':null,'' @ quoted ''after'' @ '':{}}''"

definition seed_batch :: "env \<Rightarrow> (db, unit) sm" where
  "seed_batch E =
     sm_bind (run_stmt (insert_project_row E (seed_project E ''prj-travel'' ''Travel Webapp''
       ''Booking flow, auth and payments.'' False))) (\<lambda>_.
     sm_bind (run_stmt (insert_project_row E (seed_project E ''prj-docs'' ''Developer Docs''
       ''Public API reference.'' True))) (\<lambda>_.
     sm_bind (run_stmt (insert_node False E (seed_node E ''WP-AUTH'' None ''WORK_PACKAGE''
       ''Authentication Infrastructure'' '''' '''' ''OPEN'' (Some ''ACTIVE'') 100))) (\<lambda>_.
     sm_bind (run_stmt (insert_node False E (seed_node E ''T-1042'' (Some ''WP-AUTH'') ''TASK''
       ''OAuth2 device-code flow for the CLI''
       ''The TUI and MCP server both authenticate headlessly.''
       ''pnpm test:auth --grep device'' ''OPEN'' None 100))) (\<lambda>_.
     sm_bind (run_stmt (insert_node False E (seed_node E ''T-1043'' (Some ''WP-AUTH'') ''TASK''
       ''Refresh-token rotation'' ''Rotate on every refresh.'' '''' ''DONE'' None 200))) (\<lambda>_.
     sm_bind (run_stmt (insert_dependency E ''T-1042'' ''T-1043'')) (\<lambda>_.
     sm_bind (run_stmt (insert_event E ''prj-travel'' (Some ''T-1042'') ''NODE_CREATED'' ''seed''
       ''created T-1042'' seed_payload)) (\<lambda>_.
     sm_return ())))))))"

definition seed :: "env \<Rightarrow> (db, unit) sm" where
  "seed E c = (case seed_batch E c of
     (Inl e, c') \<Rightarrow> (Inl (setup_error ''seed'' (err_message e)), c') | (Inr u, c') \<Rightarrow> (Inr u, c'))"

section \<open>What the seed leaves\<close>

lemma insert_project_row_keeps [stmt_pres]: "stmt_keeps db_inv (insert_project_row E p)"
proof (rule stmt_keepsI)
  fix d x d'
  assume inv: "db_inv d" and step: "insert_project_row E p d = Inr (x, d')"
  have d': "d' = d\<lparr>projects := projects d @ [p]\<rparr>" "p_id p \<notin> project_ids d"
    using step by (auto simp: insert_project_row_def split: if_splits)
  have same: "nodes d' = nodes d" "node_ids d' = node_ids d" "project_ids d \<subseteq> project_ids d'"
    using d' by (auto simp: node_ids_def project_ids_def)
  have "keys_inv d'" using inv d' by (auto simp: inv_defs dep_edges_def project_ids_def)
  moreover have "hierarchy_inv d'" using inv same by (auto simp: db_inv_def intro: hierarchy_inv_cong)
  moreover have "log_inv d'" using inv d' same log_inv_cong [of d d'] by (simp add: db_inv_def)
  ultimately show "db_inv d'"
    using inv d' same by (auto simp: db_inv_def deps_inv_def dep_edges_def verification_ok_def)
qed

end
