(* ===== verification/Db_Props.thy ===== *)
theory Db_Props
  imports Db_Setup Example
begin

text \<open>
  Properties of opening and seeding: the seed builds a database of the program, opening a file
  twice is harmless unless the first opening was interrupted between two of its steps.
\<close>

section \<open>The seed\<close>

text \<open>What the seed leaves in an empty database.\<close>

definition seeded_db :: "env \<Rightarrow> db" where
  "seeded_db E = empty_db\<lparr>
     projects := [
       seed_project E ''prj-travel'' ''Travel Webapp'' ''Booking flow, auth and payments.'' False,
       seed_project E ''prj-docs'' ''Developer Docs'' ''Public API reference.'' True],
     nodes := [
       seed_node E ''WP-AUTH'' None ''WORK_PACKAGE'' ''Authentication Infrastructure'' '''' '''' ''OPEN''
         (Some ''ACTIVE'') 100,
       seed_node E ''T-1042'' (Some ''WP-AUTH'') ''TASK'' ''OAuth2 device-code flow for the CLI''
         ''The TUI and MCP server both authenticate headlessly.'' ''pnpm test:auth --grep device''
         ''OPEN'' None 100,
       seed_node E ''T-1043'' (Some ''WP-AUTH'') ''TASK'' ''Refresh-token rotation''
         ''Rotate on every refresh.'' '''' ''DONE'' None 200],
     dependencies := [\<lparr>d_blocker_id = ''T-1042'', d_blocked_id = ''T-1043'', d_created_at = clock E\<rparr>],
     events := [\<lparr>e_seq = 1, e_project_id = ''prj-travel'', e_node_id = Some ''T-1042'',
       e_kind = ''NODE_CREATED'', e_author = ''seed'', e_summary = ''created T-1042'',
       e_payload = seed_payload, e_created_at = clock E\<rparr>],
     last_seq := 1\<rparr>"

lemma safe_project_row [safe_rules]: "sm_keeps db_inv (run_stmt (insert_project_row E p))"
  by (intro sm_rules stmt_pres)

lemma seed_keeps: "sm_keeps db_inv (seed_batch E)"
  unfolding seed_batch_def by (intro sm_rules stmt_pres)

lemma seed_batch_empty:
  assumes "json_valid E seed_payload"
  shows "seed_batch E (idle empty_db) = (Inr (), idle (seeded_db E))"
  using assms
  by (simp add: seed_batch_def sm_bind_run insert_project_row_def insert_node_def insert_event_def
      insert_dependency_def seeded_db_def seed_project_def seed_node_def empty_db_def idle_def
      sm_return_def project_ids_def node_ids_def nodes_parent_kind_insert_def kind_of_def find_node_def
      parent_kind_for_def check_node_def kind_ok_def declared_ok_def wp_state_ok_def shape_ok_def
      dependencies_no_cycle_def downstream_def dep_edges_def event_kind_ok_def max_seq_def succs_def Let_def)

lemma seeded_db_inv:
  assumes "json_valid E seed_payload"
  shows "db_inv (seeded_db E)"
proof -
  have "conn_inv db_inv (idle empty_db)" by (simp add: db_inv_empty)
  then have "conn_inv db_inv (idle (seeded_db E))"
    by (rule sm_keepsD [OF seed_keeps _ seed_batch_empty [OF assms]])
  then show ?thesis by simp
qed

lemma seeded_statuses: "map (\<lambda>n. (n_id n, node_status (seeded_db E) n)) (nodes (seeded_db E)) =
    [(''WP-AUTH'', ''READY''), (''T-1042'', ''READY''), (''T-1043'', ''DONE'')]"
  by (simp add: seeded_db_def seed_node_def node_status_def)

lemma seeded_projects: "list_projects_locked False (seeded_db E) = Inr [\<lparr>pj_id = ''prj-travel'',
      pj_name = ''Travel Webapp'', pj_description = ''Booking flow, auth and payments.'',
      pj_created_at = clock E, pj_archived_at = 0\<rparr>]"
  by (simp add: list_projects_locked_def seeded_db_def seed_project_def row_simps project_msg_def)

text \<open>
  Seeding an empty database succeeds and establishes the schema invariant: two projects, one
  of them archived, and a work package with two tasks, of which the first is ready and the
  second done although the first, which blocks it, is not; the log holds one event.
\<close>

lemma seed_establishes:
  assumes "json_valid E seed_payload"
  shows "\<exists>d. seed E (idle empty_db) = (Inr (), idle d) \<and> db_inv d \<and>
    map (\<lambda>n. (n_id n, node_status d n)) (nodes d) =
      [(''WP-AUTH'', ''READY''), (''T-1042'', ''READY''), (''T-1043'', ''DONE'')] \<and>
    dep_edges d = [(''T-1042'', ''T-1043'')] \<and> map e_seq (events d) = [1] \<and>
    list_projects_locked False d = Inr [\<lparr>pj_id = ''prj-travel'', pj_name = ''Travel Webapp'',
      pj_description = ''Booking flow, auth and payments.'', pj_created_at = clock E, pj_archived_at = 0\<rparr>]"
proof (intro exI conjI)
  show "seed E (idle empty_db) = (Inr (), idle (seeded_db E))"
    by (simp add: seed_def seed_batch_empty [OF assms])
  show "db_inv (seeded_db E)" by (rule seeded_db_inv [OF assms])
  show "dep_edges (seeded_db E) = [(''T-1042'', ''T-1043'')]" "map e_seq (events (seeded_db E)) = [1]"
    by (simp_all add: seeded_db_def dep_edges_def)
qed (rule seeded_statuses seeded_projects)+

definition lenient_env :: env where
  "lenient_env = demo_env\<lparr>json_valid := (\<lambda>s. True)\<rparr>"

text \<open>
  Seeding is not idempotent: on a database that holds the seed's first project the batch
  fails at its first statement and changes nothing, so a daemon started with \<open>--seed\<close> on a file
  it has seeded before stops with an error.
\<close>

lemma seed_refuses_second:
  assumes "''prj-travel'' \<in> project_ids (live c)"
  shows "seed E c = (Inl (internal (''seed: '' @ err_message (violation_error E (UniqueFailed ''projects'')))), c)"
  using assms
  by (simp add: seed_def seed_batch_def sm_bind_run insert_project_row_def seed_project_def setup_error_def)

section \<open>Opening\<close>

text \<open>The files the program has left behind: untouched, prepared, or cut off between the steps.\<close>

definition fresh_file :: db_file where
  "fresh_file = \<lparr>f_version = 0, f_tables = None\<rparr>"

definition ready_file :: "db_file \<Rightarrow> bool" where
  "ready_file f \<longleftrightarrow> f_version f \<ge> 1 \<and> f_tables f \<noteq> None"

text \<open>
  C40: The migration ratchet. Opening a prepared file returns it as it is, however often; opening
  a fresh one prepares it with empty tables; but a file whose first opening stopped after the
  schema was applied and before its version was stamped can never be opened again: every later
  attempt fails at the schema and leaves the file as it is.
\<close>

theorem open_ratchet:
  assumes up: "connect S (resolve_url url) = Inr f" "pragma_error S = None" "version_error S = None"
  shows "(ready_file f \<longrightarrow> open_db S url = (Inr f, Some f)) \<and>
    (f = fresh_file \<and> stamp_error S = None \<longrightarrow>
      open_db S url = (Inr \<lparr>f_version = 1, f_tables = Some empty_db\<rparr>,
                       Some \<lparr>f_version = 1, f_tables = Some empty_db\<rparr>)) \<and>
    (f = fresh_file \<and> stamp_error S = Some e \<longrightarrow>
      open_db S url = (Inl (internal (''set user_version: '' @ e)),
                       Some \<lparr>f_version = 0, f_tables = Some empty_db\<rparr>)) \<and>
    (f_version f < 1 \<and> f_tables f \<noteq> None \<longrightarrow>
      open_db S url = (Inl (internal (''apply schema: '' @ schema_exists S)), Some f))"
  using up
  by (auto simp: open_db_def migrate_def ready_file_def fresh_file_def apply_schema_def setup_error_def)

definition demo_host :: "db_file \<Rightarrow> string option \<Rightarrow> host_setup" where
  "demo_host f stamp = \<lparr>connect = (\<lambda>t. if t = OnPath ''flow.db'' then Inr f else Inl ''unable to open''),
     pragma_error = None, version_error = None, schema_exists = ''table projects already exists'',
     stamp_error = stamp\<rparr>"

theorem open_ratchet_witness:
  "open_db (demo_host \<lparr>f_version = 0, f_tables = Some empty_db\<rparr> None) ''sqlite://flow.db'' =
     (Inl (internal ''apply schema: table projects already exists''), Some \<lparr>f_version = 0, f_tables = Some empty_db\<rparr>)"
proof -
  let ?f = "\<lparr>f_version = 0, f_tables = Some empty_db\<rparr>" and ?S = "demo_host \<lparr>f_version = 0, f_tables = Some empty_db\<rparr> None"
  have "connect ?S (resolve_url ''sqlite://flow.db'') = Inr ?f" "pragma_error ?S = None" "version_error ?S = None"
    "schema_exists ?S = ''table projects already exists''"
    by (simp_all add: demo_host_def resolve_url_def)
  then show ?thesis using open_ratchet [of ?S "''sqlite://flow.db''" ?f] by simp
qed

end
