(* ===== verification/Move_Props.thy ===== *)
theory Move_Props
  imports Example
begin

text \<open>
  What a \<open>MoveNode\<close> does: the place of the node, the steps a demotion drops, the verification a
  change of kind takes away, and the nodes it reports.
\<close>

section \<open>Dropping the steps of a task\<close>

lemma leaf_subtree:
  assumes "\<And>n. n \<in> set (nodes d) \<Longrightarrow> n_parent_id n \<noteq> Some i"
  shows "subtree d i = [i]"
proof -
  have "y \<notin> set (succs (parent_edges d) i)" for y
    using assms by (auto simp: parent_edges_iff)
  then have "succs (parent_edges d) i = []" by (meson last_in_set)
  then show ?thesis unfolding subtree_def by (simp add: closure.simps)
qed

lemma drop_nodes_Cons:
  assumes "same_graph (drop_nodes [x] d) d1"
  shows "same_graph (drop_nodes (x # xs) d) (drop_nodes xs d1)"
  using assms by (auto simp: same_graph_def drop_nodes_def intro!: filter_cong)

lemma same_graph_trans: "same_graph a b \<Longrightarrow> same_graph b c \<Longrightarrow> same_graph a c"
  by (simp add: same_graph_def)

lemma drop_child_run:
  assumes "drop_child E pid author x c = (Inr (deps, ev), c')" "x \<in> node_ids (live c)"
    and "\<And>n. n \<in> set (nodes (live c)) \<Longrightarrow> n_parent_id n \<noteq> Some x"
  shows "same_graph (drop_nodes [x] (live c)) (live c')" "savepoint c' = savepoint c"
    "idempotency (live c') = idempotency (live c)" "deps = blocks (live c) x"
  using assms(1) unfolding drop_child_def
  by (auto simp: sm_bind_read query_blocked_ok sm_bind_run delete_node_def leaf_subtree [OF assms(3)] assms(2)
      sm_return_def same_graph_def drop_nodes_def elim!: sm_bind_InrE dest!: delete_event_InrD)

lemma drop_steps_run:
  assumes "sm_each (drop_child E pid author) xs c = (Inr r, c')" "distinct xs" "set xs \<subseteq> node_ids (live c)"
    and "\<And>n x. n \<in> set (nodes (live c)) \<Longrightarrow> x \<in> set xs \<Longrightarrow> n_parent_id n \<noteq> Some x"
  shows "same_graph (drop_nodes xs (live c)) (live c') \<and> savepoint c' = savepoint c \<and>
    idempotency (live c') = idempotency (live c) \<and>
    (\<forall>x \<in> set xs. \<forall>y. (x, y) \<in> set (dep_edges (live c)) \<longrightarrow> y \<notin> set xs \<longrightarrow> y \<in> set (concat (map fst r)))"
  using assms
proof (induction xs arbitrary: c r)
  case Nil
  then show ?case by (simp add: sm_return_def drop_nodes_def same_graph_def)
next
  case (Cons x xs)
  obtain deps ev c1 r' where 1: "drop_child E pid author x c = (Inr (deps, ev), c1)"
    and 2: "sm_each (drop_child E pid author) xs c1 = (Inr r', c')" and r: "r = (deps, ev) # r'"
    using Cons.prems(1) by (auto simp: sm_return_def elim!: sm_bind_InrE)
  have "x \<in> node_ids (live c)" using Cons.prems(3) by simp
  note first = drop_child_run [OF 1 this Cons.prems(4)]
  have g: "same_graph (drop_nodes [x] (live c)) (live c1)" using first(1) by simp
  have nodes: "nodes (live c1) = filter (\<lambda>n. n_id n \<noteq> x) (nodes (live c))"
    using g by (simp add: same_graph_def drop_nodes_def)
  have "same_graph (drop_nodes xs (live c1)) (live c') \<and> savepoint c' = savepoint c1 \<and>
    idempotency (live c') = idempotency (live c1) \<and>
    (\<forall>x \<in> set xs. \<forall>y. (x, y) \<in> set (dep_edges (live c1)) \<longrightarrow> y \<notin> set xs \<longrightarrow> y \<in> set (concat (map fst r')))"
  proof (rule Cons.IH [OF 2])
    show "set xs \<subseteq> node_ids (live c1)" using Cons.prems(2,3) by (force simp: nodes node_ids_def)
  qed (use Cons.prems(2,4) in \<open>auto simp: nodes\<close>)
  moreover have "\<forall>a \<in> set xs. \<forall>y. (a, y) \<in> set (dep_edges (live c)) \<longrightarrow> y \<noteq> x \<longrightarrow> (a, y) \<in> set (dep_edges (live c1))"
    using g Cons.prems(2) by (auto simp: same_graph_def drop_nodes_def dep_edges_def)
  moreover have "set deps = {y. (x, y) \<in> set (dep_edges (live c))}"
    using first(4) by (simp add: set_blocks)
  ultimately show ?case
    using same_graph_trans [OF drop_nodes_Cons [OF g, of xs]] first(2,3) Cons.prems(2) by (auto simp: r)
qed

section \<open>The outcome of a move\<close>

text \<open>The steps a move drops: the children of a task that becomes a step.\<close>

definition moved_steps :: "db \<Rightarrow> node_row \<Rightarrow> move_node_request \<Rightarrow> string list" where
  "moved_steps d n req =
     (if n_kind n = ''TASK'' \<and> mv_kind req = node_kind_i32 NodeKind_Step
      then map n_id (filter (\<lambda>c. n_parent_id c = Some (n_id n)) (nodes d)) else [])"

lemma steps_are_leaves:
  assumes "db_inv d" "n \<in> set (nodes d)" "c \<in> set (nodes d)" "x \<in> set (moved_steps d n req)"
  shows "n_parent_id c \<noteq> Some x"
proof
  assume c: "n_parent_id c = Some x"
  obtain s where s: "s \<in> set (nodes d)" "n_id s = x" "n_parent_id s = Some (n_id n)" "n_kind n = ''TASK''"
    using assms(4) by (auto simp: moved_steps_def split: if_splits)
  have kind: "kind_of d (n_id m) = Some (n_kind m)" if "m \<in> set (nodes d)" for m
    using assms(1) that find_node_iff [of d "n_id m" m] by (simp add: db_inv_def kind_of_def)
  have "kind_of d (n_id n) = parent_kind_for (n_kind s)" "kind_of d x = parent_kind_for (n_kind c)"
    using assms(1,3) s(1,3) c by (auto simp: db_inv_def intro: node_ok_parent)
  then show False
    using kind [OF assms(2)] kind [OF s(1)] s(2,4) by (auto simp: parent_kind_for_def split: if_splits)
qed

lemma steps_distinct: "db_inv d \<Longrightarrow> distinct (moved_steps d n req)"
  by (simp add: moved_steps_def distinct_map_filter_key inv_defs)

lemma steps_known: "set (moved_steps d n req) \<subseteq> node_ids d"
  by (auto simp: moved_steps_def node_ids_def)

lemma moved_not_step: "db_inv d \<Longrightarrow> n \<in> set (nodes d) \<Longrightarrow> n_id n \<notin> set (moved_steps d n req)"
  using no_self_parent same_id_same_node by (fastforce simp: moved_steps_def db_inv_def)

lemma drop_children_run:
  assumes "db_inv d" "n \<in> set (nodes d)" "mv_node_id req = n_id n"
    and "drop_children E req pid (node_kind_i32 (kind_of_str (n_kind n))) (within d d) = (Inr r, c1)"
    and "kind_ok (n_kind n)"
  shows "same_graph (drop_nodes (moved_steps d n req) d) (live c1) \<and> savepoint c1 = Some d \<and>
    idempotency (live c1) = idempotency d \<and>
    (\<forall>x \<in> set (moved_steps d n req). \<forall>y. (x, y) \<in> set (dep_edges d) \<longrightarrow> y \<notin> set (moved_steps d n req) \<longrightarrow>
      y \<in> set (concat (map fst r)))"
proof (cases "n_kind n = ''TASK'' \<and> mv_kind req = node_kind_i32 NodeKind_Step")
  case True
  then have "sm_each (drop_child E pid (author_of (mv_meta req))) (moved_steps d n req) (within d d) = (Inr r, c1)"
    using assms(3,4) by (simp add: drop_children_def kind_of_str_def sm_bind_read child_rows_def row_simps moved_steps_def)
  from drop_steps_run [OF this steps_distinct [OF assms(1)]] show ?thesis
    using steps_known steps_are_leaves [OF assms(1,2)] by simp
next
  case False
  then have "\<not> (node_kind_i32 (kind_of_str (n_kind n)) = node_kind_i32 NodeKind_Task \<and>
      mv_kind req = node_kind_i32 NodeKind_Step)"
    using assms(5) by (auto simp: kind_of_str_def kind_ok_def)
  then show ?thesis
    using False assms(4) by (auto simp: drop_children_def sm_return_def moved_steps_def drop_nodes_def same_graph_def)
qed

text \<open>The events of the dropped steps: one deletion each, in their order.\<close>

definition tells_deleted :: "env \<Rightarrow> string \<Rightarrow> string list \<Rightarrow> pb_event list \<Rightarrow> bool" where
  "tells_deleted E pid xs evs \<longleftrightarrow> (\<exists>es. evs = map event_msg es \<and> (\<forall>e \<in> set es. is_deletion pid e) \<and>
     map e_payload es = map (\<lambda>x. json_text E (deleted_payload x)) xs)"

lemma drop_steps_tell: "sm_each (drop_child E pid author) xs c = (Inr r, c') \<Longrightarrow> tells_deleted E pid xs (map snd r)"
proof (induction xs arbitrary: c r)
  case Nil
  then show ?case by (simp add: sm_return_def tells_deleted_def)
next
  case (Cons x xs)
  obtain deps ev c1 r' where 1: "drop_child E pid author x c = (Inr (deps, ev), c1)"
    and 2: "sm_each (drop_child E pid author) xs c1 = (Inr r', c')" and r: "r = (deps, ev) # r'"
    using Cons.prems(1) by (auto simp: sm_return_def elim!: sm_bind_InrE)
  obtain e where "ev = event_msg e" "is_deletion pid e" "e_payload e = json_text E (deleted_payload x)"
    using 1 unfolding drop_child_def by (auto simp: sm_return_def elim!: sm_bind_InrE dest!: delete_event_InrD)
  moreover obtain es where "map snd r' = map event_msg es" "\<forall>e \<in> set es. is_deletion pid e"
    "map e_payload es = map (\<lambda>x. json_text E (deleted_payload x)) xs"
    using Cons.IH [OF 2] by (auto simp: tells_deleted_def)
  ultimately show ?case unfolding tells_deleted_def r by (intro exI [of _ "e # es"]) simp
qed

lemma drop_children_tell:
  assumes "drop_children E req pid (node_kind_i32 (kind_of_str (n_kind n))) (within d d) = (Inr r, c1)"
    and "kind_ok (n_kind n)" "mv_node_id req = n_id n"
  shows "tells_deleted E pid (moved_steps d n req) (map snd r)"
proof (cases "n_kind n = ''TASK'' \<and> mv_kind req = node_kind_i32 NodeKind_Step")
  case True
  then have "sm_each (drop_child E pid (author_of (mv_meta req))) (moved_steps d n req) (within d d) = (Inr r, c1)"
    using assms(1,3) by (simp add: drop_children_def kind_of_str_def sm_bind_read child_rows_def row_simps moved_steps_def)
  then show ?thesis by (rule drop_steps_tell)
next
  case False
  then have "\<not> (node_kind_i32 (kind_of_str (n_kind n)) = node_kind_i32 NodeKind_Task \<and>
      mv_kind req = node_kind_i32 NodeKind_Step)"
    using assms(2) by (auto simp: kind_of_str_def kind_ok_def)
  then show ?thesis
    using False assms(1) by (auto simp: drop_children_def sm_return_def moved_steps_def tells_deleted_def)
qed

text \<open>Where the node goes, and the row as the move leaves it.\<close>

definition placed :: "env \<Rightarrow> move_node_request \<Rightarrow> int \<Rightarrow> node_row \<Rightarrow> node_row" where
  "placed E req pos n = (if n_id n = mv_node_id req
     then n\<lparr>n_parent_id := nullif (mv_parent_id req), n_kind := kind_str (mv_kind req),
       n_position := wrap32 pos, n_updated_at := clock E\<rparr> else n)"

lemma next_position_ok: "\<exists>pos. next_position p d = Inr pos"
  by (simp add: next_position_def row_simps get_i64_at_def cell_at_def)

lemma next_position_cong: "nodes d' = nodes d \<Longrightarrow> next_position p d' = next_position p d"
  by (simp add: next_position_def)

lemma move_tx_run:
  assumes "db_inv d" "find_node d (mv_node_id req) = Some n"
    and "move_node_tx E req pid (node_kind_i32 (kind_of_str (n_kind n))) old (within d d) = (Inr (evs, is), c')"
  obtains pos where "next_position (mv_parent_id req) (drop_nodes (moved_steps d n req) d) = Inr pos"
    "nodes (live c') = map (placed E req pos) (nodes (drop_nodes (moved_steps d n req) d))"
    "dependencies (live c') = dependencies (drop_nodes (moved_steps d n req) d)"
    "verifications (live c') = filter (\<lambda>v. node_kind_i32 (kind_of_str (n_kind n)) = mv_kind req \<or>
      v_node_id v \<noteq> mv_node_id req) (verifications (drop_nodes (moved_steps d n req) d))"
    "mv_node_id req \<in> set is"
    "\<forall>x \<in> set (moved_steps d n req). \<forall>y. (x, y) \<in> set (dep_edges d) \<longrightarrow> y \<notin> set (moved_steps d n req) \<longrightarrow> y \<in> set is"
    "\<exists>es e. evs = es @ [event_msg e] \<and> tells_deleted E pid (moved_steps d n req) es \<and> e_kind e = ''NODE_UPDATED'' \<and>
      e_project_id e = pid"
proof -
  let ?k = "node_kind_i32 (kind_of_str (n_kind n))" and ?i = "mv_node_id req" and ?g = "moved_steps d n req"
  have n: "n \<in> set (nodes d)" "n_id n = ?i" using find_node_SomeD [OF assms(2)] by simp_all
  have ok: "kind_ok (n_kind n)"
    using assms(1) n(1) by (auto simp: inv_defs node_ok_def check_node_def split: if_splits)
  obtain r c1 where drop: "drop_children E req pid ?k (within d d) = (Inr r, c1)"
    and rest: "sm_bind (if ?k \<noteq> mv_kind req then run_stmt (delete_verification ?i) else sm_return ()) (\<lambda>_.
     sm_bind (read_db (next_position (mv_parent_id req))) (\<lambda>new_pos.
     sm_bind (run_stmt (update_node_place E ?i (nullif (mv_parent_id req)) (kind_str (mv_kind req))
       (wrap32 new_pos))) (\<lambda>_.
     sm_bind (append_event E pid ?i ''NODE_UPDATED'' (author_of (mv_meta req)) (''moved '' @ ?i)
       (json_text E (move_payload ?k old (mv_kind req) (mv_parent_id req)))) (\<lambda>e.
     sm_bind (record_idempotency E pid (idem_key (mv_meta req)) (last_event_seq (map snd r @ [e]))) (\<lambda>_.
     sm_return (map snd r @ [e], ?i # concat (map fst r))))))) c1 = (Inr (evs, is), c')"
    using assms(3) [unfolded move_node_tx_def Let_def] by (rule sm_bind_InrE) (rule that)
  have g: "same_graph (drop_nodes ?g d) (live c1)"
    and told: "\<forall>x \<in> set ?g. \<forall>y. (x, y) \<in> set (dep_edges d) \<longrightarrow> y \<notin> set ?g \<longrightarrow> y \<in> set (concat (map fst r))"
    using drop_children_run [OF assms(1) n(1) n(2) [symmetric] drop ok] by simp_all
  define d2 where "d2 = (if ?k \<noteq> mv_kind req
    then (live c1)\<lparr>verifications := filter (\<lambda>w. v_node_id w \<noteq> ?i) (verifications (live c1))\<rparr> else live c1)"
  obtain pos where pos: "next_position (mv_parent_id req) (drop_nodes ?g d) = Inr pos"
    using next_position_ok by blast
  have nodes2: "nodes d2 = nodes (drop_nodes ?g d)" "dependencies d2 = dependencies (drop_nodes ?g d)"
    using g by (simp_all add: d2_def same_graph_def)
  then have pos2: "next_position (mv_parent_id req) d2 = Inr pos"
    using pos next_position_cong [OF nodes2(1)] by simp
  have steps: "tells_deleted E pid ?g (map snd r)" by (rule drop_children_tell [OF drop ok n(2) [symmetric]])
  obtain d3 e c4 where place: "update_node_place E ?i (nullif (mv_parent_id req)) (kind_str (mv_kind req)) (wrap32 pos) d2 = Inr ((), d3)"
    and ev: "append_event E pid ?i ''NODE_UPDATED'' (author_of (mv_meta req)) (''moved '' @ ?i)
       (json_text E (move_payload ?k old (mv_kind req) (mv_parent_id req))) (c1\<lparr>live := d3\<rparr>) = (Inr e, c4)"
    and last: "is = ?i # concat (map fst r)" "evs = map snd r @ [e]"
      "c' = c4\<lparr>live := ledger_put E pid (idem_key (mv_meta req)) (last_event_seq (map snd r @ [e])) None (live c4)\<rparr>"
    using rest pos2
    by (cases "?k \<noteq> mv_kind req")
      (auto simp: sm_bind_run sm_bind_read sm_bind_return delete_verification_def d2_def sm_return_def record_idempotency_eq
        elim!: sm_bind_InrE split: sum.splits prod.splits)
  show thesis
  proof (rule that [OF pos])
    have "?i \<in> node_ids d2"
      using n moved_not_step [OF assms(1) n(1), of req] by (force simp: node_ids_def nodes2 drop_nodes_def)
    then obtain n2 where "find_node d2 ?i = Some n2" using node_ids_find by blast
    then have d3: "d3 = put_node E ?i (\<lambda>m. m\<lparr>n_parent_id := nullif (mv_parent_id req),
        n_kind := kind_str (mv_kind req), n_position := wrap32 pos\<rparr>) d2"
      using place by (simp add: update_node_place_def Let_def split: option.splits if_splits)
    note live = last(3) append_event_InrD(2) [OF ev]
    show "nodes (live c') = map (placed E req pos) (nodes (drop_nodes ?g d))"
      by (simp add: live d3 put_node_def nodes2 placed_def [abs_def])
    show "dependencies (live c') = dependencies (drop_nodes ?g d)"
      by (simp add: live d3 put_node_def nodes2)
    show "verifications (live c') = filter (\<lambda>v. ?k = mv_kind req \<or> v_node_id v \<noteq> ?i) (verifications (drop_nodes ?g d))"
      using g by (simp add: live d3 put_node_def d2_def same_graph_def)
    show "\<exists>es e. evs = es @ [event_msg e] \<and> tells_deleted E pid ?g es \<and> e_kind e = ''NODE_UPDATED'' \<and> e_project_id e = pid"
      unfolding last(2) append_event_InrD(1) [OF ev]
      by (rule exI [of _ "map snd r"], rule exI, intro conjI, rule refl) (simp_all add: steps)
  qed (use told in \<open>auto simp: last(1)\<close>)
qed

lemma placed_sel [simp]:
  "n_id (placed E req pos n) = n_id n" "n_declared_status (placed E req pos n) = n_declared_status n"
  by (simp_all add: placed_def)

text \<open>A node no dropped step blocks keeps its derived status.\<close>

lemma placed_status:
  assumes "nodes d' = map (placed E req pos) (nodes (drop_nodes gone d))"
    and "dependencies d' = dependencies (drop_nodes gone d)"
    and "n_id x \<notin> set gone" "\<And>b. b \<in> set gone \<Longrightarrow> (b, n_id x) \<notin> set (dep_edges d)"
  shows "node_status d' (placed E req pos x) = node_status d x"
proof -
  have e: "(a, n_id x) \<in> set (dep_edges d') \<longleftrightarrow> (a, n_id x) \<in> set (dep_edges d)" for a
    using assms(2-4) by (auto simp: dep_edges_iff drop_nodes_def)
  have "(\<exists>b \<in> set (nodes d'). (n_id b, n_id x) \<in> set (dep_edges d) \<and> n_declared_status b \<noteq> ''DONE'') \<longleftrightarrow>
      (\<exists>b \<in> set (nodes d). (n_id b, n_id x) \<in> set (dep_edges d) \<and> n_declared_status b \<noteq> ''DONE'')"
    using assms(1,4) by (auto simp: drop_nodes_def)
  then show ?thesis by (simp add: node_status_def blocked_iff e)
qed

lemma placed_told:
  assumes "db_inv d" "nodes d' = map (placed E req pos) (nodes (drop_nodes gone d))"
    and "dependencies d' = dependencies (drop_nodes gone d)"
    and told: "\<forall>x \<in> set gone. \<forall>y. (x, y) \<in> set (dep_edges d) \<longrightarrow> y \<notin> set gone \<longrightarrow> y \<in> set is"
    and x: "x \<in> set (nodes d)" "x' \<in> set (nodes d')" "n_id x' = n_id x" "node_status d' x' \<noteq> node_status d x"
  shows "n_id x' \<in> set is"
proof -
  obtain y where y: "y \<in> set (nodes d)" "n_id y \<notin> set gone" "x' = placed E req pos y"
    using x(2) by (auto simp: assms(2) drop_nodes_def)
  then have "y = x" using x(1,3) assms(1) same_id_same_node [of d y x] by (simp add: db_inv_def)
  then have "\<exists>b \<in> set gone. (b, n_id x) \<in> set (dep_edges d)"
    using placed_status [OF assms(2,3), of x] x(4) y(2,3) by blast
  then show ?thesis using told y(2) x(3) \<open>y = x\<close> by auto
qed

lemma move_node_outcome:
  assumes inv: "db_inv d" and run: "move_node_locked E req (idle d) = (Inr m, c')"
  obtains (retry) n seq where "find_node d (mv_node_id req) = Some n"
      "ledger_hit d (n_project_id n) (idem_key (mv_meta req)) = Some seq" "m = empty_mutation seq" "c' = idle d"
  | (fresh) n d' pos "is" where "find_node d (mv_node_id req) = Some n"
      "ledger_hit d (n_project_id n) (idem_key (mv_meta req)) = None" "db_inv d'" "c' = idle d'"
      "next_position (mv_parent_id req) (drop_nodes (moved_steps d n req) d) = Inr pos"
      "nodes d' = map (placed E req pos) (nodes (drop_nodes (moved_steps d n req) d))"
      "dependencies d' = dependencies (drop_nodes (moved_steps d n req) d)"
      "verifications d' = filter (\<lambda>v. node_kind_i32 (kind_of_str (n_kind n)) = mv_kind req \<or>
        v_node_id v \<noteq> mv_node_id req) (verifications (drop_nodes (moved_steps d n req) d))"
      "mu_changed_nodes m = nodes_of d' is" "mv_node_id req \<in> set is"
      "\<forall>x \<in> set (moved_steps d n req). \<forall>y. (x, y) \<in> set (dep_edges d) \<longrightarrow> y \<notin> set (moved_steps d n req) \<longrightarrow> y \<in> set is"
      "\<exists>es e. mu_events m = es @ [event_msg e] \<and> tells_deleted E (n_project_id n) (moved_steps d n req) es \<and>
        e_kind e = ''NODE_UPDATED'' \<and> e_project_id e = n_project_id n"
  using inv run [unfolded move_node_locked_def Let_def]
proof (cases rule: node_write_outcome)
  case (retry n seq)
  then show ?thesis by (rule that(1))
next
  case (fresh n)
  let ?k = "node_kind_i32 (kind_of_str (n_kind n))" and ?p = "n_project_id n"
  obtain old where "sm_bind (in_tx E (move_node_tx E req ?p ?k old))
      (\<lambda>(evs, is). read_db (finish_mutation ?p evs is)) (idle d) = (Inr m, c')"
    using fresh(3) by (auto simp: sm_bind_read split: sum.splits)
  then obtain r d1 where tx: "move_node_tx E req ?p ?k old (within d d) = (Inr r, within d d1)" and inv1: "db_inv d1"
    and fin: "(case r of (evs, is) \<Rightarrow> read_db (finish_mutation ?p evs is)) (idle d1) = (Inr m, c')"
    by (rule tx_committed_inv [OF safe_move_tx inv])
  obtain evs "is" where r: "r = (evs, is)" by (cases r)
  have c': "c' = idle d1" "mu_changed_nodes m = nodes_of d1 is" "mu_events m = evs"
    using fin inv1 by (auto simp: r finish_read mutation_of_def)
  from tx [unfolded r] show ?thesis
    by (rule move_tx_run [OF inv fresh(1)])
      (use that(2) [OF fresh(1,2) inv1 c'(1) _ _ _ _ c'(2)] c'(3) in simp)
qed



end
