(* ===== verification/Update_Props.thy ===== *)
theory Update_Props
  imports Example
begin

text \<open>What an \<open>UpdateNode\<close> writes: the columns its mask names, and nothing else.\<close>

section \<open>The fields of a mask\<close>

definition known_fields :: "string list" where
  "known_fields = [''title'', ''description'', ''condition'', ''position'', ''reference'', ''note'', ''wp_state'']"

text \<open>The row after a write of one field, and after all fields of a mask.\<close>

definition set_field :: "update_node_request \<Rightarrow> string \<Rightarrow> node_row \<Rightarrow> node_row" where
  "set_field req f n =
     (if f = ''title'' then n\<lparr>n_title := un_title req\<rparr>
      else if f = ''description'' then n\<lparr>n_description := un_description req\<rparr>
      else if f = ''condition'' then n\<lparr>n_condition := un_condition req\<rparr>
      else if f = ''position'' then n\<lparr>n_position := un_position req\<rparr>
      else if f = ''reference'' then n\<lparr>n_reference := Some (un_reference req)\<rparr>
      else if f = ''note'' then n\<lparr>n_note := un_note req\<rparr>
      else if f = ''wp_state'' then n\<lparr>n_wp_state := wp_str (un_wp_state req)\<rparr>
      else n)"

definition masked :: "update_node_request \<Rightarrow> string set \<Rightarrow> node_row \<Rightarrow> node_row" where
  "masked req F n = n\<lparr>
     n_title := (if ''title'' \<in> F then un_title req else n_title n),
     n_description := (if ''description'' \<in> F then un_description req else n_description n),
     n_condition := (if ''condition'' \<in> F then un_condition req else n_condition n),
     n_position := (if ''position'' \<in> F then un_position req else n_position n),
     n_reference := (if ''reference'' \<in> F then Some (un_reference req) else n_reference n),
     n_note := (if ''note'' \<in> F then un_note req else n_note n),
     n_wp_state := (if ''wp_state'' \<in> F then wp_str (un_wp_state req) else n_wp_state n)\<rparr>"

lemma set_field_id [simp]:
  "n_id (set_field req f n) = n_id n" "n_project_id (set_field req f n) = n_project_id n"
  by (simp_all add: set_field_def)

lemma masked_id [simp]: "n_id (masked req F n) = n_id n" "n_project_id (masked req F n) = n_project_id n"
  by (simp_all add: masked_def)

lemma masked_insert: "f \<in> set known_fields \<Longrightarrow> masked req F (set_field req f n) = masked req (insert f F) n"
  by (auto simp: known_fields_def set_field_def masked_def)

lemma masked_empty: "masked req {} n = n"
  by (simp add: masked_def)

lemma masked_touch: "masked req F (n\<lparr>n_updated_at := t\<rparr>) = (masked req F n)\<lparr>n_updated_at := t\<rparr>"
  by (simp add: masked_def)

lemma update_field_run:
  assumes "update_field E req f c = (Inr u, c')" "un_node_id req \<in> node_ids (live c)"
  shows "f \<in> set known_fields \<and> c' = c\<lparr>live := put_node E (un_node_id req) (set_field req f) (live c)\<rparr>"
proof -
  obtain n where n: "find_node (live c) (un_node_id req) = Some n" using node_ids_find [OF assms(2)] by blast
  have set_col: "c' = c\<lparr>live := put_node E (un_node_id req) g (live c)\<rparr>"
    if "run_stmt (update_node E (un_node_id req) g) c = (Inr (), c')" for g
    using that n by (auto simp: run_stmt_eq_Inr update_node_def split: option.splits)
  show ?thesis
    using assms(1) unfolding update_field_def Let_def
    by (auto simp: known_fields_def set_field_def [abs_def] sm_throw_def dest!: set_col split: if_splits)
qed

lemma update_fields_run:
  assumes "sm_each (update_field E req) fs c = (Inr us, c')" "un_node_id req \<in> node_ids (live c)"
  shows "set fs \<subseteq> set known_fields \<and> (fs \<noteq> [] \<longrightarrow>
    c' = c\<lparr>live := put_node E (un_node_id req) (masked req (set fs)) (live c)\<rparr>)"
  using assms
proof (induction fs arbitrary: c us)
  case (Cons f fs)
  let ?i = "un_node_id req"
  obtain u us' c1 where 1: "update_field E req f c = (Inr u, c1)"
    and 2: "sm_each (update_field E req) fs c1 = (Inr us', c')"
    using Cons.prems(1) by (auto simp: sm_return_def elim!: sm_bind_InrE)
  note first = update_field_run [OF 1 Cons.prems(2)]
  have "node_ids (live c1) = node_ids (live c)" using first by (simp add: put_node_ids keeps_id_def)
  note IH = Cons.IH [OF 2, unfolded this, OF Cons.prems(2)]
  have put: "put_node E ?i (masked req F) (put_node E ?i (set_field req f) (live c)) =
      put_node E ?i (masked req (insert f F)) (live c)" for F
    using first by (simp add: put_node_def masked_touch masked_insert cong: if_cong)
  show ?case
  proof (cases "fs = []")
    case True
    then have "c' = c1" using 2 by (simp add: sm_return_def)
    moreover have "set_field req f = masked req {f}"
      using masked_insert [of f req "{}"] first by (auto simp: masked_empty fun_eq_iff)
    ultimately show ?thesis using True first by simp
  qed (use first IH put in simp)
qed simp

lemma update_node_write:
  "update_node_tx E req pid = logged_write E (sm_bind (sm_each (update_field E req) (un_update_mask req)) (\<lambda>_. sm_return ()))
     pid (un_node_id req) ''NODE_UPDATED'' (author_of (un_meta req)) (''updated '' @ un_node_id req) ''{}'' (idem_key (un_meta req))"
proof -
  have "sm_bind (sm_return ()) f = f ()" for f :: "unit \<Rightarrow> (db, pb_event) sm" by (rule ext) simp
  then show ?thesis by (intro ext) (simp add: update_node_tx_def logged_write_def sm_bind_assoc)
qed

lemma update_node_run:
  assumes "db_inv d" "update_node_locked E req (idle d) = (Inr m, c')"
    and "find_node d (un_node_id req) = Some n" "ledger_hit d (n_project_id n) (idem_key (un_meta req)) = None"
  shows "\<exists>d' e. c' = idle d' \<and> db_inv d' \<and> un_update_mask req \<noteq> [] \<and> set (un_update_mask req) \<subseteq> set known_fields \<and>
    nodes d' = map (\<lambda>x. if n_id x = un_node_id req
      then (masked req (set (un_update_mask req)) x)\<lparr>n_updated_at := clock E\<rparr> else x) (nodes d) \<and>
    dependencies d' = dependencies d \<and> verifications d' = verifications d \<and> projects d' = projects d \<and>
    events d' = events d @ [e] \<and> e_kind e = ''NODE_UPDATED'' \<and> e_project_id e = n_project_id n \<and>
    m = mutation_of (n_project_id n) [event_msg e] [un_node_id req] d'"
  using assms(1,2) unfolding update_node_locked_def Let_def
proof (cases rule: node_write_outcome)
  case (retry n0 seq)
  then show ?thesis using assms(3,4) by simp
next
  case (fresh n0)
  let ?i = "un_node_id req" and ?p = "n_project_id n" and ?mask = "un_update_mask req"
  let ?u = "sm_bind (sm_each (update_field E req) ?mask) (\<lambda>_. sm_return ())"
  have ne: "?mask \<noteq> []" using fresh(3) by (auto simp: sm_throw_def)
  have tx: "sm_bind (in_tx E (logged_write E ?u ?p ?i ''NODE_UPDATED'' (author_of (un_meta req))
      (''updated '' @ ?i) ''{}'' (idem_key (un_meta req)))) (\<lambda>event.
      read_db (finish_mutation ?p [event] [?i])) (idle d) = (Inr m, c')"
    using fresh(1,3) assms(3) ne by (simp add: update_node_write)
  have safe: "safe_body ?u" by (intro safe_rules)
  have i: "?i \<in> node_ids d" by (rule find_node_in_ids [OF assms(3)])
  show ?thesis
  proof (rule logged_write_outcome [OF safe assms(1) tx])
    fix d1 d'
    assume u: "?u (within d d) = (Inr (), within d d1)"
      and d': "d' = log_tail E ?p ?i ''NODE_UPDATED'' (author_of (un_meta req)) (''updated '' @ ?i) ''{}'' (idem_key (un_meta req)) d1"
      and inv: "db_inv d'" and c': "c' = idle d'"
      and m: "m = mutation_of ?p [event_msg (event_entry E ?p ?i ''NODE_UPDATED'' (author_of (un_meta req)) (''updated '' @ ?i) ''{}'' d1)] [?i] d'"
    obtain us where "sm_each (update_field E req) ?mask (within d d) = (Inr us, within d d1)"
      using u by (auto simp: sm_return_def elim!: sm_bind_InrE)
    from update_fields_run [OF this] have mask: "set ?mask \<subseteq> set known_fields"
      and "within d d1 = (within d d)\<lparr>live := put_node E ?i (masked req (set ?mask)) d\<rparr>"
      using i ne by simp_all
    from arg_cong [OF this(2), of live] have d1: "d1 = put_node E ?i (masked req (set ?mask)) d" by simp
    have g: "same_graph d1 d'" and ev: "events d' = events d1 @
        [event_entry E ?p ?i ''NODE_UPDATED'' (author_of (un_meta req)) (''updated '' @ ?i) ''{}'' d1]"
      by (simp_all add: d')
    show ?thesis
      using ne mask c' g ev inv m by (intro exI [of _ d'] exI) (auto simp: same_graph_def d1 put_node_def)
  qed
qed

text \<open>
  C26: An \<open>UpdateNode\<close> that is not a retry and succeeds writes exactly what its mask says: the mask
  is not empty and names known fields only, each column it names gets the value of the request
  (however often and in whatever order it is named), the time of the change is stamped, and no other
  column, node, edge, verification or project changes; one event is logged, and the node is
  among the changed nodes.
\<close>

theorem update_node_effect:
  assumes "db_inv d" "update_node_locked E req (idle d) = (Inr m, c')"
    and "find_node d (un_node_id req) = Some n" "ledger_hit d (n_project_id n) (idem_key (un_meta req)) = None"
  shows "\<exists>d' e. c' = idle d' \<and> un_update_mask req \<noteq> [] \<and> set (un_update_mask req) \<subseteq> set known_fields \<and>
    nodes d' = map (\<lambda>x. if n_id x = un_node_id req
      then (masked req (set (un_update_mask req)) x)\<lparr>n_updated_at := clock E\<rparr> else x) (nodes d) \<and>
    dependencies d' = dependencies d \<and> verifications d' = verifications d \<and> projects d' = projects d \<and>
    events d' = events d @ [e] \<and> e_kind e = ''NODE_UPDATED'' \<and> mu_seq m = e_seq e \<and>
    un_node_id req \<in> nd_id ` set (mu_changed_nodes m)"
proof -
  obtain d' e where run: "c' = idle d'" "db_inv d'" "un_update_mask req \<noteq> []" "set (un_update_mask req) \<subseteq> set known_fields"
    and nodes: "nodes d' = map (\<lambda>x. if n_id x = un_node_id req
      then (masked req (set (un_update_mask req)) x)\<lparr>n_updated_at := clock E\<rparr> else x) (nodes d)"
    and same: "dependencies d' = dependencies d" "verifications d' = verifications d" "projects d' = projects d"
    and e: "events d' = events d @ [e]" "e_kind e = ''NODE_UPDATED''"
      "m = mutation_of (n_project_id n) [event_msg e] [un_node_id req] d'"
    using update_node_run [OF assms] by blast
  let ?n = "(masked req (set (un_update_mask req)) n)\<lparr>n_updated_at := clock E\<rparr>"
  have n: "n \<in> set (nodes d)" "n_id n = un_node_id req" using find_node_SomeD [OF assms(3)] by simp_all
  then have "?n \<in> set (nodes d')" by (force simp: nodes)
  then have "node_msg d' ?n \<in> set (mu_changed_nodes m)"
    using reported [OF run(2), of ?n "[un_node_id req]"] n(2) by (simp add: e(3))
  then have "un_node_id req \<in> nd_id ` set (mu_changed_nodes m)"
    using n(2) by (auto intro: image_eqI [of _ _ "node_msg d' ?n"])
  then show ?thesis
    using run nodes same e(1,2) by (intro exI [of _ d'] exI [of _ e]) (simp add: e(3) last_event_seq_def)
qed

definition demo_update :: update_node_request where
  "demo_update = \<lparr>un_meta = None, un_node_id = ''a'', un_update_mask = [''note'', ''title'', ''note''],
     un_title = ''new'', un_description = ''ignored'', un_condition = '''', un_position = 7, un_wp_state = 0,
     un_reference = '''', un_note = ''n''\<rparr>"

lemma update_node_effect_witness:
  "\<exists>d'. snd (update_node_locked demo_env demo_update (idle demo_db)) = idle d' \<and>
    nodes d' ! 1 = (demo_node ''a'' (Some ''w'') ''TASK'' None 100)\<lparr>n_title := ''new'', n_note := ''n'', n_updated_at := 1000\<rparr>"
proof -
  let ?out = "update_node_locked demo_env demo_update (idle demo_db)" and ?n = "demo_node ''a'' (Some ''w'') ''TASK'' None 100"
  have "\<not> isl (fst ?out)" by code_simp
  then have run: "?out = (Inr (projr (fst ?out)), snd ?out)" by (simp add: prod_eq_iff)
  have n: "find_node demo_db (un_node_id demo_update) = Some ?n" by code_simp
  have miss: "ledger_hit demo_db (n_project_id ?n) (idem_key (un_meta demo_update)) = None" by code_simp
  obtain d' where "snd ?out = idle d'" "nodes d' = map (\<lambda>x. if n_id x = un_node_id demo_update
      then (masked demo_update (set (un_update_mask demo_update)) x)\<lparr>n_updated_at := clock demo_env\<rparr> else x) (nodes demo_db)"
    using update_node_effect [OF demo_inv run n miss] by blast
  then show ?thesis
    by (intro exI [of _ d']) (simp add: demo_db_def demo_node_def masked_def demo_update_def)
qed

end
