(* ===== verification/Review_Props.thy ===== *)
theory Review_Props
  imports Store_Settles Example
begin

text \<open>
  The two halves of a review. A verification row holds what an agent reported and what a human
  decided; each half is written by its own method only, and the other half stays as it is.
\<close>

section \<open>Signed halves\<close>

text \<open>What an agent has signed on a row, and what a human has; \<open>None\<close> when the half is empty.\<close>

definition agent_half ::
  "verification_row \<Rightarrow> (string \<times> string option \<times> int option \<times> int option \<times> string) option" where
  "agent_half v = map_option (\<lambda>r. (r, v_agent_name v, v_agent_at v, v_agent_node_rev v, v_agent_detail v))
     (v_agent_result v)"

definition human_half :: "verification_row \<Rightarrow> (string \<times> int option) option" where
  "human_half v = map_option (\<lambda>h. (h, v_human_at v)) (v_human_verdict v)"

definition signed_halves :: "(verification_row \<Rightarrow> 'h option) \<Rightarrow> db \<Rightarrow> (string \<times> 'h) set" where
  "signed_halves h d = {(i, x). (i, Some x) \<in> (\<lambda>v. (v_node_id v, h v)) ` set (verifications d)}"

text \<open>No half is added; with the flag, none is lost either.\<close>

definition half_le :: "(verification_row \<Rightarrow> 'h option) \<Rightarrow> bool \<Rightarrow> db \<Rightarrow> db \<Rightarrow> bool" where
  "half_le h keep d d' \<longleftrightarrow> signed_halves h d' \<subseteq> signed_halves h d \<and> (keep \<longrightarrow> signed_halves h d \<subseteq> signed_halves h d')"

interpretation half: session_order "half_le h keep" for h :: "verification_row \<Rightarrow> 'h option" and keep
  by unfold_locales (auto simp: half_le_def)

named_theorems half_rules \<open>programs that keep a half of the reviews\<close>

lemmas half_programs [half_rules] = half.moves_return half.moves_throw half.moves_read
  half.moves_lift half.moves_run half.moves_bind half.moves_each half.moves_if
  half.moves_option half.moves_prod

lemma half_tx [half_rules]:
  "safe_body f \<Longrightarrow> sm_moves (half_le h k) f \<Longrightarrow> sm_moves (half_le h k) (in_tx E f)"
  by (rule half.moves_tx) (simp_all add: safe_body_def)

section \<open>Statements\<close>

lemma half_same: "verifications d' = verifications d \<Longrightarrow> half_le h k d d'"
  by (simp add: half_le_def signed_halves_def)

lemma half_filter: "verifications d' = filter P (verifications d) \<Longrightarrow> half_le h False d d'"
  by (auto simp: half_le_def signed_halves_def)

lemma half_map:
  assumes "verifications d' = map (\<lambda>w. if v_node_id w = i then f w else w) (verifications d)"
    and "\<And>w. v_node_id (f w) = v_node_id w \<and> h (f w) = h w"
  shows "half_le h k d d'"
proof -
  have "map (\<lambda>v. (v_node_id v, h v)) (verifications d') = map (\<lambda>v. (v_node_id v, h v)) (verifications d)"
    using assms(2) by (simp add: assms(1))
  then have "(\<lambda>v. (v_node_id v, h v)) ` set (verifications d') = (\<lambda>v. (v_node_id v, h v)) ` set (verifications d)"
    by (metis set_map)
  then show ?thesis by (simp add: half_le_def signed_halves_def)
qed

lemma half_upsert:
  assumes "h v = None" "\<And>w. v_node_id (f w) = v_node_id w \<and> h (f w) = h w"
    and "upsert_verification E v f d = Inr (x, d')"
  shows "half_le h k d d'"
proof (cases "find_verification d (v_node_id v)")
  case None
  then have "verifications d' = verifications d @ [v]"
    using assms(3) by (auto simp: upsert_verification_def split: if_splits)
  then show ?thesis using assms(1) by (auto simp: half_le_def signed_halves_def)
next
  case (Some old)
  then have "verifications d' = map (\<lambda>w. if v_node_id w = v_node_id v then f w else w) (verifications d)"
    using assms(3) by (auto simp: upsert_verification_def split: if_splits)
  then show ?thesis using assms(2) by (rule half_map)
qed

text \<open>A report leaves what the human decided, a verdict what the agent reported.\<close>

lemma half_report [half_rules]: "stmt_moves (half_le human_half k) (upsert_report E i r a t)"
  by (rule stmt_movesI) (auto simp: upsert_report_def Let_def human_half_def elim!: half_upsert [rotated 2])

lemma half_verdict [half_rules]:
  "stmt_moves (half_le agent_half k) (upsert_verdict E i r)" "stmt_moves (half_le agent_half k) (clear_verdict i)"
proof -
  show "stmt_moves (half_le agent_half k) (upsert_verdict E i r)"
    by (rule stmt_movesI) (auto simp: upsert_verdict_def agent_half_def elim!: half_upsert [rotated 2])
  show "stmt_moves (half_le agent_half k) (clear_verdict i)"
    by (rule stmt_movesI)
      (auto simp: clear_verdict_def agent_half_def
        intro!: half_map [of _ i "\<lambda>w. w\<lparr>v_human_verdict := None, v_human_at := None\<rparr>"])
qed

lemma half_statements [half_rules]:
  "stmt_moves (half_le h k) (insert_node ign E n)" "stmt_moves (half_le h k) (update_node E i g)"
  "stmt_moves (half_le h k) (update_node_place E i parent kd pos)"
  "stmt_moves (half_le h k) (insert_dependency E a b)" "stmt_moves (half_le h k) (delete_dependency a b)"
  "stmt_moves (half_le h k) (insert_event E p j kd au su pl)" "stmt_moves (half_le h k) (insert_ledger E s key q en)"
  "stmt_moves (half_le h k) (insert_project E i nm de)" "stmt_moves (half_le h k) (update_project i pg)"
  "stmt_moves (half_le h False) (delete_node i)" "stmt_moves (half_le h False) (delete_verification i)"
proof -
  show "stmt_moves (half_le h False) (delete_node i)"
    by (rule stmt_movesI) (auto simp: delete_node_def drop_nodes_def intro: half_filter half_same split: if_splits)
  show "stmt_moves (half_le h False) (delete_verification i)"
    by (rule stmt_movesI) (auto simp: delete_verification_def intro!: half_filter)
qed (rule stmt_movesI, auto simp: stmt_defs Let_def put_node_def intro!: half_same split: option.splits if_splits)+

section \<open>Operations\<close>

lemma half_log [half_rules]:
  "sm_moves (half_le h k) (append_event E p i kd a s t)" "sm_moves (half_le h k) (record_idempotency E p key q)"
  "sm_moves (half_le h k) (record_idempotency_created E p key q e)" "sm_moves (half_le h k) (delete_event E p a c)"
  "sm_moves (half_le h k) (update_field E req f)"
  unfolding delete_event_def append_event_def record_idempotency_def record_idempotency_created_def
    update_field_def Let_def
  by (intro half_rules)+

lemma half_writes [half_rules]:
  "sm_moves (half_le h k) (create_node_locked E r1)" "sm_moves (half_le h k) (update_node_locked E r2)"
  "sm_moves (half_le h k) (set_status_locked E r3)" "sm_moves (half_le h k) (add_dependency_locked E r4)"
  "sm_moves (half_le h k) (remove_dependency_locked E r5)" "sm_moves (half_le h k) (add_comment_locked E r6)"
  "sm_moves (half_le human_half k) (report_condition_locked E r7)"
  "sm_moves (half_le agent_half k) (set_verdict_locked E r8)"
  unfolding create_node_locked_def create_node_tx_def update_node_locked_def update_node_tx_def
    set_status_locked_def set_status_tx_def add_dependency_locked_def add_dependency_tx_def
    remove_dependency_locked_def remove_dependency_tx_def add_comment_locked_def add_comment_tx_def
    report_condition_locked_def report_condition_tx_def set_verdict_locked_def set_verdict_tx_def
    verdict_stmt_def Let_def
  by (intro half_rules safe_rules stmt_pres keeps_id_simps keeps_place_simps)+

lemma half_undo_inverse [half_rules]: "sm_moves (half_le h False) (undo_inverse E kind payload i)"
  unfolding undo_inverse_def undo_status_set_def undo_dep_added_def undo_dep_removed_def
    undo_node_created_def undo_node_deleted_def restore_node_def Let_def
  by (intro half_rules)

lemma half_deletions [half_rules]:
  "sm_moves (half_le h False) (delete_node_locked E r1)" "sm_moves (half_le h False) (move_node_locked E r2)"
  "sm_moves (half_le h False) (undo_locked E r3)"
  unfolding delete_node_locked_def delete_node_tx_def move_node_locked_def move_node_tx_def drop_children_def
    drop_child_def undo_locked_def undo_tx_def Let_def
  by (intro half_rules safe_rules stmt_pres)+

lemma half_projects [half_rules]:
  "sm_moves (half_le h k) (create_project_locked E r1)" "sm_moves (half_le h k) (update_project_locked E r2)"
  "sm_moves (half_le h k) (archive_project_locked E r3)"
proof -
  have txs: "sm_moves (half_le h k) (create_project_tx E x1)" "sm_moves (half_le h k) (update_project_tx E x2)"
    "sm_moves (half_le h k) (archive_project_tx E x3)" for x1 x2 x3
    unfolding create_project_tx_def update_project_tx_def update_project_field_def archive_project_tx_def
    by (intro half_rules)+
  show "sm_moves (half_le h k) (create_project_locked E r1)" "sm_moves (half_le h k) (update_project_locked E r2)"
    "sm_moves (half_le h k) (archive_project_locked E r3)"
    unfolding create_project_locked_def create_project_fresh_def update_project_locked_def archive_project_locked_def
    by (intro half_rules safe_project_txs txs)+
qed

section \<open>Who signs\<close>

lemma half_run:
  assumes "sm_moves (half_le h k) m" "m c = (r, c')"
  shows "signed_halves h (live c') \<subseteq> signed_halves h (live c)"
    "k \<Longrightarrow> signed_halves h (live c') = signed_halves h (live c)"
  using sm_movesD [OF assms] by (auto simp: half_le_def)

text \<open>
  C16: The two halves of a review are independent: only \<open>SetVerdict\<close> adds, changes or withdraws what
  a human decided, and only \<open>ReportCondition\<close> what an agent reported. No other method ever adds or
  changes a signed half, whatever its request holds and however the call ends; and only the methods
  that remove nodes or change their kind (\<open>DeleteNode\<close>, \<open>MoveNode\<close>, \<open>Undo\<close>) can lose one. In
  particular a report can neither give nor overwrite a verdict.
\<close>

theorem review_halves_independent:
  assumes "dispatch C fts E m req c = (r, c')"
  shows "(m \<noteq> ''SetVerdict'' \<longrightarrow> signed_halves human_half (live c') \<subseteq> signed_halves human_half (live c)) \<and>
    (m \<noteq> ''ReportCondition'' \<longrightarrow> signed_halves agent_half (live c') \<subseteq> signed_halves agent_half (live c)) \<and>
    (m \<notin> {''SetVerdict'', ''DeleteNode'', ''MoveNode'', ''Undo''} \<longrightarrow>
      signed_halves human_half (live c') = signed_halves human_half (live c)) \<and>
    (m \<notin> {''ReportCondition'', ''DeleteNode'', ''MoveNode'', ''Undo''} \<longrightarrow>
      signed_halves agent_half (live c') = signed_halves agent_half (live c))"
proof -
  have "signed_halves human_half (live c') \<subseteq> signed_halves human_half (live c)" if "m \<noteq> ''SetVerdict''"
    by (rule half_run(1) [where k = False and m = "dispatch C fts E m req" and c = c, OF _ assms], unfold dispatch_def answer_def, simp only: that if_False)
      (intro half_rules)
  moreover have "signed_halves agent_half (live c') \<subseteq> signed_halves agent_half (live c)" if "m \<noteq> ''ReportCondition''"
    by (rule half_run(1) [where k = False and m = "dispatch C fts E m req" and c = c, OF _ assms], unfold dispatch_def answer_def, simp only: that if_False)
      (intro half_rules)
  moreover have "signed_halves human_half (live c') = signed_halves human_half (live c)"
    if "m \<noteq> ''SetVerdict''" "m \<noteq> ''DeleteNode''" "m \<noteq> ''MoveNode''" "m \<noteq> ''Undo''"
    by (rule half_run(2) [where m = "dispatch C fts E m req" and c = c, OF _ assms TrueI], unfold dispatch_def answer_def, simp only: that if_False)
      (intro half_rules)
  moreover have "signed_halves agent_half (live c') = signed_halves agent_half (live c)"
    if "m \<noteq> ''ReportCondition''" "m \<noteq> ''DeleteNode''" "m \<noteq> ''MoveNode''" "m \<noteq> ''Undo''"
    by (rule half_run(2) [where m = "dispatch C fts E m req" and c = c, OF _ assms TrueI], unfold dispatch_def answer_def, simp only: that if_False)
      (intro half_rules)
  ultimately show ?thesis by auto
qed

definition decided :: "db conn" where
  "decided = snd (set_verdict_locked demo_env \<lparr>sv_meta = None, sv_node_id = ''a'', sv_verdict = 2\<rparr> (idle demo_db))"

lemma review_halves_independent_witness:
  "signed_halves human_half (live (snd (dispatch demo_wire no_index demo_env ''ReportCondition'' [] decided))) =
     {(''a'', (''REJECTED'', Some 1000))}"
proof -
  let ?out = "dispatch demo_wire no_index demo_env ''ReportCondition'' [] decided"
  have "signed_halves human_half (live decided) = {(''a'', (''REJECTED'', Some 1000))}"
  proof -
    have "map (\<lambda>v. (v_node_id v, human_half v)) (verifications (live decided)) =
      [(''b'', None), (''a'', Some (''REJECTED'', Some 1000))]" by code_simp
    from arg_cong [OF this, of set] show ?thesis by (auto simp: signed_halves_def)
  qed
  moreover have "length (verifications (live (snd ?out))) = 2" by code_simp
  ultimately show ?thesis
    using review_halves_independent [of demo_wire no_index demo_env "''ReportCondition''" "[]" decided
      "fst ?out" "snd ?out"] by simp
qed

section \<open>What a review writes\<close>

lemma map_put_find:
  assumes "\<And>w. v_node_id (f w) = v_node_id w"
  shows "find (\<lambda>v. v_node_id v = j) (map (\<lambda>w. if v_node_id w = i then f w else w) vs) =
    map_option (\<lambda>w. if j = i then f w else w) (find (\<lambda>v. v_node_id v = j) vs)"
  by (induction vs) (auto simp: assms)

lemma upsert_find:
  assumes run: "upsert_verification E v f d = Inr (u, d1)" and key: "\<And>w. v_node_id (f w) = v_node_id w"
  shows "find_verification d1 j = (if j = v_node_id v
      then Some (case find_verification d j of None \<Rightarrow> v | Some w \<Rightarrow> f w) else find_verification d j)"
    "nodes d1 = nodes d" "dependencies d1 = dependencies d" "projects d1 = projects d" "events d1 = events d"
    "last_seq d1 = last_seq d"
proof -
  show "find_verification d1 j = (if j = v_node_id v
      then Some (case find_verification d j of None \<Rightarrow> v | Some w \<Rightarrow> f w) else find_verification d j)"
    using run map_put_find [of f j "v_node_id v" "verifications d", OF key]
    by (auto simp: upsert_verification_def find_verification_def find_append option.map_ident split: option.splits if_splits)
qed (use run in \<open>auto simp: upsert_verification_def split: option.splits if_splits\<close>)

text \<open>The end of a review: everything but one row is as before, and one event is logged.\<close>

lemma review_logged:
  assumes safe: "safe_body (run_stmt u)" and inv: "db_inv d"
    and run: "sm_bind (in_tx E (logged_write E (run_stmt u) p i k a s t key)) (\<lambda>event.
      read_db (finish_mutation p [event] [i])) (idle d) = (Inr m, c')"
    and node: "find_node d i = Some n"
    and stmt: "\<And>d1. u d = Inr ((), d1) \<Longrightarrow> (\<forall>j. find_verification d1 j =
        (if j = i then new else find_verification d j)) \<and> nodes d1 = nodes d \<and>
      dependencies d1 = dependencies d \<and> projects d1 = projects d \<and> events d1 = events d \<and> last_seq d1 = last_seq d"
  shows "\<exists>d' e. c' = idle d' \<and> db_inv d' \<and> (\<forall>j. find_verification d' j = (if j = i then new else find_verification d j)) \<and>
    nodes d' = nodes d \<and> dependencies d' = dependencies d \<and> projects d' = projects d \<and>
    events d' = events d @ [e] \<and> e_kind e = k \<and> e_project_id e = p \<and> e_author e = a \<and> e_payload e = t \<and>
    m = mutation_of p [event_msg e] [i] d' \<and> mu_seq m = e_seq e \<and> node_msg d' n \<in> set (mu_changed_nodes m)"
proof (rule logged_write_outcome [OF safe inv run])
  fix d1 d'
  assume step: "run_stmt u (within d d) = (Inr (), within d d1)"
    and d': "d' = log_tail E p i k a s t key d1" and inv': "db_inv d'" and c': "c' = idle d'"
    and m: "m = mutation_of p [event_msg (event_entry E p i k a s t d1)] [i] d'"
  obtain d2 where "u d = Inr ((), d2)" "within d d1 = (within d d)\<lparr>live := d2\<rparr>"
    using step by (auto simp: run_stmt_eq_Inr)
  moreover from this(2) have "d2 = d1" by (metis within_sel(1,3))
  ultimately have d1: "(\<forall>j. find_verification d1 j = (if j = i then new else find_verification d j)) \<and>
      nodes d1 = nodes d \<and> dependencies d1 = dependencies d \<and> projects d1 = projects d \<and> events d1 = events d"
    using stmt by blast
  have same: "same_graph d1 d'" by (simp add: d')
  then have "find_verification d' = find_verification d1"
    by (simp add: same_graph_def find_verification_def fun_eq_iff)
  moreover have "n \<in> set (nodes d')" "n_id n = i"
    using find_node_SomeD [OF node] d1 same by (auto simp: same_graph_def)
  then have "node_msg d' n \<in> set (mu_changed_nodes m)" using reported [OF inv', of n "[i]"] by (simp add: m)
  ultimately show ?thesis
    using d1 same by (intro exI [of _ d'] exI [of _ "event_entry E p i k a s t d1"])
      (simp add: c' inv' [unfolded d'] m last_event_seq_def same_graph_def d' event_entry_def)
qed

text \<open>A row without a report and a verdict, and the rows with one half rewritten.\<close>

definition blank_review :: "string \<Rightarrow> verification_row" where
  "blank_review i = \<lparr>v_node_id = i, v_agent_result = None, v_agent_name = None, v_agent_at = None,
     v_agent_node_rev = None, v_agent_detail = '''', v_human_verdict = None, v_human_at = None\<rparr>"

definition with_report :: "string \<Rightarrow> string \<Rightarrow> int \<Rightarrow> int \<Rightarrow> string \<Rightarrow> verification_row \<Rightarrow> verification_row" where
  "with_report outcome author t touched detail w = w\<lparr>v_agent_result := Some outcome, v_agent_name := Some author,
     v_agent_at := Some t, v_agent_node_rev := Some touched, v_agent_detail := detail\<rparr>"

definition with_verdict :: "int \<Rightarrow> int \<Rightarrow> verification_row \<Rightarrow> verification_row" where
  "with_verdict code t w =
     (if code = 1 then w\<lparr>v_human_verdict := Some ''ACCEPTED'', v_human_at := Some t\<rparr>
      else if code = 2 then w\<lparr>v_human_verdict := Some ''REJECTED'', v_human_at := Some t\<rparr>
      else w\<lparr>v_human_verdict := None, v_human_at := None\<rparr>)"

definition review_of :: "db \<Rightarrow> string \<Rightarrow> verification_row" where
  "review_of d i = (case find_verification d i of None \<Rightarrow> blank_review i | Some w \<Rightarrow> w)"

lemma report_stmt:
  assumes "upsert_report E i r a t d = Inr (u, d1)" "find_node d i = Some n"
  shows "(\<forall>j. find_verification d1 j = (if j = i
      then Some (with_report r a (clock E) (n_updated_at n) t (review_of d i)) else find_verification d j)) \<and>
    nodes d1 = nodes d \<and> dependencies d1 = dependencies d \<and> projects d1 = projects d \<and> events d1 = events d \<and>
    last_seq d1 = last_seq d"
proof -
  note u = upsert_find [OF assms(1) [unfolded upsert_report_def Let_def]]
  show ?thesis using u assms(2)
    by (auto simp: with_report_def review_of_def blank_review_def split: option.split)
qed

lemma verdict_stmt_row:
  assumes "upsert_verdict E i v d = Inr (u, d1)"
  shows "(\<forall>j. find_verification d1 j = (if j = i
      then Some ((review_of d i)\<lparr>v_human_verdict := Some v, v_human_at := Some (clock E)\<rparr>) else find_verification d j)) \<and>
    nodes d1 = nodes d \<and> dependencies d1 = dependencies d \<and> projects d1 = projects d \<and> events d1 = events d \<and>
    last_seq d1 = last_seq d"
proof -
  note u = upsert_find [OF assms [unfolded upsert_verdict_def]]
  show ?thesis using u by (auto simp: review_of_def blank_review_def split: option.split)
qed

lemma clear_find:
  assumes "clear_verdict i d = Inr (u, d1)"
  shows "(\<forall>j. find_verification d1 j = (if j = i \<and> find_verification d i \<noteq> None
      then Some ((review_of d i)\<lparr>v_human_verdict := None, v_human_at := None\<rparr>) else find_verification d j)) \<and>
    nodes d1 = nodes d \<and> dependencies d1 = dependencies d \<and> projects d1 = projects d \<and> events d1 = events d \<and>
    last_seq d1 = last_seq d"
proof -
  let ?f = "\<lambda>w. w\<lparr>v_human_verdict := None, v_human_at := None\<rparr>"
  have d1: "d1 = d\<lparr>verifications := map (\<lambda>w. if v_node_id w = i then ?f w else w) (verifications d)\<rparr>"
    using assms by (simp add: clear_verdict_def)
  have "find_verification d1 j = map_option (\<lambda>w. if j = i then ?f w else w) (find_verification d j)" for j
    using map_put_find [of ?f j i "verifications d"] by (simp add: d1 find_verification_def)
  then have "find_verification d1 i = map_option ?f (find_verification d i)"
    "j \<noteq> i \<Longrightarrow> find_verification d1 j = find_verification d j" for j by (simp_all add: option.map_ident)
  then have "find_verification d1 j = (if j = i \<and> find_verification d i \<noteq> None
      then Some (?f (review_of d i)) else find_verification d j)" for j
    by (cases "j = i"; cases "find_verification d i") (simp_all add: review_of_def)
  then show ?thesis by (simp add: d1)
qed

lemma report_condition_run:
  assumes "db_inv d" "report_condition_locked E req (idle d) = (Inr m, c')"
    and "find_node d (rc_node_id req) = Some n" "ledger_hit d (n_project_id n) (idem_key (rc_meta req)) = None"
  shows "\<exists>outcome d' e. c' = idle d' \<and> db_inv d' \<and> agent_result_str (rc_result req) = Inr outcome \<and>
    (\<forall>j. find_verification d' j = (if j = rc_node_id req
      then Some (with_report outcome (author_of (rc_meta req)) (clock E) (n_updated_at n) (rc_detail req)
        (review_of d (rc_node_id req)))
      else find_verification d j)) \<and>
    nodes d' = nodes d \<and> dependencies d' = dependencies d \<and> projects d' = projects d \<and>
    events d' = events d @ [e] \<and> e_kind e = ''AGENT_REPORTED'' \<and> e_project_id e = n_project_id n \<and> e_author e = author_of (rc_meta req) \<and>
    e_payload e = json_text E (report_payload outcome (rc_detail req)) \<and> m = mutation_of (n_project_id n) [event_msg e] [rc_node_id req] d' \<and> mu_seq m = e_seq e \<and>
    node_msg d' n \<in> set (mu_changed_nodes m)"
  using assms(1,2) unfolding report_condition_locked_def Let_def
proof (cases rule: node_write_outcome)
  case (retry n0 seq)
  then show ?thesis using assms(3,4) by simp
next
  case (fresh n0)
  obtain outcome where outcome: "agent_result_str (rc_result req) = Inr outcome"
    using fresh(3) by (auto simp: sm_bind_read split: sum.splits)
  let ?i = "rc_node_id req" and ?a = "author_of (rc_meta req)"
  let ?u = "upsert_report E ?i outcome ?a (rc_detail req)"
  have run: "sm_bind (in_tx E (logged_write E (run_stmt ?u) (n_project_id n) ?i ''AGENT_REPORTED'' ?a
      (''agent reported '' @ outcome @ '' on '' @ ?i) (json_text E (report_payload outcome (rc_detail req)))
      (idem_key (rc_meta req)))) (\<lambda>event. read_db (finish_mutation (n_project_id n) [event] [?i])) (idle d) = (Inr m, c')"
    using fresh(1,3) assms(3) outcome
    by (simp add: sm_bind_read report_condition_tx_def logged_write_def Let_def)
  have "safe_body (run_stmt ?u)" by (intro safe_rules stmt_pres)
  from review_logged [OF this assms(1) run assms(3)
      report_stmt [of E ?i outcome ?a "rc_detail req" d "()", OF _ assms(3)]]
  show ?thesis using outcome by blast
qed

text \<open>
  C27: A \<open>ReportCondition\<close> that is not a retry and succeeds puts the agent's result, its name, the
  detail, the time and the revision of the node it looked at on the node's review, whatever was
  reported before; the human half of the review, the reviews of all other nodes, every node, edge
  and project stay as they are. Its event carries the result and the detail, and the answer shows
  the node. A result code other than pass and fail is refused.
\<close>

theorem report_condition_effect:
  assumes "db_inv d" "report_condition_locked E req (idle d) = (Inr m, c')"
    and "find_node d (rc_node_id req) = Some n" "ledger_hit d (n_project_id n) (idem_key (rc_meta req)) = None"
  shows "\<exists>outcome d' e. c' = idle d' \<and> agent_result_str (rc_result req) = Inr outcome \<and>
    (\<forall>j. find_verification d' j = (if j = rc_node_id req
      then Some (with_report outcome (author_of (rc_meta req)) (clock E) (n_updated_at n) (rc_detail req)
        (review_of d (rc_node_id req)))
      else find_verification d j)) \<and>
    nodes d' = nodes d \<and> dependencies d' = dependencies d \<and> projects d' = projects d \<and>
    events d' = events d @ [e] \<and> e_kind e = ''AGENT_REPORTED'' \<and> e_author e = author_of (rc_meta req) \<and>
    e_payload e = json_text E (report_payload outcome (rc_detail req)) \<and> mu_seq m = e_seq e \<and>
    node_msg d' n \<in> set (mu_changed_nodes m)"
  using report_condition_run [OF assms] by blast

lemma report_condition_effect_witness:
  "\<exists>d'. snd (report_condition_locked demo_env \<lparr>rc_meta = None, rc_node_id = ''b'', rc_result = 2, rc_detail = ''red''\<rparr>
      (idle demo_db)) = idle d' \<and> find_verification d' ''b'' = Some \<lparr>v_node_id = ''b'', v_agent_result = Some ''FAIL'',
      v_agent_name = Some '''', v_agent_at = Some 1000, v_agent_node_rev = Some 100, v_agent_detail = ''red'',
      v_human_verdict = None, v_human_at = None\<rparr>"
proof -
  let ?req = "\<lparr>rc_meta = None, rc_node_id = ''b'', rc_result = 2, rc_detail = ''red''\<rparr>"
  let ?out = "report_condition_locked demo_env ?req (idle demo_db)"
  let ?n = "demo_node ''b'' (Some ''w'') ''TASK'' None 200"
  have "\<not> isl (fst ?out)" by code_simp
  then have run: "?out = (Inr (projr (fst ?out)), snd ?out)" by (simp add: prod_eq_iff)
  have n: "find_node demo_db (rc_node_id ?req) = Some ?n" by code_simp
  have miss: "ledger_hit demo_db (n_project_id ?n) (idem_key (rc_meta ?req)) = None" by code_simp
  obtain outcome d' where "snd ?out = idle d'" "agent_result_str 2 = Inr outcome" and j: "\<forall>j. find_verification d' j =
      (if j = rc_node_id ?req then Some (with_report outcome (author_of (rc_meta ?req)) (clock demo_env) (n_updated_at ?n)
        (rc_detail ?req) (review_of demo_db (rc_node_id ?req))) else find_verification demo_db j)"
    using report_condition_effect [OF demo_inv run n miss] by auto
  moreover have "review_of demo_db ''b'' = \<lparr>v_node_id = ''b'', v_agent_result = Some ''PASS'', v_agent_name = Some ''ci'',
      v_agent_at = Some 100, v_agent_node_rev = Some 100, v_agent_detail = ''ok'', v_human_verdict = None, v_human_at = None\<rparr>"
    by code_simp
  moreover have "author_of None = ''''" by code_simp
  ultimately show ?thesis
    using spec [OF j, of "''b''"] by (auto simp: with_report_def agent_result_str_def demo_node_def)
qed

lemma set_verdict_run:
  assumes "db_inv d" "set_verdict_locked E req (idle d) = (Inr m, c')"
    and "find_node d (sv_node_id req) = Some n" "ledger_hit d (n_project_id n) (idem_key (sv_meta req)) = None"
  shows "\<exists>d' e. c' = idle d' \<and> db_inv d' \<and>
    (\<forall>j. find_verification d' j = (if j = sv_node_id req
      then (if sv_verdict req \<in> {1, 2} \<or> find_verification d j \<noteq> None
        then Some (with_verdict (sv_verdict req) (clock E) (review_of d j)) else None)
      else find_verification d j)) \<and>
    nodes d' = nodes d \<and> dependencies d' = dependencies d \<and> projects d' = projects d \<and>
    events d' = events d @ [e] \<and> e_kind e = ''VERDICT_SET'' \<and> e_project_id e = n_project_id n \<and> e_author e = author_of (sv_meta req) \<and>
    e_payload e = ''{}'' \<and> m = mutation_of (n_project_id n) [event_msg e] [sv_node_id req] d' \<and> mu_seq m = e_seq e \<and> node_msg d' n \<in> set (mu_changed_nodes m)"
  using assms(1,2) unfolding set_verdict_locked_def Let_def
proof (cases rule: node_write_outcome)
  case (retry n0 seq)
  then show ?thesis using assms(3,4) by simp
next
  case (fresh n0)
  let ?i = "sv_node_id req" and ?a = "author_of (sv_meta req)" and ?v = "sv_verdict req"
  let ?u = "if ?v = 1 then upsert_verdict E ?i ''ACCEPTED''
    else if ?v = 2 then upsert_verdict E ?i ''REJECTED'' else clear_verdict ?i"
  let ?new = "if ?v \<in> {1, 2} \<or> find_verification d ?i \<noteq> None
    then Some (with_verdict ?v (clock E) (review_of d ?i)) else None"
  have stmt: "verdict_stmt E req = run_stmt ?u" by (simp add: verdict_stmt_def)
  have run: "sm_bind (in_tx E (logged_write E (run_stmt ?u) (n_project_id n) ?i ''VERDICT_SET'' ?a
      (''verdict set on '' @ ?i) ''{}'' (idem_key (sv_meta req))))
      (\<lambda>event. read_db (finish_mutation (n_project_id n) [event] [?i])) (idle d) = (Inr m, c')"
    using fresh(1,3) assms(3) by (simp add: set_verdict_tx_def logged_write_def stmt)
  have "safe_body (verdict_stmt E req)" unfolding verdict_stmt_def by (intro safe_rules stmt_pres)
  then have safe: "safe_body (run_stmt ?u)" unfolding stmt .
  have "(\<forall>j. find_verification d1 j = (if j = ?i then ?new else find_verification d j)) \<and> nodes d1 = nodes d \<and>
      dependencies d1 = dependencies d \<and> projects d1 = projects d \<and> events d1 = events d \<and> last_seq d1 = last_seq d"
    if "?u d = Inr ((), d1)" for d1
    using that verdict_stmt_row [of E ?i "''ACCEPTED''" d "()" d1] verdict_stmt_row [of E ?i "''REJECTED''" d "()" d1]
      clear_find [of ?i d "()" d1]
    by (simp add: with_verdict_def split: if_splits)
  from review_logged [OF safe assms(1) run assms(3) this]
  show ?thesis by (simp cong: if_cong)
qed

text \<open>
  C28: A \<open>SetVerdict\<close> that is not a retry and succeeds writes the human half of the node's review:
  accepted and rejected with the time, any other code withdraws the verdict and its time. What the
  agent reported stays on the row, withdrawing a verdict on a node without a review adds no row, and
  the reviews of all other nodes, every node, edge and project stay as they are.
\<close>

theorem set_verdict_effect:
  assumes "db_inv d" "set_verdict_locked E req (idle d) = (Inr m, c')"
    and "find_node d (sv_node_id req) = Some n" "ledger_hit d (n_project_id n) (idem_key (sv_meta req)) = None"
  shows "\<exists>d' e. c' = idle d' \<and>
    (\<forall>j. find_verification d' j = (if j = sv_node_id req
      then (if sv_verdict req \<in> {1, 2} \<or> find_verification d j \<noteq> None
        then Some (with_verdict (sv_verdict req) (clock E) (review_of d j)) else None)
      else find_verification d j)) \<and>
    nodes d' = nodes d \<and> dependencies d' = dependencies d \<and> projects d' = projects d \<and>
    events d' = events d @ [e] \<and> e_kind e = ''VERDICT_SET'' \<and> e_author e = author_of (sv_meta req) \<and>
    e_payload e = ''{}'' \<and> mu_seq m = e_seq e \<and> node_msg d' n \<in> set (mu_changed_nodes m)"
  using set_verdict_run [OF assms] by blast

lemma set_verdict_effect_witness:
  "\<exists>d'. snd (set_verdict_locked demo_env \<lparr>sv_meta = None, sv_node_id = ''b'', sv_verdict = 2\<rparr>
      (idle demo_db)) = idle d' \<and> find_verification d' ''b'' = Some \<lparr>v_node_id = ''b'', v_agent_result = Some ''PASS'',
      v_agent_name = Some ''ci'', v_agent_at = Some 100, v_agent_node_rev = Some 100, v_agent_detail = ''ok'',
      v_human_verdict = Some ''REJECTED'', v_human_at = Some 1000\<rparr>"
proof -
  let ?req = "\<lparr>sv_meta = None, sv_node_id = ''b'', sv_verdict = 2\<rparr>"
  let ?out = "set_verdict_locked demo_env ?req (idle demo_db)"
  let ?n = "demo_node ''b'' (Some ''w'') ''TASK'' None 200"
  have "\<not> isl (fst ?out)" by code_simp
  then have run: "?out = (Inr (projr (fst ?out)), snd ?out)" by (simp add: prod_eq_iff)
  have n: "find_node demo_db (sv_node_id ?req) = Some ?n" by code_simp
  have miss: "ledger_hit demo_db (n_project_id ?n) (idem_key (sv_meta ?req)) = None" by code_simp
  obtain d' where "snd ?out = idle d'" and j: "\<forall>j. find_verification d' j = (if j = sv_node_id ?req
      then (if sv_verdict ?req \<in> {1, 2} \<or> find_verification demo_db j \<noteq> None
        then Some (with_verdict (sv_verdict ?req) (clock demo_env) (review_of demo_db j)) else None)
      else find_verification demo_db j)"
    using set_verdict_effect [OF demo_inv run n miss] by auto
  moreover have "review_of demo_db ''b'' = \<lparr>v_node_id = ''b'', v_agent_result = Some ''PASS'', v_agent_name = Some ''ci'',
      v_agent_at = Some 100, v_agent_node_rev = Some 100, v_agent_detail = ''ok'', v_human_verdict = None, v_human_at = None\<rparr>"
    by code_simp
  ultimately show ?thesis using spec [OF j, of "''b''"] by (auto simp: with_verdict_def)
qed

end
