(* ===== verification/Retry_Props.thy ===== *)
theory Retry_Props
  imports Store_Settles Example
begin

text \<open>
  Retries. Every write that answers with a mutation looks its idempotency key up before it acts and
  records it when it is done; so a request is run once, however often it is sent.
\<close>

section \<open>Programs that record a key\<close>

definition same_ledger :: "db \<Rightarrow> db \<Rightarrow> bool" where
  "same_ledger d d' \<longleftrightarrow> idempotency d' = idempotency d"

interpretation keyless: session_order same_ledger
  by unfold_locales (simp_all add: same_ledger_def)

named_theorems keyless_rules \<open>programs that leave the ledger alone\<close>

lemmas keyless_programs [keyless_rules] = keyless.moves_return keyless.moves_throw keyless.moves_read
  keyless.moves_lift keyless.moves_run keyless.moves_bind keyless.moves_each keyless.moves_if
  keyless.moves_option keyless.moves_prod

lemma keyless_quiet [keyless_rules]: "quiet u \<Longrightarrow> stmt_moves same_ledger u"
  by (auto simp: quiet_def same_ledger_def intro!: stmt_movesI)

lemma keyless_append [keyless_rules]:
  "sm_moves same_ledger (append_event E p i k a s t)" "sm_moves same_ledger (delete_event E p a j)"
proof -
  have ins: "stmt_moves same_ledger (insert_event E p n k a s t)" for n k a s t
    by (rule stmt_movesI) (auto dest: insert_event_cases(2) simp: same_ledger_def)
  show "sm_moves same_ledger (append_event E p i k a s t)" "sm_moves same_ledger (delete_event E p a j)"
    unfolding delete_event_def append_event_def by (intro keyless_rules ins)+
qed

lemma keyless_bodies [keyless_rules]:
  "sm_moves same_ledger (update_field E req f)" "sm_moves same_ledger (verdict_stmt E r2)"
  "sm_moves same_ledger (drop_children E r3 p k)" "sm_moves same_ledger (undo_inverse E kd t i)"
  unfolding update_field_def verdict_stmt_def drop_children_def drop_child_def undo_inverse_def
    undo_status_set_def undo_dep_added_def undo_dep_removed_def undo_node_created_def
    undo_node_deleted_def restore_node_def Let_def
  by (intro keyless_rules stmt_pres)+

text \<open>A program that, where the key is new, files its answer's number under it.\<close>

definition records :: "string \<Rightarrow> string option \<Rightarrow> ('a \<Rightarrow> int) \<Rightarrow> (db, 'a) sm \<Rightarrow> bool" where
  "records p key num f \<longleftrightarrow> (\<forall>c x c'. f c = (Inr x, c') \<longrightarrow> ledger_hit (live c) p key = None \<longrightarrow>
     key \<noteq> None \<longrightarrow> ledger_hit (live c') p key = Some (num x))"

named_theorems records_rules \<open>programs that record a key\<close>

lemma records_after: 
  assumes "sm_moves same_ledger f" "\<And>x. records p key num (g x)"
  shows "records p key num (sm_bind f g)"
  unfolding records_def
proof (intro allI impI)
  fix c y c'
  assume run: "sm_bind f g c = (Inr y, c')" and new: "ledger_hit (live c) p key = None" "key \<noteq> None"
  from run obtain x c1 where f: "f c = (Inr x, c1)" and g: "g x c1 = (Inr y, c')" by (rule sm_bind_InrE)
  have "idempotency (live c1) = idempotency (live c)"
    using sm_movesD [OF assms(1) f] by (simp add: same_ledger_def)
  then have "ledger_hit (live c1) p key = None" using new(1) ledger_hit_cong by metis
  then show "ledger_hit (live c') p key = Some (num y)"
    using assms(2) [of x] g new(2) unfolding records_def by blast
qed

lemma records_tail: "num x = q \<Longrightarrow> records p key num (sm_bind (record_idempotency E p key q) (\<lambda>_. sm_return x))"
  using find_ledger_put [of _ p "the key" E q None]
  by (auto simp: records_def sm_bind_def record_idempotency_eq sm_return_def ledger_hit_def split: option.splits)

lemma records_prod:
  "(\<And>x y. z = (x, y) \<Longrightarrow> records p key num (f x y)) \<Longrightarrow> records p key num (case z of (x, y) \<Rightarrow> f x y)"
  by (cases z) simp

lemma records_throw: "records p key num (sm_throw e)"
  by (simp add: records_def sm_throw_def)

lemma records_tx:
  assumes f: "records p key num f" and g: "\<And>x c m c'. g x c = (Inr m, c') \<Longrightarrow> live c' = live c \<and> num' m = num x"
  shows "records p key num' (sm_bind (in_tx E f) g)"
  unfolding records_def
proof (intro allI impI)
  fix c m c'
  assume run: "sm_bind (in_tx E f) g c = (Inr m, c')" and new: "ledger_hit (live c) p key = None" "key \<noteq> None"
  from run obtain x c3 where tx: "in_tx E f c = (Inr x, c3)" and ans: "g x c3 = (Inr m, c')" by (rule sm_bind_InrE)
  obtain c1 c2 where "live c1 = live c" "f c1 = (Inr x, c2)" "live c3 = live c2" using in_tx_events [OF tx] by blast
  then show "ledger_hit (live c') p key = Some (num' m)"
    using f new g [OF ans] unfolding records_def by metis
qed

lemma finish_seq: "read_db (finish_mutation p evs is) c = (Inr m, c') \<Longrightarrow> live c' = live c \<and> mu_seq m = last_event_seq evs"
  by (auto simp: read_db_def finish_mutation_def res_bind_eq_Inr)

section \<open>The transactions of the keyed writes\<close>

lemma last_event_single [simp]: "last_event_seq [e] = ev_seq e"
  by (simp add: last_event_seq_def)

lemmas records_steps = records_after records_tail records_prod keyless_rules

lemma records_graph [records_rules]:
  "records p (idem_key (ss_meta r1)) ev_seq (set_status_tx E r1 p prior new)"
  "records p (idem_key (ad_meta r2)) ev_seq (add_dependency_tx E r2 p)"
  "records p (idem_key (rd_meta r3)) ev_seq (remove_dependency_tx E r3 p)"
  unfolding set_status_tx_def add_dependency_tx_def remove_dependency_tx_def
  by (intro records_steps stmt_pres; simp)+

lemma records_review [records_rules]:
  "records p (idem_key (rc_meta r1)) ev_seq (report_condition_tx E r1 p v)"
  "records p (idem_key (sv_meta r2)) ev_seq (set_verdict_tx E r2 p)"
  "records p (idem_key (ac_meta r3)) ev_seq (add_comment_tx E r3 p)"
  unfolding report_condition_tx_def set_verdict_tx_def add_comment_tx_def Let_def
  by (intro records_steps stmt_pres; simp)+

lemma records_nodes [records_rules]:
  "records p (idem_key (un_meta r1)) ev_seq (update_node_tx E r1 p)"
  "records p (idem_key (dn_meta r2)) last_event_seq (delete_node_tx E r2 p prior desc)"
  "records p (idem_key (mv_meta r3)) (\<lambda>(evs, is). last_event_seq evs) (move_node_tx E r3 p k q)"
  "records (ev_project_id ev) (idem_key (ud_meta r4)) (\<lambda>(e, is). ev_seq e) (undo_tx E r4 ev)"
  unfolding update_node_tx_def delete_node_tx_def move_node_tx_def undo_tx_def Let_def
  by (intro records_steps stmt_pres; simp)+

section \<open>The shape of a keyed write\<close>

definition keyed_run ::
  "(db \<Rightarrow> 'x res) \<Rightarrow> ('x \<Rightarrow> string) \<Rightarrow> string option \<Rightarrow> ('x \<Rightarrow> (db, mutation) sm) \<Rightarrow> (db, mutation) sm" where
  "keyed_run target scope key act = sm_bind (read_db target) (\<lambda>x.
     sm_bind (read_db (check_idempotency (scope x) key)) (\<lambda>hit. case hit of
       Some seq \<Rightarrow> sm_return (empty_mutation seq) | None \<Rightarrow> act x))"

lemma keyed_run_eq:
  "target (live c) = Inr x \<Longrightarrow> keyed_run target scope key act c = (case ledger_hit (live c) (scope x) key of
     Some seq \<Rightarrow> (Inr (empty_mutation seq), c) | None \<Rightarrow> act x c)"
  by (simp add: keyed_run_def sm_bind_read check_ledger_hit sm_return_def split: option.split)

lemma keyed_run_once:
  assumes act: "\<And>x. records (scope x) key mu_seq (act x)"
    and run: "keyed_run target scope key act c = (Inr m, c1)" and key: "key \<noteq> None"
    and later: "calls c1 c2" "target (live c) = Inr x" "target (live c2) = Inr x2" "scope x2 = scope x"
  shows "keyed_run target scope key act' c2 = (Inr (empty_mutation (mu_seq m)), c2)"
proof -
  have "ledger_hit (live c1) (scope x) key = Some (mu_seq m)"
  proof (cases "ledger_hit (live c) (scope x) key")
    case None
    then show ?thesis using run act [of x] key by (auto simp: keyed_run_eq [of target c x, OF later(2)] records_def)
  next
    case (Some q)
    then show ?thesis using run by (auto simp: keyed_run_eq [of target c x, OF later(2)] empty_mutation_def)
  qed
  from ledger_hit_le [OF calls_ledger [OF later(1)] this]
  show ?thesis by (simp add: keyed_run_eq [of target c2 x2, OF later(3)] later(4))
qed

section \<open>The keyed writes\<close>

datatype keyed_write = KUpdate update_node_request | KDelete delete_node_request
  | KStatus set_status_request | KMove move_node_request | KReport report_condition_request
  | KVerdict set_verdict_request | KComment add_comment_request
  | KBlock add_dependency_request | KUnblock remove_dependency_request | KUndo undo_request

fun run_keyed :: "env \<Rightarrow> keyed_write \<Rightarrow> (db, mutation) sm" where
  "run_keyed E (KUpdate r) = update_node_locked E r"
| "run_keyed E (KDelete r) = delete_node_locked E r"
| "run_keyed E (KStatus r) = set_status_locked E r"
| "run_keyed E (KMove r) = move_node_locked E r"
| "run_keyed E (KReport r) = report_condition_locked E r"
| "run_keyed E (KVerdict r) = set_verdict_locked E r"
| "run_keyed E (KComment r) = add_comment_locked E r"
| "run_keyed E (KBlock r) = add_dependency_locked E r"
| "run_keyed E (KUnblock r) = remove_dependency_locked E r"
| "run_keyed E (KUndo r) = undo_locked E r"

fun key_of :: "keyed_write \<Rightarrow> string option" where
  "key_of (KUpdate r) = idem_key (un_meta r)"
| "key_of (KDelete r) = idem_key (dn_meta r)"
| "key_of (KStatus r) = idem_key (ss_meta r)"
| "key_of (KMove r) = idem_key (mv_meta r)"
| "key_of (KReport r) = idem_key (rc_meta r)"
| "key_of (KVerdict r) = idem_key (sv_meta r)"
| "key_of (KComment r) = idem_key (ac_meta r)"
| "key_of (KBlock r) = idem_key (ad_meta r)"
| "key_of (KUnblock r) = idem_key (rd_meta r)"
| "key_of (KUndo r) = idem_key (ud_meta r)"

text \<open>The project whose ledger is asked; none when the node, or the event, is not there.\<close>

definition node_scope :: "string \<Rightarrow> db \<Rightarrow> string res" where
  "node_scope i d = map_sum id nd_project_id (require_node i d)"

definition event_scope :: "undo_request \<Rightarrow> db \<Rightarrow> string res" where
  "event_scope r d = map_sum id ev_project_id
     (res_bind (undo_target r d) (ok_or (from_db_message ''no event to undo'')))"

fun scope_of :: "keyed_write \<Rightarrow> db \<Rightarrow> string res" where
  "scope_of (KUpdate r) = node_scope (un_node_id r)"
| "scope_of (KDelete r) = node_scope (dn_node_id r)"
| "scope_of (KStatus r) = node_scope (ss_node_id r)"
| "scope_of (KMove r) = node_scope (mv_node_id r)"
| "scope_of (KReport r) = node_scope (rc_node_id r)"
| "scope_of (KVerdict r) = node_scope (sv_node_id r)"
| "scope_of (KComment r) = node_scope (ac_node_id r)"
| "scope_of (KBlock r) = project_of (ad_blocker_id r)"
| "scope_of (KUnblock r) = project_of (rd_blocker_id r)"
| "scope_of (KUndo r) = event_scope r"

text \<open>A write that looks its target and its key up first, and files the key when it acts.\<close>

definition keyed ::
  "(db \<Rightarrow> 'x res) \<Rightarrow> ('x \<Rightarrow> string) \<Rightarrow> string option \<Rightarrow> (db, mutation) sm \<Rightarrow> bool" where
  "keyed target scope key f \<longleftrightarrow>
     (\<exists>act. (\<forall>x. records (scope x) key mu_seq (act x)) \<and> f = keyed_run target scope key act)"

lemma keyedI: "(\<And>x. records (scope x) key mu_seq (act x)) \<Longrightarrow> keyed target scope key (keyed_run target scope key act)"
  unfolding keyed_def by blast

lemma keyed_once:
  assumes "keyed target scope key f" "keyed target scope key f'" "f c = (Inr m, c1)" "key \<noteq> None" "calls c1 c2"
    and "map_sum id scope (target (live c)) = Inr p" "map_sum id scope (target (live c2)) = Inr p"
  shows "f' c2 = (Inr (empty_mutation (mu_seq m)), c2)"
proof -
  obtain act act' where acts: "\<And>x. records (scope x) key mu_seq (act x)" "f = keyed_run target scope key act"
      "f' = keyed_run target scope key act'"
    using assms(1,2) unfolding keyed_def by auto
  obtain x x2 where "target (live c) = Inr x" "target (live c2) = Inr x2" "scope x2 = scope x"
    using assms(6,7) by (cases "target (live c)"; cases "target (live c2)") auto
  then show ?thesis
    using keyed_run_once [of scope key act target c m c1 c2 x x2 act'] acts(1) assms(3-5) unfolding acts(2,3) by blast
qed

lemma records_answer:
  "(\<And>x. last_event_seq (es x) = num x) \<Longrightarrow> records p key num f \<Longrightarrow> records p key mu_seq
    (sm_bind (in_tx E f) (\<lambda>x. read_db (finish_mutation q (es x) (is x))))"
  by (rule records_tx) (auto dest: finish_seq)

lemma records_if: "records p key num f \<Longrightarrow> records p key num g \<Longrightarrow> records p key num (if b then f else g)"
  by simp

lemmas keyed_steps = keyedI [unfolded keyed_run_def] records_rules records_after records_if records_throw keyless_rules

lemma keyed_graph:
  "keyed (require_node (ss_node_id r1)) nd_project_id (idem_key (ss_meta r1)) (set_status_locked E r1)"
  "keyed (project_of (ad_blocker_id r2)) (\<lambda>p. p) (idem_key (ad_meta r2)) (add_dependency_locked E r2)"
  "keyed (project_of (rd_blocker_id r3)) (\<lambda>p. p) (idem_key (rd_meta r3)) (remove_dependency_locked E r3)"
proof -
  note scope = keyedI [where scope = "\<lambda>p :: string. p", unfolded keyed_run_def]
  show "keyed (require_node (ss_node_id r1)) nd_project_id (idem_key (ss_meta r1)) (set_status_locked E r1)"
    unfolding set_status_locked_def Let_def
    by (intro keyed_steps records_answer [where num = ev_seq]) simp
  show "keyed (project_of (ad_blocker_id r2)) (\<lambda>p. p) (idem_key (ad_meta r2)) (add_dependency_locked E r2)"
    "keyed (project_of (rd_blocker_id r3)) (\<lambda>p. p) (idem_key (rd_meta r3)) (remove_dependency_locked E r3)"
    unfolding add_dependency_locked_def remove_dependency_locked_def
    by (intro scope records_rules records_answer [where num = ev_seq]; simp)+
qed

lemma keyed_review:
  "keyed (require_node (rc_node_id r1)) nd_project_id (idem_key (rc_meta r1)) (report_condition_locked E r1)"
  "keyed (require_node (sv_node_id r2)) nd_project_id (idem_key (sv_meta r2)) (set_verdict_locked E r2)"
  "keyed (require_node (ac_node_id r3)) nd_project_id (idem_key (ac_meta r3)) (add_comment_locked E r3)"
  unfolding report_condition_locked_def set_verdict_locked_def add_comment_locked_def Let_def
  by (intro keyed_steps records_answer [where num = ev_seq]; simp)+

lemma keyed_nodes:
  "keyed (require_node (un_node_id r1)) nd_project_id (idem_key (un_meta r1)) (update_node_locked E r1)"
  "keyed (require_node (dn_node_id r2)) nd_project_id (idem_key (dn_meta r2)) (delete_node_locked E r2)"
  "keyed (require_node (mv_node_id r3)) nd_project_id (idem_key (mv_meta r3)) (move_node_locked E r3)"
  "keyed (\<lambda>d. res_bind (undo_target r4 d) (ok_or (from_db_message ''no event to undo''))) ev_project_id
     (idem_key (ud_meta r4)) (undo_locked E r4)"
proof -
  show "keyed (require_node (un_node_id r1)) nd_project_id (idem_key (un_meta r1)) (update_node_locked E r1)"
    unfolding update_node_locked_def Let_def by (intro keyed_steps records_answer [where num = ev_seq]) simp
  show "keyed (require_node (dn_node_id r2)) nd_project_id (idem_key (dn_meta r2)) (delete_node_locked E r2)"
    unfolding delete_node_locked_def Let_def
    by (intro keyed_steps records_answer [where num = last_event_seq and es = "\<lambda>x. x"]) simp
  show "keyed (require_node (mv_node_id r3)) nd_project_id (idem_key (mv_meta r3)) (move_node_locked E r3)"
    unfolding move_node_locked_def Let_def case_prod_beta'
    by (intro keyed_steps records_answer [where num = "\<lambda>(es, is). last_event_seq es" and es = fst]) auto
  show "keyed (\<lambda>d. res_bind (undo_target r4 d) (ok_or (from_db_message ''no event to undo''))) ev_project_id
     (idem_key (ud_meta r4)) (undo_locked E r4)"
    unfolding undo_locked_def Let_def case_prod_beta'
    by (intro keyed_steps records_answer [where num = "\<lambda>(e, is). ev_seq e" and es = "\<lambda>x. [fst x]"]) auto
qed

text \<open>
  C17: Exactly once: after a write with an idempotency key has succeeded, and whatever calls the
  session has served since then, sending the same request again writes nothing and answers with the
  event number of the first run, as long as what the request names can still be found in the same
  project. This holds of every write that answers with a mutation, except for the creation of a
  node, which answers with the node.
\<close>

theorem keyed_write_once:
  assumes "run_keyed E w c = (Inr m, c1)" "key_of w \<noteq> None" "calls c1 c2"
    and "scope_of w (live c) = Inr p" "scope_of w (live c2) = Inr p"
  shows "run_keyed E' w c2 = (Inr (empty_mutation (mu_seq m)), c2)"
  using assms
proof (cases w)
  case (KUndo r)
  then show ?thesis using assms keyed_once [OF keyed_nodes(4) keyed_nodes(4)] by (simp add: event_scope_def)
qed (auto simp: node_scope_def sum.map_id0 elim: keyed_once [OF keyed_nodes(1) keyed_nodes(1)]
  keyed_once [OF keyed_nodes(2) keyed_nodes(2)] keyed_once [OF keyed_nodes(3) keyed_nodes(3)]
  keyed_once [OF keyed_graph(1) keyed_graph(1)] keyed_once [OF keyed_graph(2) keyed_graph(2)]
  keyed_once [OF keyed_graph(3) keyed_graph(3)] keyed_once [OF keyed_review(1) keyed_review(1)]
  keyed_once [OF keyed_review(2) keyed_review(2)] keyed_once [OF keyed_review(3) keyed_review(3)])

definition demo_comment :: keyed_write where
  "demo_comment = KComment \<lparr>ac_meta = Some \<lparr>wm_author = ''me'', wm_idempotency_key = ''k1''\<rparr>,
     ac_node_id = ''a'', ac_text = ''looks good''\<rparr>"

text \<open>The comment is sent, a \<open>SetStatus\<close> comes in between, and the comment is sent again.\<close>

lemma keyed_write_once_witness:
  "let c2 = snd (dispatch demo_wire no_index demo_env ''SetStatus'' []
     (snd (run_keyed demo_env demo_comment (idle demo_db))))
   in run_keyed busy_env demo_comment c2 = (Inr (empty_mutation 5), c2) \<and> last_seq (live c2) = 6"
proof -
  let ?out = "run_keyed demo_env demo_comment (idle demo_db)"
  let ?next = "dispatch demo_wire no_index demo_env ''SetStatus'' [] (snd ?out)"
  have "\<not> isl (fst ?out)" by code_simp
  then have run: "?out = (Inr (projr (fst ?out)), snd ?out)" by (simp add: prod_eq_iff)
  have later: "calls (snd ?out) (snd ?next)" by (rule calls.more [OF calls.none]) (rule prod.collapse [symmetric])
  have "key_of demo_comment \<noteq> None" by code_simp
  moreover have "scope_of demo_comment (live (idle demo_db)) = Inr ''p''" by code_simp
  moreover have "scope_of demo_comment (live (snd ?next)) = Inr ''p''" by code_simp
  ultimately have "run_keyed busy_env demo_comment (snd ?next) = (Inr (empty_mutation (mu_seq (projr (fst ?out)))), snd ?next)"
    by (rule keyed_write_once [OF run _ later])
  moreover have "mu_seq (projr (fst ?out)) = 5" "last_seq (live (snd ?next)) = 6" by code_simp+
  ultimately show ?thesis unfolding Let_def by metis
qed

end
