(* ===== verification/Replica.thy ===== *)
theory Replica
  imports Update_Props Move_Props Review_Props Retry_Props Graph_Props
begin

text \<open>
  A client's copy of the nodes. A mutation tells the client which nodes are new or different, and its
  events which nodes are gone; a client that applies both has what the store has. The lemmas
  here show this for every write but \<open>Undo\<close>, one by one.
\<close>

section \<open>The view and its patches\<close>

text \<open>The nodes as a read returns them, by identifier.\<close>

definition view :: "db \<Rightarrow> string \<Rightarrow> pb_node option" where
  "view d i = map_option (node_msg d) (find_node d i)"

text \<open>The node an event says is gone: a deletion names it in its payload.\<close>

definition payload_id :: "(string \<Rightarrow> json option) \<Rightarrow> string \<Rightarrow> string option" where
  "payload_id parse t = Option.bind (parse t) (\<lambda>j. Option.bind (json_get j ''before'')
     (\<lambda>b. Option.bind (json_get b ''id'') json_as_str))"

definition deleted_id :: "(string \<Rightarrow> json option) \<Rightarrow> pb_event \<Rightarrow> string option" where
  "deleted_id parse e =
     (if ev_kind e = event_kind_i32 EventKind_NodeDeleted then payload_id parse (ev_payload_json e) else None)"

definition deleted_ids :: "(string \<Rightarrow> json option) \<Rightarrow> mutation \<Rightarrow> string list" where
  "deleted_ids parse m = List.map_filter (deleted_id parse) (mu_events m)"

definition patch ::
  "(string \<Rightarrow> json option) \<Rightarrow> mutation \<Rightarrow> (string \<Rightarrow> pb_node option) \<Rightarrow> string \<Rightarrow> pb_node option" where
  "patch parse m V i = (case find (\<lambda>n. nd_id n = i) (mu_changed_nodes m) of
     Some n \<Rightarrow> Some n
   | None \<Rightarrow> if i \<in> set (deleted_ids parse m) then None else V i)"

text \<open>What makes a patch exact.\<close>

definition tells_all :: "(string \<Rightarrow> json option) \<Rightarrow> db \<Rightarrow> db \<Rightarrow> mutation \<Rightarrow> bool" where
  "tells_all parse d d' m \<longleftrightarrow>
     (\<forall>n \<in> set (mu_changed_nodes m). view d' (nd_id n) = Some n) \<and>
     (\<forall>i. i \<notin> nd_id ` set (mu_changed_nodes m) \<longrightarrow> i \<notin> set (deleted_ids parse m) \<longrightarrow> view d' i = view d i) \<and>
     (\<forall>i \<in> set (deleted_ids parse m). view d' i = None)"

lemma patch_exact:
  assumes "tells_all parse d d' m"
  shows "patch parse m (view d) = view d'"
proof
  fix i
  show "patch parse m (view d) i = view d' i"
  proof (cases "find (\<lambda>n. nd_id n = i) (mu_changed_nodes m)")
    case None
    then have "i \<notin> nd_id ` set (mu_changed_nodes m)" by (auto simp: find_None_iff)
    then show ?thesis using assms None by (auto simp: tells_all_def patch_def)
  next
    case (Some n)
    then have "n \<in> set (mu_changed_nodes m)" "nd_id n = i" by (auto simp: find_Some_iff)
    then show ?thesis using assms Some by (auto simp: tells_all_def patch_def)
  qed
qed

section \<open>Nodes that look the same\<close>

lemma view_cong:
  assumes "find_node d' i = find_node d i" "find_verification d' i = find_verification d i"
    and "\<And>n. n \<in> set (nodes d) \<Longrightarrow> n_id n = i \<Longrightarrow> node_status d' n = node_status d n"
  shows "view d' i = view d i"
proof (cases "find_node d i")
  case (Some n)
  have n: "n \<in> set (nodes d)" "n_id n = i" using find_node_SomeD [OF Some] by simp_all
  have "v_node_id v = i" if "find_verification d i = Some v" for v
    using that by (auto simp: find_verification_def find_Some_iff)
  then have "node_msg d' n = node_msg d n"
    using assms(1,2) assms(3) [OF n] n(2) by (auto simp: node_msg_def bare_node_msg_def split: option.split)
  then show ?thesis using assms(1) Some by (simp add: view_def)
qed (simp add: view_def assms(1))

text \<open>The derived status looks at identifiers, declared states and edges only.\<close>

lemma status_cong:
  assumes "map (\<lambda>n. (n_id n, n_declared_status n)) (nodes d') = map (\<lambda>n. (n_id n, n_declared_status n)) (nodes d)"
    and "dependencies d' = dependencies d"
  shows "node_status d' = node_status d"
proof -
  have states: "(\<lambda>n. (n_id n, n_declared_status n)) ` set (nodes d') = (\<lambda>n. (n_id n, n_declared_status n)) ` set (nodes d)"
    using arg_cong [OF assms(1), of set] by simp
  have ex: "(\<exists>b \<in> set (nodes x). n_id b = k \<and> P \<and> n_declared_status b \<noteq> ''DONE'') \<longleftrightarrow>
      (\<exists>p \<in> (\<lambda>n. (n_id n, n_declared_status n)) ` set (nodes x). fst p = k \<and> P \<and> snd p \<noteq> ''DONE'')" for x k P
    by simp
  show ?thesis by (rule ext) (simp only: node_status_def assms(2) ex states)
qed

lemma drop_status:
  assumes "\<And>b. b \<in> set gone \<Longrightarrow> (b, n_id n) \<notin> set (dep_edges d)" "n_id n \<notin> set gone"
  shows "node_status (drop_nodes gone d) n = node_status d n"
proof -
  have e: "(a, n_id n) \<in> set (dep_edges (drop_nodes gone d)) \<longleftrightarrow> (a, n_id n) \<in> set (dep_edges d)" for a
    using assms by (auto simp: dep_edges_iff drop_nodes_def)
  have "(\<exists>b \<in> set (nodes (drop_nodes gone d)). (n_id b, n_id n) \<in> set (dep_edges d) \<and> n_declared_status b \<noteq> ''DONE'') \<longleftrightarrow>
      (\<exists>b \<in> set (nodes d). (n_id b, n_id n) \<in> set (dep_edges d) \<and> n_declared_status b \<noteq> ''DONE'')"
    using assms(1) by (auto simp: drop_nodes_def)
  then show ?thesis by (simp add: node_status_def blocked_iff e)
qed

section \<open>The three conditions\<close>

text \<open>The changed nodes of every answer are read from the database after the write.\<close>

lemma reported_current:
  "db_inv d' \<Longrightarrow> n \<in> set (nodes_of d' is) \<Longrightarrow> view d' (nd_id n) = Some n"
  using nodes_of_iff [of d' n "is"] find_node_iff [of d'] by (auto simp: db_inv_def view_def)

lemma unreported:
  assumes "db_inv d'" "i \<notin> nd_id ` set (nodes_of d' is)"
  shows "i \<notin> set is \<or> find_node d' i = None"
proof (rule ccontr)
  assume "\<not> ?thesis"
  then obtain n where n: "i \<in> set is" "find_node d' i = Some n" by auto
  then have "node_msg d' n \<in> set (nodes_of d' is)"
    using reported [OF assms(1), of n "is"] find_node_SomeD by blast
  then show False using assms(2) find_node_SomeD [OF n(2)] by (auto simp: image_iff)
qed

text \<open>Writes that delete nothing.\<close>

lemma no_deletion: "e_kind e \<noteq> ''NODE_DELETED'' \<Longrightarrow> event_kind_ok (e_kind e) \<Longrightarrow> deleted_id parse (event_msg e) = None"
  by (auto simp: deleted_id_def event_msg_def event_kind_ok_def event_kind_of_str_def)

lemma tells_allI:
  assumes "db_inv d'" "mu_changed_nodes m = nodes_of d' is" "deleted_ids parse m = []"
    and "\<And>i. i \<notin> set is \<Longrightarrow> view d' i = view d i" "\<And>i. i \<in> set is \<Longrightarrow> find_node d' i = None \<Longrightarrow> find_node d i = None"
  shows "tells_all parse d d' m"
proof -
  have "view d' i = view d i" if "i \<notin> nd_id ` set (nodes_of d' is)" for i
    using unreported [OF assms(1) that] assms(4,5) [of i] by (cases "i \<in> set is") (auto simp: view_def)
  then show ?thesis using reported_current [OF assms(1)] by (auto simp: tells_all_def assms(2,3))
qed

lemma tells_nothing: "mu_changed_nodes m = [] \<Longrightarrow> mu_events m = [] \<Longrightarrow> tells_all parse d d m"
  by (simp add: tells_all_def deleted_ids_def List.map_filter_def)

lemma tells_retry: "tells_all parse d d (empty_mutation q)"
  by (rule tells_nothing) (simp_all add: empty_mutation_def)

section \<open>Write by write\<close>

lemma view_same_graph: "same_graph d1 d' \<Longrightarrow> view d' = view d1"
  by (simp add: view_def [abs_def] same_graph_msg)

lemma find_verification_cong: "verifications d' = verifications d \<Longrightarrow> find_verification d' = find_verification d"
  by (simp add: find_verification_def fun_eq_iff)

lemma same_nodes_verifications: "nodes d' = nodes d \<Longrightarrow> find_node d' = find_node d"
  by (simp add: find_node_def fun_eq_iff)

lemma one_event:
  "mu_events m = [event_msg (event_entry E p i k a s t d)] \<Longrightarrow> k \<noteq> ''NODE_DELETED'' \<Longrightarrow> event_kind_ok k \<Longrightarrow>
   deleted_ids parse m = []"
  by (simp add: deleted_ids_def List.map_filter_def no_deletion)

lemma one_event_row:
  "mu_events m = [event_msg e] \<Longrightarrow> e_kind e \<noteq> ''NODE_DELETED'' \<Longrightarrow> event_kind_ok (e_kind e) \<Longrightarrow> deleted_ids parse m = []"
  by (simp add: deleted_ids_def List.map_filter_def no_deletion)

lemma put_view:
  assumes "keeps_id f" "i \<noteq> j" "(j, i) \<notin> set (dep_edges d)"
  shows "view (put_node E j f d) i = view d i"
  by (rule view_cong)
    (use assms in \<open>auto simp: find_put_node find_verification_cong [of "put_node E j f d" d] intro!: node_status_put\<close>)

lemma set_status_tells_all:
  assumes "db_inv d" "set_status_locked E req (idle d) = (Inr m, c')"
  shows "tells_all parse d (live c') m"
  using assms
proof (cases rule: set_status_outcome)
  case (retry n seq)
  then show ?thesis by (simp add: tells_retry)
next
  case (fresh n d1 d')
  let ?i = "ss_node_id req"
  have g: "same_graph d1 d'" using fresh(4) by simp
  have "tells_all parse d d' m"
  proof (rule tells_allI [OF fresh(5)])
    show "mu_changed_nodes m = nodes_of d' (?i # blocks d ?i)" by (simp add: fresh(7))
    show "deleted_ids parse m = []"
      by (rule one_event [of m]) (simp add: fresh(7), simp_all add: event_kind_ok_def)
    fix i assume "i \<notin> set (?i # blocks d ?i)"
    then show "view d' i = view d i"
      unfolding view_same_graph [OF g] fresh(3) by (intro put_view) (auto simp: set_blocks)
  next
    fix i assume "find_node d' i = None"
    then have "i \<notin> node_ids d1" using find_node_None [of d' i] same_graph_msg(1) [OF g] find_node_None [of d1 i] by simp
    then show "find_node d i = None" unfolding fresh(3) by (simp add: put_node_ids find_node_None)
  qed
  then show ?thesis by (simp add: fresh(6))
qed

lemma edges_tell_all:
  assumes "db_inv d'" "same_graph d1 d'" "nodes d1 = nodes d" "verifications d1 = verifications d"
    and "\<And>n. n_id n \<noteq> b \<Longrightarrow> node_status d1 n = node_status d n"
    and "mu_changed_nodes m = nodes_of d' [b]" "deleted_ids parse m = []"
  shows "tells_all parse d d' m"
proof (rule tells_allI [OF assms(1,6,7)])
  fix i assume "i \<notin> set [b]"
  then show "view d' i = view d i"
    unfolding view_same_graph [OF assms(2)]
    by (intro view_cong) (simp_all add: same_nodes_verifications [OF assms(3)] find_verification_cong [OF assms(4)] assms(5))
next
  fix i assume "find_node d' i = None"
  then show "find_node d i = None"
    using same_graph_msg(1) [OF assms(2)] same_nodes_verifications [OF assms(3)] by simp
qed

lemma add_dependency_tells_all:
  assumes "db_inv d" "add_dependency_locked E req (idle d) = (Inr m, c')"
  shows "tells_all parse d (live c') m"
  using assms
proof (cases rule: add_dependency_outcome)
  case (retry seq)
  then show ?thesis by (simp add: tells_retry)
next
  case (fresh d1 d')
  have "tells_all parse d d' m"
  proof (rule edges_tell_all [OF fresh(4) _ _ _ _ fresh(6)])
    show "same_graph d1 d'" using fresh(3) by simp
    show "nodes d1 = nodes d" "verifications d1 = verifications d"
      using insert_dependency_cases [OF fresh(2)] by auto
    show "deleted_ids parse m = []" by (rule one_event [OF fresh(8)]) (simp_all add: event_kind_ok_def)
  qed (rule insert_dependency_others(1) [OF fresh(2)])
  then show ?thesis by (simp add: fresh(5))
qed

lemma remove_dependency_tells_all:
  assumes "db_inv d" "remove_dependency_locked E req (idle d) = (Inr m, c')"
  shows "tells_all parse d (live c') m"
  using assms
proof (cases rule: remove_dependency_outcome)
  case (retry seq)
  then show ?thesis by (simp add: tells_retry)
next
  case (fresh d1 d')
  have "tells_all parse d d' m"
  proof (rule edges_tell_all [OF fresh(4) _ _ _ _ fresh(6)])
    show "same_graph d1 d'" using fresh(3) by simp
    show "nodes d1 = nodes d" "verifications d1 = verifications d"
      using fresh(2) by (auto simp: delete_dependency_def)
    show "deleted_ids parse m = []" by (rule one_event [OF fresh(8)]) (simp_all add: event_kind_ok_def)
  qed (rule delete_dependency_others(1) [OF fresh(2)])
  then show ?thesis by (simp add: fresh(5))
qed

text \<open>The other writes to a node: a retry answers with nothing, whatever the write.\<close>

lemma keyed_hit:
  assumes "keyed target scope key f" "target (live c) = Inr x" "ledger_hit (live c) (scope x) key = Some q"
  shows "f c = (Inr (empty_mutation q), c)"
  using assms keyed_run_eq [of target c x scope key] by (auto simp: keyed_def)

lemma node_target:
  assumes "keyed (require_node i) nd_project_id key f" "f (idle d) = (Inr m, c')"
  obtains (retry) q where "m = empty_mutation q" "c' = idle d"
  | (fresh) n where "find_node d i = Some n" "ledger_hit d (n_project_id n) key = None"
proof (cases "find_node d i")
  case None
  then have "isl (fst (f (idle d)))"
    using assms(1) by (auto simp: keyed_def keyed_run_def sm_bind_read require_node_ok)
  then show ?thesis using assms(2) by simp
next
  case (Some n)
  then have t: "require_node i (live (idle d)) = Inr (node_msg d n)" by (simp add: require_node_ok)
  show ?thesis
  proof (cases "ledger_hit d (n_project_id n) key")
    case None
    then show ?thesis using fresh Some by blast
  next
    case hit: (Some q)
    then have "f (idle d) = (Inr (empty_mutation q), idle d)" using keyed_hit [OF assms(1) t] by simp
    then show ?thesis using retry assms(2) by simp
  qed
qed

lemma update_node_tells_all:
  assumes "db_inv d" "update_node_locked E req (idle d) = (Inr m, c')"
  shows "tells_all parse d (live c') m"
  using keyed_nodes(1) assms(2)
proof (cases rule: node_target)
  case (retry q)
  then show ?thesis by (simp add: tells_retry)
next
  case (fresh n)
  let ?i = "un_node_id req" and ?f = "masked req (set (un_update_mask req))"
  obtain d' e where run: "c' = idle d'" "db_inv d'" "dependencies d' = dependencies d" "verifications d' = verifications d"
      "e_kind e = ''NODE_UPDATED''" "m = mutation_of (n_project_id n) [event_msg e] [?i] d'"
    and nodes: "nodes d' = map (\<lambda>x. if n_id x = ?i then (?f x)\<lparr>n_updated_at := clock E\<rparr> else x) (nodes d)"
    using update_node_run [OF assms fresh] by blast
  have same: "map (\<lambda>n. (n_id n, n_declared_status n)) (nodes d') = map (\<lambda>n. (n_id n, n_declared_status n)) (nodes d)"
    by (simp add: nodes masked_def)
  have find: "find_node d' = find_node (put_node E ?i ?f d)"
    by (rule same_nodes_verifications) (simp add: nodes put_node_def)
  have id: "keeps_id ?f" by (simp add: keeps_id_def)
  have "tells_all parse d d' m"
  proof (rule tells_allI [OF run(2)])
    show "mu_changed_nodes m = nodes_of d' [?i]" by (simp add: run(6))
    show "deleted_ids parse m = []" by (rule one_event_row [of m e]) (simp_all add: run(5,6) event_kind_ok_def)
    fix i assume "i \<notin> set [?i]"
    then show "view d' i = view d i"
      by (intro view_cong) (simp_all add: find find_put_node [OF id] find_verification_cong [OF run(4)]
          status_cong [OF same run(3)])
  qed (simp add: find find_put_node [OF id] split: if_splits)
  then show ?thesis by (simp add: run(1))
qed

lemma review_tells_all:
  assumes "db_inv d'" "nodes d' = nodes d" "dependencies d' = dependencies d"
    and "\<And>j. j \<noteq> i \<Longrightarrow> find_verification d' j = find_verification d j"
    and "m = mutation_of p [event_msg e] [i] d'" "e_kind e \<noteq> ''NODE_DELETED''" "event_kind_ok (e_kind e)"
  shows "tells_all parse d d' m"
proof (rule tells_allI [OF assms(1)])
  show "mu_changed_nodes m = nodes_of d' [i]" by (simp add: assms(5))
  show "deleted_ids parse m = []" by (rule one_event_row [of m e]) (simp_all add: assms(5-7))
  fix j assume "j \<notin> set [i]"
  then show "view d' j = view d j"
    by (intro view_cong) (simp_all add: same_nodes_verifications [OF assms(2)] assms(4) node_status_def assms(2,3))
qed (simp add: same_nodes_verifications [OF assms(2)])

lemma report_condition_tells_all:
  assumes "db_inv d" "report_condition_locked E req (idle d) = (Inr m, c')"
  shows "tells_all parse d (live c') m"
  using keyed_review(1) assms(2)
proof (cases rule: node_target)
  case (retry q)
  then show ?thesis by (simp add: tells_retry)
next
  case (fresh n)
  obtain d' e where run: "c' = idle d'" "db_inv d'" "nodes d' = nodes d" "dependencies d' = dependencies d"
      "e_kind e = ''AGENT_REPORTED''" "m = mutation_of (n_project_id n) [event_msg e] [rc_node_id req] d'"
    and others: "\<And>j. j \<noteq> rc_node_id req \<Longrightarrow> find_verification d' j = find_verification d j"
    using report_condition_run [OF assms fresh] by (elim exE conjE) (rule that, assumption+, simp)
  show ?thesis using review_tells_all [OF run(2-4) others run(6)] by (simp add: run(1,5) event_kind_ok_def)
qed

lemma set_verdict_tells_all:
  assumes "db_inv d" "set_verdict_locked E req (idle d) = (Inr m, c')"
  shows "tells_all parse d (live c') m"
  using keyed_review(2) assms(2)
proof (cases rule: node_target)
  case (retry q)
  then show ?thesis by (simp add: tells_retry)
next
  case (fresh n)
  obtain d' e where run: "c' = idle d'" "db_inv d'" "nodes d' = nodes d" "dependencies d' = dependencies d"
      "e_kind e = ''VERDICT_SET''" "m = mutation_of (n_project_id n) [event_msg e] [sv_node_id req] d'"
    and others: "\<And>j. j \<noteq> sv_node_id req \<Longrightarrow> find_verification d' j = find_verification d j"
    using set_verdict_run [OF assms fresh] by (elim exE conjE) (rule that, assumption+, simp)
  show ?thesis using review_tells_all [OF run(2-4) others run(6)] by (simp add: run(1,5) event_kind_ok_def)
qed

lemma add_comment_write:
  "add_comment_tx E req pid = logged_write E (sm_return ()) pid (ac_node_id req) ''COMMENT'' (author_of (ac_meta req))
     (comment_summary (ac_text req)) (json_text E (comment_payload (ac_text req) (author_of (ac_meta req))))
     (idem_key (ac_meta req))"
  by (rule ext) (simp add: add_comment_tx_def logged_write_def Let_def)

lemma add_comment_tells_all:
  assumes "db_inv d" "add_comment_locked E req (idle d) = (Inr m, c')"
  shows "tells_all parse d (live c') m"
  using assms(1,2) unfolding add_comment_locked_def Let_def
proof (cases rule: node_write_outcome)
  case (retry n seq)
  then show ?thesis by (simp add: tells_retry)
next
  case (fresh n)
  have safe: "safe_body (sm_return () :: (db, unit) sm)" by (rule safe_body_return)
  from logged_write_outcome [OF safe assms(1) fresh(3) [unfolded add_comment_write]]
  obtain d1 d' where d1: "sm_return () (within d d) = (Inr (), within d d1)"
    and d': "d' = log_tail E (n_project_id n) (ac_node_id req) ''COMMENT'' (author_of (ac_meta req))
      (comment_summary (ac_text req)) (json_text E (comment_payload (ac_text req) (author_of (ac_meta req))))
      (idem_key (ac_meta req)) d1" and inv: "db_inv d'" "c' = idle d'"
    and m: "m = mutation_of (n_project_id n) [event_msg (event_entry E (n_project_id n) (ac_node_id req) ''COMMENT''
      (author_of (ac_meta req)) (comment_summary (ac_text req))
      (json_text E (comment_payload (ac_text req) (author_of (ac_meta req)))) d1)] [ac_node_id req] d'"
    by (metis node_msg_sel(2))
  have "d1 = d" using d1 by (simp add: sm_return_def within_def)
  then have "same_graph d d'" by (simp add: d')
  then show ?thesis
    using review_tells_all [OF inv(1) _ _ _ m] find_verification_cong [of d' d]
    by (simp add: inv(2) same_graph_def event_kind_ok_def)
qed

lemma create_node_retry:
  assumes "create_node_locked E req c = (Inr m, c')" "ledger_hit (live c) (cn_project_id req) (idem_key (cn_meta req)) = Some q"
  shows "c' = c \<and> mu_events m = [] \<and> (\<forall>n \<in> set (mu_changed_nodes m). \<exists>i. view (live c) i = Some n)"
  using assms
  by (auto simp: create_node_locked_def sm_bind_read check_created_ok fetch_node_ok ledger_hit_def sm_return_def
      empty_mutation_def view_def split: option.splits) blast

lemma create_node_tells_all:
  assumes "db_inv d" "create_node_locked E req (idle d) = (Inr m, c')"
  shows "tells_all parse d (live c') m"
proof (cases "ledger_hit d (cn_project_id req) (idem_key (cn_meta req))")
  case (Some q)
  then have r: "c' = idle d" "mu_events m = []" "\<forall>n \<in> set (mu_changed_nodes m). \<exists>i. view d i = Some n"
    using create_node_retry [OF assms(2)] by simp_all
  have "view d (nd_id n) = Some n" if "view d i = Some n" for i n
    using that find_node_SomeD [of d i] by (auto simp: view_def)
  then show ?thesis using r by (auto simp: tells_all_def deleted_ids_def List.map_filter_def)
next
  case None
  from assms this show ?thesis
  proof (cases rule: create_node_outcome)
    case (1 i d')
    let ?n = "new_node_row E req i"
    have new: "i \<notin> node_ids d" using 1(2) by (auto simp: insert_node_def new_node_row_def split: option.splits if_splits)
    have d': "nodes d' = nodes d @ [?n]" "verifications d' = verifications d" "dependencies d' = dependencies d"
      by (simp_all add: 1(3))
    have "tells_all parse d d' m"
    proof (rule tells_allI [OF 1(4)])
      show "mu_changed_nodes m = nodes_of d' [i]" by (simp add: 1(6))
      show "deleted_ids parse m = []" by (rule one_event [of m]) (simp add: 1(6), simp_all add: event_kind_ok_def)
      fix j assume j: "j \<notin> set [i]"
      have find: "find_node d' j = find_node d j"
        using j by (auto simp: find_node_def d'(1) find_append new_node_row_def split: option.split)
      have "i \<noteq> d_blocker_id e" if "e \<in> set (dependencies d)" for e
        using assms(1) that new by (auto simp: inv_defs dep_edges_def)
      then have "node_status d' n = node_status d n" for n
        by (auto simp: node_status_def d' new_node_row_def)
      with find show "view d' j = view d j"
        by (intro view_cong) (simp_all add: find_verification_cong [OF d'(2)])
    next
      fix j assume "find_node d' j = None"
      then show "find_node d j = None" by (auto simp: find_node_def d'(1) find_append split: option.splits)
    qed
    then show ?thesis by (simp add: 1(5))
  qed
qed

section \<open>Writes that remove nodes\<close>

lemma tells_removed:
  assumes "db_inv d'" "mu_changed_nodes m = nodes_of d' is" "set (deleted_ids parse m) = set gone"
    and "\<And>i. i \<in> set gone \<Longrightarrow> find_node d' i = None"
    and "\<And>i. i \<notin> set gone \<Longrightarrow> i \<notin> set is \<Longrightarrow> view d' i = view d i"
    and "\<And>i. i \<notin> set gone \<Longrightarrow> find_node d' i = None \<Longrightarrow> find_node d i = None"
  shows "tells_all parse d d' m"
proof -
  have "view d' i = view d i" if "i \<notin> nd_id ` set (nodes_of d' is)" "i \<notin> set gone" for i
    using unreported [OF assms(1) that(1)] assms(5,6) [of i] that(2) by (cases "i \<in> set is") (auto simp: view_def)
  moreover have "view d' i = None" if "i \<in> set gone" for i using assms(4) [OF that] by (simp add: view_def)
  ultimately show ?thesis using reported_current [OF assms(1)] by (auto simp: tells_all_def assms(2,3))
qed

lemma deletions_named:
  assumes "\<forall>e \<in> set es. is_deletion pid e"
  shows "List.map_filter (deleted_id parse) (map event_msg es) = List.map_filter (payload_id parse) (map e_payload es)"
  using assms
proof (induction es)
  case (Cons e es)
  then have "deleted_id parse (event_msg e) = payload_id parse (e_payload e)"
    by (simp add: deleted_id_def event_msg_def is_deletion_def event_kind_of_str_def)
  then show ?case using Cons by (simp add: List.map_filter_def)
qed (simp add: List.map_filter_def)

lemma payload_named:
  assumes "json_codec E"
  shows "payload_id (json_parse E) (json_text E (deleted_payload i)) = Some i"
    "payload_id (json_parse E) (node_before_json E (node_msg d n)) = Some (n_id n)"
proof -
  have "json_wf (deleted_payload i)" by (simp add: deleted_payload_def)
  then show "payload_id (json_parse E) (json_text E (deleted_payload i)) = Some i"
    using assms by (simp add: payload_id_def json_codec_def) (simp add: deleted_payload_def)
  show "payload_id (json_parse E) (node_before_json E (node_msg d n)) = Some (n_id n)"
    using assms node_before_wf [of d n]
    by (simp add: payload_id_def json_codec_def node_before_json_def) (simp add: node_before_def Let_def)
qed

lemma map_filter_append: "List.map_filter f (xs @ ys) = List.map_filter f xs @ List.map_filter f ys"
  by (simp add: List.map_filter_def)

lemma named_all: "json_codec E \<Longrightarrow>
    List.map_filter (payload_id (json_parse E)) (map (\<lambda>x. json_text E (deleted_payload x)) xs) = xs"
  by (induction xs) (simp_all add: List.map_filter_def payload_named)

lemma find_kept:
  "i \<notin> set gone \<Longrightarrow> find (\<lambda>v. v_node_id v = i) (filter (\<lambda>v. v_node_id v \<notin> set gone) vs) = find (\<lambda>v. v_node_id v = i) vs"
  by (induction vs) auto

lemma drop_view:
  assumes "keys_inv d" "i \<notin> set gone" "\<And>b. b \<in> set gone \<Longrightarrow> (b, i) \<notin> set (dep_edges d)"
  shows "view (drop_nodes gone d) i = view d i"
proof (rule view_cong)
  show "find_node (drop_nodes gone d) i = find_node d i" using assms(2) by (simp add: find_node_drop [OF assms(1)])
  show "find_verification (drop_nodes gone d) i = find_verification d i"
    using assms(2) by (simp add: find_verification_def drop_nodes_def find_kept)
  show "node_status (drop_nodes gone d) n = node_status d n" if "n_id n = i" for n
    using assms(2,3) that by (intro drop_status) auto
qed

lemma delete_node_tells_all:
  assumes "db_inv d" "json_codec E" "delete_node_locked E req (idle d) = (Inr m, c')"
  shows "tells_all (json_parse E) d (live c') m"
  using assms(1,3)
proof (cases rule: delete_node_outcome)
  case (retry n seq)
  then show ?thesis by (simp add: tells_retry)
next
  case (fresh n d' es)
  let ?i = "dn_node_id req" and ?s = "subtree d (dn_node_id req)"
  have n: "n_id n = ?i" using find_node_SomeD [OF fresh(1)] by simp
  have keys: "keys_inv d" using assms(1) by (simp add: db_inv_def)
  have same: "find_node d' = find_node (drop_nodes ?s d)" by (rule same_graph_msg(1) [OF fresh(3)])
  have "deleted_ids (json_parse E) m = filter (\<lambda>s. s \<noteq> ?i) ?s @ [?i]"
    unfolding deleted_ids_def fresh(9) mutation_of_sel deletions_named [OF fresh(7)] fresh(8)
    unfolding map_filter_append named_all [OF assms(2)]
    by (simp add: List.map_filter_def payload_named [OF assms(2)] n)
  then have named: "set (deleted_ids (json_parse E) m) = set ?s" using subtree_self [of ?i d] by auto
  have "tells_all (json_parse E) d d' m"
  proof (rule tells_removed [OF fresh(4) _ named])
    show "mu_changed_nodes m = nodes_of d' (outer_dependents d ?s)" by (simp add: fresh(9))
  next
    fix i assume "i \<notin> set ?s" "i \<notin> set (outer_dependents d ?s)"
    then show "view d' i = view d i"
      unfolding view_same_graph [OF fresh(3)] by (intro drop_view [OF keys]) (auto simp: set_outer_dependents)
  qed (auto simp: same find_node_drop [OF keys])
  then show ?thesis by (simp add: fresh(5))
qed

lemma placed_find:
  assumes "nodes d' = map (placed E req pos) (nodes d2)"
  shows "find_node d' i = map_option (placed E req pos) (find_node d2 i)"
proof -
  have "find (\<lambda>n. n_id n = i) (map (placed E req pos) ns) = map_option (placed E req pos) (find (\<lambda>n. n_id n = i) ns)" for ns
    by (induction ns) auto
  then show ?thesis by (simp add: find_node_def assms)
qed

text \<open>A node that is neither moved nor dropped, and that no dropped step blocks, looks the same.\<close>

lemma moved_view:
  assumes "nodes d' = map (placed E req pos) (nodes (drop_nodes gone d))"
    and "dependencies d' = dependencies (drop_nodes gone d)"
    and "verifications d' = filter (\<lambda>v. P \<or> v_node_id v \<noteq> mv_node_id req) (verifications (drop_nodes gone d))"
    and "keys_inv d" "i \<notin> set gone" "i \<noteq> mv_node_id req" "\<And>b. b \<in> set gone \<Longrightarrow> (b, i) \<notin> set (dep_edges d)"
  shows "view d' i = view d i"
proof (rule view_cong)
  have row: "placed E req pos x = x" if "n_id x = i" for x using that assms(6) by (simp add: placed_def)
  show "find_node d' i = find_node d i"
    using assms(5) row find_node_SomeD [of d i] placed_find [OF assms(1)] find_node_drop [OF assms(4)]
    by (cases "find_node d i") simp_all
  have "find (\<lambda>v. v_node_id v = i)
      (filter (\<lambda>v. v_node_id v \<notin> set gone \<and> (P \<or> v_node_id v \<noteq> mv_node_id req)) vs) =
      find (\<lambda>v. v_node_id v = i) vs" for vs using assms(5,6) by (induction vs) auto
  then show "find_verification d' i = find_verification d i"
    by (simp add: find_verification_def assms(3) drop_nodes_def)
  show "node_status d' x = node_status d x" if "x \<in> set (nodes d)" "n_id x = i" for x
    using placed_status [OF assms(1,2), of x] row [OF that(2)] assms(5,7) that(2) by auto
qed

lemma move_node_tells_all:
  assumes "db_inv d" "json_codec E" "move_node_locked E req (idle d) = (Inr m, c')"
  shows "tells_all (json_parse E) d (live c') m"
  using assms(1,3)
proof (cases rule: move_node_outcome)
  case (retry n seq)
  then show ?thesis by (simp add: tells_retry)
next
  case (fresh n d' pos "is")
  let ?gone = "moved_steps d n req"
  have keys: "keys_inv d" using assms(1) by (simp add: db_inv_def)
  obtain es e where ev: "mu_events m = es @ [event_msg e]" "tells_deleted E (n_project_id n) ?gone es"
      "e_kind e = ''NODE_UPDATED''" using fresh(12) by blast
  have "List.map_filter (deleted_id (json_parse E)) es = ?gone"
    using ev(2) deletions_named named_all [OF assms(2)] by (auto simp: tells_deleted_def)
  moreover have "deleted_id (json_parse E) (event_msg e) = None"
    by (rule no_deletion) (simp_all add: ev(3) event_kind_ok_def)
  ultimately have named: "set (deleted_ids (json_parse E) m) = set ?gone"
    by (simp add: deleted_ids_def ev(1) List.map_filter_def)
  have find: "find_node d' i = map_option (placed E req pos) (if i \<in> set ?gone then None else find_node d i)" for i
    using placed_find [OF fresh(6)] by (simp add: find_node_drop [OF keys])
  have "tells_all (json_parse E) d d' m"
  proof (rule tells_removed [OF fresh(3,9) named])
    fix i assume i: "i \<notin> set ?gone" "i \<notin> set is"
    then have moved: "i \<noteq> mv_node_id req" using fresh(10) by blast
    show "view d' i = view d i" by (rule moved_view [OF fresh(6-8) keys i(1) moved]) (use i fresh(11) in blast)
  qed (auto simp: find)
  then show ?thesis by (simp add: fresh(4))
qed

end
