(* ===== verification/Replica_Props.thy ===== *)
theory Replica_Props
  imports Replica Undo_Rules Native_Store Example
begin

text \<open>
  A client that applies every mutation keeps an exact copy of the nodes, whatever is written and in
  however many steps; an \<open>Undo\<close> is the one write that leaves the copy behind.
\<close>

section \<open>Sequences of writes\<close>

lemma write_tells_all:
  assumes "db_inv d" "json_codec E" "write_op E w (idle d) = (Inr m, c')" "\<And>r. w \<noteq> WUndo r"
  shows "tells_all (json_parse E) d (live c') m"
  using assms
  by (cases w) (auto intro: create_node_tells_all update_node_tells_all delete_node_tells_all set_status_tells_all
      add_dependency_tells_all remove_dependency_tells_all report_condition_tells_all set_verdict_tells_all
      add_comment_tells_all move_node_tells_all)

text \<open>The mutations a session answers with; a write that is refused answers with none.\<close>

fun run_writes :: "(env \<times> write_request) list \<Rightarrow> db conn \<Rightarrow> mutation list \<times> db conn" where
  "run_writes [] c = ([], c)"
| "run_writes ((E, w) # ws) c = (case write_op E w c of
     (Inl e, c1) \<Rightarrow> run_writes ws c1
   | (Inr m, c1) \<Rightarrow> (case run_writes ws c1 of (ms, c2) \<Rightarrow> (m # ms, c2)))"

lemma settled_write:
  assumes "commit_error E = None" "db_inv d" "write_op E w (idle d) = (r, c')"
  shows "\<exists>d'. c' = idle d' \<and> db_inv d' \<and> (isl r \<longrightarrow> d' = d)"
proof -
  have "settles E (write_op E w)" by (cases w) (simp_all add: settle_rules)
  then have idle: "savepoint c' = None" using settlesD [of E "write_op E w" "idle d" r c'] assms(1,3) by (cases "savepoint c'") auto
  have inv: "conn_inv db_inv c'" using write_keeps [OF assms(3)] assms(2) by simp
  have "live c' = d" if "isl r"
    using failed_no_events [OF write_op_safe [of E w] write_op_stuck [of E w], of "idle d" _ c'] idle assms(2,3) that
    by (auto simp: isl_def)
  then show ?thesis using idle_of_mark [OF idle] inv by (intro exI [of _ "live c'"]) (simp add: conn_inv_def)
qed

text \<open>
  C4: A client keeps an exact copy. Start from the nodes of a snapshot and apply the mutations a
  session answers with, in order: put in every changed node, take out every node that a deletion
  event names. Then after any sequence of creations, updates, deletions, moves, status writes,
  edges, reports, verdicts and comments, refused and repeated ones included, the copy shows every
  node exactly as a new snapshot would, with all its fields, its derived status and its review.
\<close>

theorem client_copy_exact:
  assumes "db_inv d" "run_writes ws (idle d) = (ms, c')"
    and "\<forall>(E, w) \<in> set ws. json_codec E \<and> json_parse E = parse \<and> commit_error E = None \<and> (\<forall>r. w \<noteq> WUndo r)"
  shows "fold (patch parse) ms (view d) = view (live c')"
  using assms
proof (induction ws arbitrary: d ms)
  case Nil
  then show ?case by auto
next
  case (Cons x ws)
  obtain E w where x: "x = (E, w)" by (cases x)
  have E: "json_codec E" "json_parse E = parse" "commit_error E = None" "\<And>r. w \<noteq> WUndo r"
    using Cons.prems(3) by (simp_all add: x)
  obtain r c1 where run: "write_op E w (idle d) = (r, c1)" by fastforce
  obtain d1 where d1: "c1 = idle d1" "db_inv d1" "isl r \<longrightarrow> d1 = d"
    using settled_write [OF E(3) Cons.prems(1) run] by blast
  show ?case
  proof (cases r)
    case (Inl e)
    then show ?thesis using Cons.IH [of d1 ms] Cons.prems(2,3) d1 run by (simp add: x)
  next
    case (Inr m)
    then obtain ms1 where ms: "run_writes ws (idle d1) = (ms1, c')" "ms = m # ms1"
      using Cons.prems(2) run by (auto simp: x d1(1) split: prod.splits)
    have "tells_all parse d d1 m"
      using write_tells_all [OF Cons.prems(1) E(1) run [unfolded Inr] E(4)] by (simp add: E(2) d1(1))
    then show ?thesis using Cons.IH [OF d1(2) ms(1)] Cons.prems(3) patch_exact by (simp add: ms(2))
  qed
qed

text \<open>A status write, a deletion and a refused write.\<close>

definition demo_writes :: "(env \<times> write_request) list" where
  "demo_writes = [
     (demo_env, WSetStatus \<lparr>ss_meta = None, ss_node_id = ''a'', ss_declared_status = 3\<rparr>),
     (demo_env, WAddDependency \<lparr>ad_meta = None, ad_blocker_id = ''b'', ad_blocked_id = ''b''\<rparr>),
     (demo_env, WDeleteNode \<lparr>dn_meta = None, dn_node_id = ''a'', dn_fail_if_referenced = False\<rparr>)]"

lemma client_copy_exact_witness:
  "let out = run_writes demo_writes (idle demo_db); V = fold (patch read_json) (fst out) (view demo_db) in
   length (fst out) = 2 \<and> V ''a'' = None \<and> V ''b'' = view (live (snd out)) ''b'' \<and>
   map_option nd_status (V ''b'') = Some 1 \<and> map_option nd_status (view demo_db ''b'') = Some 2"
proof -
  let ?out = "run_writes demo_writes (idle demo_db)"
  have "fold (patch read_json) (fst ?out) (view demo_db) = view (live (snd ?out))"
    by (rule client_copy_exact [OF demo_inv prod.collapse [symmetric]]) (simp add: demo_writes_def demo_codec)
  moreover have "case ?out of (ms, c) \<Rightarrow> length ms = 2 \<and> view (live c) ''a'' = None \<and>
    map_option nd_status (view (live c) ''b'') = Some 1" by code_simp
  moreover have "map_option nd_status (view demo_db ''b'') = Some 2" by code_simp
  ultimately show ?thesis by (simp add: Let_def case_prod_beta)
qed

section \<open>Undo\<close>

lemma declared_codes_differ:
  "declared_ok s \<Longrightarrow> declared_ok t \<Longrightarrow> s \<noteq> t \<Longrightarrow>
   declared_status_i32 (declared_of_str s) \<noteq> declared_status_i32 (declared_of_str t)"
  by (auto simp: declared_ok_def declared_of_str_def)

text \<open>
  C12: \<open>Undo\<close> breaks the copy: when a status write is undone and the node goes back to another status
  than it has, the node is not among the changed nodes of the answer, so a client that applies the
  answer keeps showing the old status, while the store shows the restored one.
\<close>

theorem undo_leaves_copy_stale:
  assumes inv: "db_inv d" and run: "undo_locked E r (idle d) = (Inr m, c')"
    and e: "e \<in> set (events d)" "e_kind e = ''STATUS_SET''" "e_node_id e = Some i" "i \<noteq> ''''"
    and asked: "ud_project_id r = e_project_id e" "ud_seq r = e_seq e"
      "ledger_hit d (e_project_id e) (idem_key (ud_meta r)) = None"
    and n: "find_node d i = Some n" "payload_get E (e_payload e) ''before'' = Some s" "s \<noteq> n_declared_status n"
  shows "patch parse m (view d) i = view d i \<and> view (live c') i \<noteq> view d i \<and>
    map_option nd_declared_status (view (live c') i) = Some (declared_status_i32 (declared_of_str s))"
proof -
  have target: "undo_target r d = Inr (Some (event_msg e))"
    using inv e(1) asked(1,2) by (intro undo_target_of) (simp_all add: db_inv_def)
  have msg: "ev_project_id (event_msg e) = e_project_id e" "ev_node_id (event_msg e) = i"
    "ev_kind (event_msg e) = event_kind_i32 EventKind_StatusSet"
    using e(2,3) by (simp_all add: event_msg_def event_kind_of_str_def)
  obtain affected k t j d1 d' where u: "undo_inverse E (ev_kind (event_msg e)) (e_payload e) i (within d d) =
      (Inr (affected, k, t, j), within d d1)" and same: "same_graph d1 d'" and inv': "db_inv d'" and c': "c' = idle d'"
    and m: "mu_changed_nodes m = nodes_of d' affected" "\<exists>x. mu_events m = [event_msg x] \<and> e_kind x = k"
    using undo_outcome [OF inv target _ run] asked(3) unfolding msg(1,2) event_msg_sel by blast
  let ?f = "\<lambda>n. n\<lparr>n_declared_status := s\<rparr>"
  have step: "d1 = put_node E i ?f d" "affected = blocks d1 i" "k = ''STATUS_SET''" "check_node (?f n) = None"
    using u n(1,2) unfolding msg(3) undo_inverse_def undo_status_set_def Let_def
    by (auto simp: sm_bind_run sm_bind_read downstream_of_ok update_node_def sm_return_def within_def
        split: option.splits)
  have "i \<notin> set affected"
  proof -
    have "dep_edges d' = dep_edges d1" using same by (simp add: same_graph_def dep_edges_def)
    moreover have "(i, i) \<notin> set (dep_edges d')" using inv' unfolding db_inv_def deps_inv_def acyclic_def by blast
    ultimately show ?thesis by (simp add: step(2) set_blocks)
  qed
  then have untold: "i \<notin> nd_id ` set (mu_changed_nodes m)"
    using nodes_of_iff [of d' _ affected] inv' by (auto simp: m(1) db_inv_def)
  moreover have "deleted_ids parse m = []"
    using m(2) one_event_row [of m] step(3) by (auto simp: event_kind_ok_def)
  moreover have "find (\<lambda>n. nd_id n = i) (mu_changed_nodes m) = None"
    using untold by (auto simp: find_None_iff image_iff)
  ultimately have kept: "patch parse m (view d) i = view d i" by (simp add: patch_def)
  have row: "find_node d' i = Some ((?f n)\<lparr>n_updated_at := clock E\<rparr>)"
    using same_graph_msg(1) [OF same] n(1) find_put_node [of ?f E i d] by (simp add: step(1))
  have "declared_ok s" using step(4) by (simp add: check_node_def split: if_splits)
  moreover have "declared_ok (n_declared_status n)"
    using inv find_node_SomeD [OF n(1)] by (auto simp: inv_defs node_ok_def check_node_def split: if_splits)
  ultimately have "view (live c') i \<noteq> view d i"
    using row n(1,3) declared_codes_differ by (auto simp: view_def c' dest: arg_cong [of _ _ nd_declared_status])
  then show ?thesis using kept row by (simp add: view_def c')
qed

text \<open>A status write of the example, and its undo.\<close>

lemma undo_leaves_copy_stale_witness:
  "let req = \<lparr>ss_meta = None, ss_node_id = ''a'', ss_declared_status = 3\<rparr>;
       d = live (snd (set_status_locked demo_env req (idle demo_db)));
       out = undo_locked demo_env \<lparr>ud_meta = None, ud_project_id = ''p'', ud_seq = 5\<rparr> (idle d) in
   patch read_json (projr (fst out)) (view d) ''a'' = view d ''a'' \<and> view (live (snd out)) ''a'' \<noteq> view d ''a''"
proof -
  let ?req = "\<lparr>ss_meta = None, ss_node_id = ''a'', ss_declared_status = 3\<rparr>"
  let ?r = "\<lparr>ud_meta = None, ud_project_id = ''p'', ud_seq = 5\<rparr>"
  let ?set = "set_status_locked demo_env ?req (idle demo_db)"
  let ?d = "live (snd ?set)"
  let ?out = "undo_locked demo_env ?r (idle ?d)"
  let ?e = "last (events ?d)"
  have "write_op demo_env (WSetStatus ?req) (idle demo_db) = (fst ?set, snd ?set)" by simp
  from settled_write [OF _ demo_inv this] have inv: "db_inv ?d" by (auto simp: demo_env_def)
  have facts: "case ?set of (x, c) \<Rightarrow> let e = last (events (live c)) in events (live c) \<noteq> [] \<and> e_kind e = ''STATUS_SET'' \<and>
      e_node_id e = Some ''a'' \<and> e_project_id e = ''p'' \<and> e_seq e = 5 \<and>
      payload_get demo_env (e_payload e) ''before'' = Some ''OPEN'' \<and>
      map_option n_declared_status (find_node (live c) ''a'') = Some ''DONE'' \<and>
      \<not> isl (fst (undo_locked demo_env ?r (idle (live c))))"
    by code_simp
  have run: "?out = (Inr (projr (fst ?out)), snd ?out)"
    using facts by (simp add: prod_eq_iff case_prod_beta Let_def)
  have e: "?e \<in> set (events ?d)" using facts last_in_set unfolding case_prod_beta Let_def by blast
  have e': "e_kind ?e = ''STATUS_SET''" "e_node_id ?e = Some ''a''" "ud_project_id ?r = e_project_id ?e" "ud_seq ?r = e_seq ?e"
    "payload_get demo_env (e_payload ?e) ''before'' = Some ''OPEN''"
    using facts by (simp_all add: case_prod_beta Let_def)
  have miss: "ledger_hit ?d (e_project_id ?e) (idem_key (ud_meta ?r)) = None" by (simp add: ledger_hit_def idem_key_def)
  have n: "find_node ?d ''a'' = Some (the (find_node ?d ''a''))" "''OPEN'' \<noteq> n_declared_status (the (find_node ?d ''a''))"
    using facts by (auto simp: case_prod_beta Let_def)
  show ?thesis
    using undo_leaves_copy_stale [OF inv run e e'(1,2) _ e'(3,4) miss n(1) e'(5) n(2), of read_json]
    by (simp add: Let_def)
qed

end
