(* ===== verification/Daemon.thy ===== *)
theory Daemon
  imports Db_Setup Native_Store
begin

text \<open>
  The daemon's entry point (\<open>flowd/src/main.rs\<close>): the arguments of \<open>flowd serve\<close>, the start of the
  server from the address to the bound socket, and its shutdown. What the address parser, the
  engine, the socket and the server report are parameters; \<open>clap\<close> splits the command line, the
  defaults are the program's.
\<close>

section \<open>Arguments\<close>

record serve_args =
  sa_addr :: string
  sa_db :: string
  sa_seed :: bool

datatype command = Serve serve_args

text \<open>The values that were given for \<open>--addr\<close> and \<open>--db\<close>, and whether \<open>--seed\<close> was.\<close>

definition serve_args_of :: "string option \<Rightarrow> string option \<Rightarrow> bool \<Rightarrow> serve_args" where
  "serve_args_of addr path seeding = \<lparr>
     sa_addr = (case addr of None \<Rightarrow> ''127.0.0.1:50051'' | Some a \<Rightarrow> a),
     sa_db = (case path of None \<Rightarrow> ''flowd.db'' | Some p \<Rightarrow> p),
     sa_seed = seeding\<rparr>"

section \<open>The start\<close>

text \<open>The errors that \<open>anyhow\<close> carries out of \<open>main\<close>.\<close>

datatype daemon_error = BadAddress string | FromStore domain_error | FromSocket string

text \<open>A socket address in the form the standard library prints it.\<close>

type_synonym socket_addr = string

record daemon_host =
  parse_addr :: "string \<Rightarrow> string + socket_addr"
  engine_setup :: host_setup
  no_such_table :: string
  bind_error :: "socket_addr \<Rightarrow> string option"

text \<open>
  The seed on an open file, and the file it leaves: statements before the one that fails stay,
  because the batch runs outside a transaction.
\<close>

definition seed_file :: "string \<Rightarrow> env \<Rightarrow> db_file \<Rightarrow> unit res \<times> db_file" where
  "seed_file no_table E f = (case f_tables f of
     None \<Rightarrow> (Inl (setup_error ''seed'' no_table), f)
   | Some d \<Rightarrow> (case seed E (idle d) of (r, c) \<Rightarrow> (r, f\<lparr>f_tables := Some (live c)\<rparr>)))"

text \<open>What \<open>serve\<close> has built when it starts to accept requests.\<close>

record server =
  sv_listen :: socket_addr
  sv_edge :: edge

text \<open>
  From the arguments to the bound socket. A version-1 file without the tables opens, and the
  server comes up on it; there is no edge for it here, and it is the last case.
\<close>

datatype started = Refused daemon_error | Listening "server" | NoTables socket_addr

definition bind_store :: "daemon_host \<Rightarrow> socket_addr \<Rightarrow> db_file \<Rightarrow> started \<times> db_file option" where
  "bind_store H addr f = (case bind_error H addr of
     Some e \<Rightarrow> (Refused (FromSocket e), Some f)
   | None \<Rightarrow> (case f_tables f of
       None \<Rightarrow> (NoTables addr, Some f)
     | Some d \<Rightarrow> (Listening \<lparr>sv_listen = addr, sv_edge = edge_start (idle d)\<rparr>, Some f)))"

definition serve :: "daemon_host \<Rightarrow> env \<Rightarrow> serve_args \<Rightarrow> started \<times> db_file option" where
  "serve H E args = (case parse_addr H (sa_addr args) of
     Inl e \<Rightarrow> (Refused (BadAddress e), None)
   | Inr addr \<Rightarrow> (case open_db (engine_setup H) (sa_db args) of
       (Inl e, f) \<Rightarrow> (Refused (FromStore e), f)
     | (Inr f, _) \<Rightarrow>
         if sa_seed args then (case seed_file (no_such_table H) E f of
             (Inl e, f1) \<Rightarrow> (Refused (FromStore e), Some f1)
           | (Inr _, f1) \<Rightarrow> bind_store H addr f1)
         else bind_store H addr f))"

fun main :: "daemon_host \<Rightarrow> env \<Rightarrow> command \<Rightarrow> started \<times> db_file option" where
  "main H E (Serve args) = serve H E args"

section \<open>Shutdown\<close>

datatype platform = Unix | Windows

datatype os_signal = SigTerm | SigInt | CtrlC | CtrlClose | OtherSignal

text \<open>The signals that \<open>shutdown_signal\<close> waits for.\<close>

definition shutdown_signal :: "platform \<Rightarrow> os_signal \<Rightarrow> bool" where
  "shutdown_signal p s \<longleftrightarrow> (case p of
     Unix \<Rightarrow> s = SigTerm \<or> s = SigInt | Windows \<Rightarrow> s = CtrlC \<or> s = CtrlClose)"

text \<open>
  The life of a server: it serves, after a signal it drains, and it ends when no request is left.
  A server may also be killed at any time.
\<close>

datatype phase = Serving | Draining | Ended | Killed

inductive server_step :: "platform \<Rightarrow> phase \<times> edge \<Rightarrow> phase \<times> edge \<Rightarrow> bool" for p where
  serves: "edge_step s t \<Longrightarrow> server_step p (Serving, s) (Serving, t)"
| signalled: "shutdown_signal p sig \<Longrightarrow> server_step p (Serving, s) (Draining, s)"
| drains: "edge_step s t \<Longrightarrow> server_step p (Draining, s) (Draining, t)"
| ends: "e_pending s = [] \<Longrightarrow> server_step p (Draining, s) (Ended, s)"
| killed: "a = Serving \<or> a = Draining \<Longrightarrow> server_step p (a, s) (Killed, s)"

inductive server_steps :: "platform \<Rightarrow> phase \<times> edge \<Rightarrow> phase \<times> edge \<Rightarrow> bool" for p where
  stay: "server_steps p x x"
| go: "server_steps p x y \<Longrightarrow> server_step p y z \<Longrightarrow> server_steps p x z"

inductive_cases server_stepE: "server_step p x y"

lemma server_step_edge: "server_step p x y \<Longrightarrow> edge_steps (snd x) (snd y)"
  by (induction rule: server_step.induct) (auto intro: edge_steps.intros)

lemma server_steps_edge: "server_steps p x y \<Longrightarrow> edge_steps (snd x) (snd y)"
proof (induction rule: server_steps.induct)
  case (stay x)
  show ?case by (rule edge_steps.stay)
next
  case (go x y z)
  then show ?case using edge_steps_trans server_step_edge by blast
qed

lemma ended_settled: "server_steps p x y \<Longrightarrow> fst x = Serving \<Longrightarrow> fst y = Ended \<Longrightarrow> e_pending (snd y) = []"
  by (induction rule: server_steps.induct) (auto elim: server_stepE)

section \<open>One file over many runs\<close>

text \<open>
  What a run does to the file it is started on. The durable tables of a server that has ended or
  was killed are what the next run finds.
\<close>

definition durable_file :: "db_file \<Rightarrow> edge \<Rightarrow> db_file" where
  "durable_file f s = f\<lparr>f_tables := Some (durable_db (e_conn s))\<rparr>"

inductive daemon_run :: "db_file \<Rightarrow> db_file \<Rightarrow> bool" where
  refused: "connect (engine_setup H) (resolve_url (sa_db args)) = Inr f \<Longrightarrow>
     main H E (Serve args) = (Refused e, Some f') \<Longrightarrow> daemon_run f f'"
| untouched: "main H E (Serve args) = (Refused e, None) \<Longrightarrow> daemon_run f f"
| tableless: "connect (engine_setup H) (resolve_url (sa_db args)) = Inr f \<Longrightarrow>
     main H E (Serve args) = (NoTables a, Some f') \<Longrightarrow> daemon_run f f'"
| served: "connect (engine_setup H) (resolve_url (sa_db args)) = Inr f \<Longrightarrow>
     main H E (Serve args) = (Listening sv, Some f') \<Longrightarrow>
     server_steps p (Serving, sv_edge sv) (ph, s) \<Longrightarrow> ph = Ended \<or> ph = Killed \<Longrightarrow>
     daemon_run f (durable_file f' s)"

inductive daemon_runs :: "db_file \<Rightarrow> db_file \<Rightarrow> bool" where
  none: "daemon_runs f f"
| more: "daemon_runs f g \<Longrightarrow> daemon_run g h \<Longrightarrow> daemon_runs f h"

end
