(* ===== verification/Daemon_Props.thy ===== *)
theory Daemon_Props
  imports Daemon Db_Props
begin

text \<open>
  The daemon over its whole life: however often it is started, refused, drained or killed, the file
  holds a database of the program; and what a start that is refused leaves behind.
\<close>

section \<open>The files a daemon leaves\<close>

text \<open>Fresh, cut off between the schema and its stamp, or prepared and valid.\<close>

definition cut_file :: db_file where
  "cut_file = \<lparr>f_version = 0, f_tables = Some empty_db\<rparr>"

definition valid_file :: "db_file \<Rightarrow> bool" where
  "valid_file f \<longleftrightarrow> f_version f = 1 \<and> (\<exists>d. f_tables f = Some d \<and> db_inv d)"

definition daemon_file :: "db_file \<Rightarrow> bool" where
  "daemon_file f \<longleftrightarrow> f = fresh_file \<or> f = cut_file \<or> valid_file f"

lemma open_daemon_file:
  assumes "connect S (resolve_url url) = Inr f" "daemon_file f"
  shows "(\<exists>e f'. open_db S url = (Inl e, Some f') \<and> daemon_file f') \<or>
    (\<exists>f'. open_db S url = (Inr f', Some f') \<and> valid_file f')"
  using assms
  by (auto simp: open_db_def migrate_def apply_schema_def daemon_file_def fresh_file_def cut_file_def valid_file_def
      db_inv_empty split: option.splits)

lemma seed_batch_mark: "keeps_mark (seed_batch E)"
  unfolding seed_batch_def by (intro sm_rules)

lemma seed_idle:
  assumes "seed E (idle d) = (r, c)" "db_inv d"
  shows "db_inv (live c)"
proof -
  obtain r' where "seed_batch E (idle d) = (r', c)" using assms(1) by (auto simp: seed_def split: prod.splits sum.splits)
  then show ?thesis using sm_keepsD [OF seed_keeps, of "idle d"] assms(2) by (simp add: conn_inv_def)
qed

lemma seed_file_valid: "valid_file f \<Longrightarrow> seed_file nt E f = (r, f') \<Longrightarrow> valid_file f'"
  using seed_idle by (fastforce simp: seed_file_def valid_file_def split: prod.splits)

lemma bind_valid:
  "valid_file f \<Longrightarrow> (\<exists>e. bind_store H a f = (Refused e, Some f)) \<or>
    (\<exists>d. db_inv d \<and> f_tables f = Some d \<and>
      bind_store H a f = (Listening \<lparr>sv_listen = a, sv_edge = edge_start (idle d)\<rparr>, Some f))"
  by (auto simp: bind_store_def valid_file_def split: option.splits)

text \<open>What a start makes of a file that daemons have left.\<close>

lemma start_cases:
  assumes f: "connect (engine_setup H) (resolve_url (sa_db args)) = Inr f" "daemon_file f"
    and run: "main H E (Serve args) = (x, g)"
  obtains (refused) e where "x = Refused e" "\<And>f'. g = Some f' \<Longrightarrow> daemon_file f'"
  | (listening) sv d f' where "x = Listening sv" "g = Some f'" "valid_file f'" "f_tables f' = Some d"
      "sv_edge sv = edge_start (idle d)" "db_inv d"
proof (cases "parse_addr H (sa_addr args)")
  case (Inl e)
  then show ?thesis using run refused [of "BadAddress e"] by (simp add: serve_def)
next
  case (Inr a)
  note run' = run [unfolded main.simps serve_def Inr sum.case]
  have bound: ?thesis if "valid_file h" "bind_store H a h = (x, g)" for h
    using bind_valid [OF that(1), of H a] that refused listening by (fastforce simp: daemon_file_def)
  show ?thesis using open_daemon_file [OF f]
  proof (elim disjE exE conjE)
    fix e f' assume "open_db (engine_setup H) (sa_db args) = (Inl e, Some f')" "daemon_file f'"
    then show ?thesis using run' refused [of "FromStore e"] by auto
  next
    fix f' assume o: "open_db (engine_setup H) (sa_db args) = (Inr f', Some f')" and v: "valid_file f'"
    show ?thesis
    proof (cases "sa_seed args")
      case False
      then show ?thesis using bound [OF v] run' o by simp
    next
      case True
      obtain r h where s: "seed_file (no_such_table H) E f' = (r, h)" by fastforce
      have h: "valid_file h" by (rule seed_file_valid [OF v s])
      then have "daemon_file h" by (simp add: daemon_file_def)
      then show ?thesis using bound [OF h] refused run' o s True by (cases r) auto
    qed
  qed
qed

lemma served_inv: "db_inv d \<Longrightarrow> server_steps p (Serving, edge_start (idle d)) (ph, s) \<Longrightarrow> edge_inv s"
  using edge_steps_inv [OF server_steps_edge [of p "(Serving, edge_start (idle d))" "(ph, s)", simplified]]
    edge_start_inv [of "idle d"] by simp

lemma durable_valid: "valid_file f \<Longrightarrow> edge_inv s \<Longrightarrow> valid_file (durable_file f s)"
  by (auto simp: valid_file_def durable_file_def edge_inv_def dest: conn_inv_durable)

lemma daemon_run_keeps: "daemon_run f f' \<Longrightarrow> daemon_file f \<Longrightarrow> daemon_file f'"
proof (induction rule: daemon_run.induct)
  case (refused H args f E e f')
  from start_cases [OF refused(1,3,2)] show ?case by (auto simp: daemon_file_def)
next
  case (tableless H args f E a f')
  from start_cases [OF tableless(1,3,2)] show ?case by auto
next
  case (served H args f E sv f' p ph s)
  from served(1,5,2) show ?case
    by (rule start_cases) (use served(3) in \<open>auto simp: daemon_file_def intro: durable_valid served_inv\<close>)
qed simp

lemma daemon_runs_keep: "daemon_runs f f' \<Longrightarrow> daemon_file f \<Longrightarrow> daemon_file f'"
  by (induction rule: daemon_runs.induct) (auto intro: daemon_run_keeps)


text \<open>
  C39: A start that cannot bind its socket has spent the seed: the fixture is committed before the
  address is tried, so the same command, repeated when the address is free, is refused by the seed
  for good. Without \<open>--seed\<close> the refused start leaves a prepared, empty file, and the next one listens.
\<close>

theorem refused_bind_spends_seed:
  assumes fresh: "connect (engine_setup H) (resolve_url (sa_db args)) = Inr fresh_file"
    and up: "pragma_error (engine_setup H) = None" "version_error (engine_setup H) = None"
      "stamp_error (engine_setup H) = None" "parse_addr H (sa_addr args) = Inr a" "bind_error H a = Some e"
    and json: "json_valid E seed_payload"
    and later: "connect (engine_setup H') (resolve_url (sa_db args)) = Inr (the (snd (main H E (Serve args))))"
      "pragma_error (engine_setup H') = None" "version_error (engine_setup H') = None"
      "parse_addr H' (sa_addr args) = Inr a" "bind_error H' a = None"
  shows "fst (main H E (Serve args)) = Refused (FromSocket e) \<and>
    (if sa_seed args
     then \<exists>d. fst (main H' E' (Serve args)) = Refused (FromStore d) \<and>
       snd (main H' E' (Serve args)) = snd (main H E (Serve args))
     else main H' E' (Serve args) =
       (Listening \<lparr>sv_listen = a, sv_edge = edge_start (idle empty_db)\<rparr>, Some \<lparr>f_version = 1, f_tables = Some empty_db\<rparr>))"
proof -
  let ?ready = "\<lparr>f_version = 1, f_tables = Some (if sa_seed args then seeded_db E else empty_db)\<rparr>"
  have first: "main H E (Serve args) = (Refused (FromSocket e), Some ?ready)"
    using fresh up seed_batch_empty [OF json]
    by (simp add: serve_def open_db_def migrate_def apply_schema_def fresh_file_def seed_file_def seed_def bind_store_def)
  have seeded: "''prj-travel'' \<in> project_ids (live (idle (seeded_db E)))"
    by (simp add: seeded_db_def seed_project_def project_ids_def)
  have "open_db (engine_setup H') (sa_db args) = (Inr ?ready, Some ?ready)"
    using later(1) [unfolded first] later(2,3) by (simp add: open_db_def migrate_def)
  then show ?thesis
    using later(4,5) seed_refuses_second [OF seeded, of E'] unfolding first
    by (simp add: serve_def seed_file_def bind_store_def)
qed

section \<open>Concrete runs\<close>

definition port_host :: "db_file \<Rightarrow> string option \<Rightarrow> daemon_host" where
  "port_host f busy = \<lparr>parse_addr = Inr,
     engine_setup = \<lparr>connect = (\<lambda>_. Inr f), pragma_error = None, version_error = None,
       schema_exists = ''table projects already exists'', stamp_error = None\<rparr>,
     no_such_table = ''no such table: projects'', bind_error = (\<lambda>_. busy)\<rparr>"

definition empty_file :: db_file where
  "empty_file = \<lparr>f_version = 1, f_tables = Some empty_db\<rparr>"

lemma demo_main:
  "main (port_host fresh_file (Some ''in use'')) E (Serve (serve_args_of None None False)) =
     (Refused (FromSocket ''in use''), Some empty_file)"
  "main (port_host empty_file None) E (Serve (serve_args_of None None False)) =
     (Listening \<lparr>sv_listen = ''127.0.0.1:50051'', sv_edge = edge_start (idle empty_db)\<rparr>, Some empty_file)"
  by (simp_all add: port_host_def serve_args_of_def serve_def open_db_def migrate_def apply_schema_def
      fresh_file_def empty_file_def bind_store_def)


lemma refused_bind_spends_seed_witness:
  "\<exists>d f. main (port_host fresh_file (Some ''in use'')) lenient_env (Serve (serve_args_of None None True)) =
      (Refused (FromSocket ''in use''), Some f) \<and>
    fst (main (port_host f None) lenient_env (Serve (serve_args_of None None True))) = Refused (FromStore d)"
proof -
  let ?args = "serve_args_of None None True" and ?H = "port_host fresh_file (Some ''in use'')"
  let ?first = "main ?H lenient_env (Serve ?args)"
  let ?H' = "port_host (the (snd ?first)) None"
  have json: "json_valid lenient_env seed_payload" by (simp add: lenient_env_def)
  have "fst ?first = Refused (FromSocket ''in use'') \<and> (if sa_seed ?args
     then \<exists>d. fst (main ?H' lenient_env (Serve ?args)) = Refused (FromStore d) \<and>
       snd (main ?H' lenient_env (Serve ?args)) = snd ?first
     else main ?H' lenient_env (Serve ?args) = (Listening \<lparr>sv_listen = sa_addr ?args,
       sv_edge = edge_start (idle empty_db)\<rparr>, Some \<lparr>f_version = 1, f_tables = Some empty_db\<rparr>))"
    by (rule refused_bind_spends_seed [OF _ _ _ _ _ _ json]) (simp_all add: port_host_def)
  then obtain d where d: "fst ?first = Refused (FromSocket ''in use'')"
      "fst (main ?H' lenient_env (Serve ?args)) = Refused (FromStore d)"
    by (auto simp: serve_args_of_def simp del: main.simps)
  have "snd ?first \<noteq> None"
    by (simp add: serve_def port_host_def open_db_def migrate_def apply_schema_def fresh_file_def seed_file_def
        bind_store_def serve_args_of_def split: prod.split sum.split option.split)
  then obtain f where f: "snd ?first = Some f" by blast
  then have "?first = (Refused (FromSocket ''in use''), Some f)" using d(1) by (simp only: prod_eq_iff fst_conv snd_conv)
  moreover have "fst (main (port_host f None) lenient_env (Serve ?args)) = Refused (FromStore d)"
    using d(2) unfolding f option.sel .
  ultimately show ?thesis by blast
qed

end
