(* ===== verification/Search_Index.thy ===== *)
theory Search_Index
  imports Store_Nodes
begin

text \<open>
  The full-text index of \<open>flowcore/migrations/0001_initial_schema.sql\<close>: \<open>nodes_fts\<close> has no content
  of its own, the triggers on \<open>nodes\<close> tell it every change. FTS5 is the engine's; what the triggers
  rely on is its documented contract: a \<open>'delete'\<close> must repeat the text that was indexed, and a row
  is indexed once. A command outside the contract has no result here.
\<close>

section \<open>The index\<close>

type_synonym fts_text = "string \<times> string \<times> string"
type_synonym fts_index = "string \<Rightarrow> fts_text option"

text \<open>The indexed columns of a row; the row is named by its identifier in place of its \<open>rowid\<close>.\<close>

definition fts_text_of :: "node_row \<Rightarrow> fts_text" where
  "fts_text_of n = (n_title n, n_description n, n_note n)"

datatype fts_command = FtsPut string fts_text | FtsDelete string fts_text

fun fts_apply :: "fts_command \<Rightarrow> fts_index \<Rightarrow> fts_index option" where
  "fts_apply (FtsPut i t) I = (if I i = None then Some (I(i := Some t)) else None)"
| "fts_apply (FtsDelete i t) I = (if I i = Some t then Some (I(i := None)) else None)"

fun fts_run :: "fts_command list \<Rightarrow> fts_index \<Rightarrow> fts_index option" where
  "fts_run [] I = Some I"
| "fts_run (c # cs) I = (case fts_apply c I of None \<Rightarrow> None | Some J \<Rightarrow> fts_run cs J)"

section \<open>Triggers\<close>

definition nodes_fts_insert :: "node_row \<Rightarrow> fts_command list" where
  "nodes_fts_insert new = [FtsPut (n_id new) (fts_text_of new)]"

definition nodes_fts_delete :: "node_row \<Rightarrow> fts_command list" where
  "nodes_fts_delete old = [FtsDelete (n_id old) (fts_text_of old)]"

definition nodes_fts_update :: "node_row \<Rightarrow> node_row \<Rightarrow> fts_command list" where
  "nodes_fts_update old new = [FtsDelete (n_id old) (fts_text_of old), FtsPut (n_id new) (fts_text_of new)]"

text \<open>
  Two triggers run after an update, and SQLite leaves their order open. \<open>nodes_touch\<close> updates the
  stored row again, which runs \<open>nodes_fts_update\<close> once more, but not \<open>nodes_touch\<close>.
\<close>

datatype trigger_order = FtsFirst | TouchFirst

definition touched :: "env \<Rightarrow> node_row \<Rightarrow> node_row" where
  "touched E n = n\<lparr>n_updated_at := clock E\<rparr>"

definition after_update :: "trigger_order \<Rightarrow> env \<Rightarrow> node_row \<Rightarrow> node_row \<Rightarrow> fts_command list" where
  "after_update order E old new = (case order of
     FtsFirst \<Rightarrow> nodes_fts_update old new @ nodes_fts_update new (touched E new)
   | TouchFirst \<Rightarrow> nodes_fts_update new (touched E new) @ nodes_fts_update old new)"

section \<open>Statements on nodes\<close>

datatype node_stmt =
    StmtInsert bool node_row
  | StmtUpdate string "node_row \<Rightarrow> node_row"
  | StmtPlace string "string option" string int
  | StmtDelete string

fun run_node_stmt :: "env \<Rightarrow> node_stmt \<Rightarrow> (db, unit) stmt" where
  "run_node_stmt E (StmtInsert ign n) = insert_node ign E n"
| "run_node_stmt E (StmtUpdate i f) = update_node E i f"
| "run_node_stmt E (StmtPlace i parent k pos) = update_node_place E i parent k pos"
| "run_node_stmt E (StmtDelete i) = delete_node i"

text \<open>What the triggers tell the index when the statement takes \<open>d\<close> to \<open>d'\<close>, row by row.\<close>

fun fts_commands :: "trigger_order \<Rightarrow> env \<Rightarrow> node_stmt \<Rightarrow> db \<Rightarrow> db \<Rightarrow> fts_command list" where
  "fts_commands order E (StmtInsert ign n) d d' =
     concat (map nodes_fts_insert (drop (length (nodes d)) (nodes d')))"
| "fts_commands order E (StmtUpdate i f) d d' =
     concat (map (\<lambda>m. after_update order E m (f m)) (filter (\<lambda>m. n_id m = i) (nodes d)))"
| "fts_commands order E (StmtPlace i parent k pos) d d' =
     concat (map (\<lambda>m. after_update order E m (m\<lparr>n_parent_id := parent, n_kind := k, n_position := pos\<rparr>))
       (filter (\<lambda>m. n_id m = i) (nodes d)))"
| "fts_commands order E (StmtDelete i) d d' =
     concat (map nodes_fts_delete (filter (\<lambda>n. i \<in> node_ids d \<and> n_id n \<in> set (subtree d i)) (nodes d)))"

section \<open>The index of a database\<close>

definition index_of :: "db \<Rightarrow> fts_index" where
  "index_of d i = map_option fts_text_of (find_node d i)"

lemma fts_run_append:
  "fts_run (cs @ ds) I = (case fts_run cs I of None \<Rightarrow> None | Some J \<Rightarrow> fts_run ds J)"
  by (induction cs arbitrary: I) (simp_all split: option.split)

lemma fts_deletes:
  assumes "distinct (map n_id ns)" "\<forall>n \<in> set ns. I (n_id n) = Some (fts_text_of n)"
  shows "fts_run (concat (map nodes_fts_delete ns)) I = Some (\<lambda>i. if i \<in> n_id ` set ns then None else I i)"
  using assms
proof (induction ns arbitrary: I)
  case (Cons n ns)
  let ?J = "I(n_id n := None)"
  have "n_id n \<notin> n_id ` set ns" using Cons.prems(1) by simp
  then have "\<forall>m \<in> set ns. ?J (n_id m) = Some (fts_text_of m)"
    using Cons.prems(2) by (metis fun_upd_other image_eqI list.set_intros(2))
  then have "fts_run (concat (map nodes_fts_delete ns)) ?J = Some (\<lambda>i. if i \<in> n_id ` set ns then None else ?J i)"
    using Cons by auto
  moreover have "(\<lambda>i. if i \<in> n_id ` set ns then None else ?J i) = (\<lambda>i. if i \<in> n_id ` set (n # ns) then None else I i)"
    by (auto simp: fun_eq_iff)
  moreover have "concat (map nodes_fts_delete (n # ns)) =
      FtsDelete (n_id n) (fts_text_of n) # concat (map nodes_fts_delete ns)" by (simp add: nodes_fts_delete_def)
  ultimately show ?case using Cons.prems(2) by simp
qed simp

lemma index_entry: "keys_inv d \<Longrightarrow> n \<in> set (nodes d) \<Longrightarrow> index_of d (n_id n) = Some (fts_text_of n)"
  using find_node_iff [of d "n_id n" n] by (simp add: index_of_def)

lemma fts_update:
  assumes "I (n_id old) = Some (fts_text_of old)" "n_id new = n_id old"
  shows "fts_run (after_update FtsFirst E old new) I = Some (I(n_id old := Some (fts_text_of new)))"
  using assms by (simp add: after_update_def nodes_fts_update_def touched_def fts_text_of_def)

lemma filter_one:
  assumes "distinct (map n_id ns)" "find (\<lambda>m. n_id m = i) ns = Some n"
  shows "filter (\<lambda>m. n_id m = i) ns = [n]"
  using assms
proof (induction ns)
  case (Cons m ns)
  show ?case
  proof (cases "n_id m = i")
    case True
    then have "filter (\<lambda>m. n_id m = i) ns = []" using Cons.prems(1) by (auto simp: filter_empty_conv intro: rev_image_eqI)
    then show ?thesis using True Cons.prems(2) by simp
  qed (use Cons in simp)
qed simp

lemma one_row: "keys_inv d \<Longrightarrow> find_node d i = Some n \<Longrightarrow> filter (\<lambda>m. n_id m = i) (nodes d) = [n]"
  using filter_one [of "nodes d" i n] by (simp add: keys_inv_def find_node_def)

lemma no_row: "find_node d i = None \<Longrightarrow> filter (\<lambda>m. n_id m = i) (nodes d) = []"
  by (auto simp: find_node_def find_None_iff filter_empty_conv)

section \<open>Every statement keeps the index in step\<close>

lemma put_in_step:
  assumes "keys_inv d" "find_node d i = Some n" "keeps_id f"
  shows "fts_run (concat (map (\<lambda>m. after_update FtsFirst E m (f m)) (filter (\<lambda>m. n_id m = i) (nodes d)))) (index_of d) =
    Some (index_of (put_node E i f d))"
proof -
  have n: "n \<in> set (nodes d)" "n_id n = i" using find_node_SomeD [OF assms(2)] by simp_all
  have new: "n_id (f n) = n_id n" using assms(3) by (simp add: keeps_id_def)
  have "index_of (put_node E i f d) = (index_of d)(i := Some (fts_text_of (f n)))"
    using find_put_node [OF assms(3), of E i d] assms(2)
    by (auto simp: index_of_def fun_eq_iff fts_text_of_def split: option.splits)
  then show ?thesis
    using fts_update [of "index_of d" n "f n" E, OF _ new] index_entry [OF assms(1) n(1)] n(2)
    by (simp add: one_row [OF assms(1,2)])
qed

lemma index_append:
  assumes "n_id n \<notin> node_ids d" "nodes d' = nodes d @ [n]"
  shows "index_of d' = (index_of d)(n_id n := Some (fts_text_of n))" "index_of d (n_id n) = None"
  using assms find_node_None [of d "n_id n"]
  by (auto simp: index_of_def fun_eq_iff find_node_def find_append split: option.splits)

definition keeps_row_ids :: "node_stmt \<Rightarrow> bool" where
  "keeps_row_ids s \<longleftrightarrow> (case s of StmtUpdate i f \<Rightarrow> keeps_id f | _ \<Rightarrow> True)"

lemma place_keeps_id: "keeps_id (\<lambda>m. m\<lparr>n_parent_id := parent, n_kind := k, n_position := pos\<rparr>)"
  by (simp add: keeps_id_def)

lemma index_drop: "keys_inv d \<Longrightarrow> index_of (drop_nodes gone d) = (\<lambda>i. if i \<in> set gone then None else index_of d i)"
  by (auto simp: index_of_def fun_eq_iff find_node_drop)

lemma statement_in_step:
  assumes "keys_inv d" "keeps_row_ids s" "run_node_stmt E s d = Inr ((), d')"
  shows "fts_run (fts_commands FtsFirst E s d d') (index_of d) = Some (index_of d')"
proof (cases s)
  case (StmtInsert ign n)
  then have "d' = d \<or> nodes d' = nodes d @ [n] \<and> n_id n \<notin> node_ids d"
    using assms(3) by (auto simp: insert_node_def split: option.splits if_splits)
  then show ?thesis
    using StmtInsert index_append [of n d d'] by (auto simp: nodes_fts_insert_def)
next
  case (StmtUpdate i f)
  then show ?thesis
    using assms put_in_step [of d i _ f E] no_row [of d i]
    by (auto simp: update_node_def keeps_row_ids_def split: option.splits)
next
  case (StmtPlace i parent k pos)
  then show ?thesis
    using assms put_in_step [OF assms(1) _ place_keeps_id, of i _ E] no_row [of d i]
    by (auto simp: update_node_place_def Let_def split: option.splits if_splits)
next
  case (StmtDelete i)
  let ?gone = "filter (\<lambda>n. n_id n \<in> set (subtree d i)) (nodes d)"
  have "distinct (map n_id ?gone)" using assms(1) by (simp add: keys_inv_def distinct_map_filter)
  moreover have "\<forall>n \<in> set ?gone. index_of d (n_id n) = Some (fts_text_of n)" using index_entry [OF assms(1)] by simp
  moreover have "(\<lambda>j. if j \<in> n_id ` set ?gone then None else index_of d j) = index_of (drop_nodes (subtree d i) d)"
    using find_node_None [of d] by (auto simp: index_drop [OF assms(1)] fun_eq_iff index_of_def node_ids_def)
  ultimately show ?thesis
    using StmtDelete assms(3) fts_deletes [of ?gone "index_of d"]
    by (auto simp: delete_node_def split: if_splits)
qed

text \<open>
  In the other order the commands of an update that changes an indexed column break the contract:
  the nested update deletes a text that is not in the index yet.
\<close>

lemma touch_first_breaks:
  assumes "keys_inv d" "find_node d i = Some n" "keeps_id f" "fts_text_of (f n) \<noteq> fts_text_of n"
  shows "fts_run (fts_commands TouchFirst E (StmtUpdate i f) d d') (index_of d) = None"
proof -
  have "n \<in> set (nodes d)" "n_id n = i" using find_node_SomeD [OF assms(2)] by simp_all
  then show ?thesis
    using assms(3,4) index_entry [OF assms(1), of n]
    by (simp add: one_row [OF assms(1,2)] after_update_def nodes_fts_update_def keeps_id_def)
qed

end
