(* ===== verification/Search_Props.thy ===== *)
theory Search_Props
  imports Search_Index Example
begin

text \<open>The full-text index follows the nodes.\<close>

text \<open>
  C31: The search index never leaves the data: whenever a statement inserts, updates, moves or deletes
  nodes, the cascade of a deletion included, every command its triggers give to the index keeps the
  contract of FTS5, and afterwards the index holds exactly the present titles, descriptions and
  notes. This rests on \<open>nodes_fts_update\<close> running before \<open>nodes_touch\<close>, an order that SQLite leaves
  open: in the other order every update that changes an indexed column deletes a text that the
  index does not hold.
\<close>

theorem index_in_step:
  assumes "keys_inv d" "keeps_row_ids s" "run_node_stmt E s d = Inr ((), d')"
  shows "fts_run (fts_commands FtsFirst E s d d') (index_of d) = Some (index_of d') \<and>
    (\<forall>i f n. s = StmtUpdate i f \<longrightarrow> find_node d i = Some n \<longrightarrow> fts_text_of (f n) \<noteq> fts_text_of n \<longrightarrow>
      fts_run (fts_commands TouchFirst E s d d') (index_of d) = None)"
proof (intro conjI allI impI)
  show "fts_run (fts_commands FtsFirst E s d d') (index_of d) = Some (index_of d')"
    by (rule statement_in_step [OF assms])
  fix i f n
  assume s: "s = StmtUpdate i f" and "find_node d i = Some n" "fts_text_of (f n) \<noteq> fts_text_of n"
  moreover from s have "keeps_id f" using assms(2) by (simp add: keeps_row_ids_def)
  ultimately show "fts_run (fts_commands TouchFirst E s d d') (index_of d) = None"
    unfolding s using touch_first_breaks [OF assms(1), of i n f] by simp
qed

lemma index_in_step_witness:
  "let s = StmtUpdate ''a'' (\<lambda>n. n\<lparr>n_title := ''new''\<rparr>);
       d = put_node demo_env ''a'' (\<lambda>n. n\<lparr>n_title := ''new''\<rparr>) demo_db in
   fts_run (fts_commands FtsFirst demo_env s demo_db d) (index_of demo_db) = Some (index_of d) \<and>
   index_of d ''a'' = Some (''new'', '''', '''') \<and>
   fts_run (fts_commands TouchFirst demo_env s demo_db d) (index_of demo_db) = None"
proof -
  let ?f = "\<lambda>n. n\<lparr>n_title := ''new''\<rparr>"
  let ?d = "put_node demo_env ''a'' ?f demo_db" and ?n = "demo_node ''a'' (Some ''w'') ''TASK'' None 100"
  have n: "find_node demo_db ''a'' = Some ?n" by code_simp
  have "check_node (?f ?n) = None" by code_simp
  then have run: "run_node_stmt demo_env (StmtUpdate ''a'' ?f) demo_db = Inr ((), ?d)"
    using n by (simp add: update_node_def)
  have ids: "keeps_row_ids (StmtUpdate ''a'' ?f)" by (simp add: keeps_row_ids_def)
  have "fts_text_of (?f ?n) \<noteq> fts_text_of ?n" by code_simp
  moreover have "find_node ?d ''a'' = Some (?n\<lparr>n_title := ''new'', n_updated_at := 1000\<rparr>)" by code_simp
  then have "index_of ?d ''a'' = Some (''new'', '''', '''')"
    by (simp add: index_of_def fts_text_of_def demo_node_def)
  ultimately show ?thesis using index_in_step [OF demo_keys ids run] n unfolding Let_def by blast
qed

end
