(* ===== verification/Grpc_Service.thy ===== *)
theory Grpc_Service
  imports Grpc_Client
begin

text \<open>
  The generated server as it is written (\<open>flow.v1.tonic.rs\<close>): a trait with one method per call, a
  server over any implementation of it with its compression and message-size settings, and the
  router that runs every call through tonic with these settings. \<open>Grpc.grpc_serve\<close> is this server
  over the daemon's implementation when tonic adds nothing of its own.
\<close>

section \<open>The trait\<close>

text \<open>
  An implementation is a value with one handler per method, over the state it shares with the other
  calls; \<open>'w\<close> is its \<open>WatchStream\<close>.
\<close>

record ('s, 'w) flow_service =
  tr_list_projects :: "list_projects_request \<Rightarrow> 's \<Rightarrow> (grpc_status + list_projects_response) \<times> 's"
  tr_get_snapshot :: "get_snapshot_request \<Rightarrow> 's \<Rightarrow> (grpc_status + get_snapshot_response) \<times> 's"
  tr_list_events :: "list_events_request \<Rightarrow> 's \<Rightarrow> (grpc_status + list_events_response) \<times> 's"
  tr_search :: "search_request \<Rightarrow> 's \<Rightarrow> (grpc_status + search_response) \<times> 's"
  tr_poll_changes :: "poll_changes_request \<Rightarrow> 's \<Rightarrow> (grpc_status + poll_changes_response) \<times> 's"
  tr_watch :: "watch_request \<Rightarrow> 's \<Rightarrow> (grpc_status + 'w) \<times> 's"
  tr_create_node :: "create_node_request \<Rightarrow> 's \<Rightarrow> (grpc_status + create_node_response) \<times> 's"
  tr_update_node :: "update_node_request \<Rightarrow> 's \<Rightarrow> (grpc_status + update_node_response) \<times> 's"
  tr_delete_node :: "delete_node_request \<Rightarrow> 's \<Rightarrow> (grpc_status + delete_node_response) \<times> 's"
  tr_set_status :: "set_status_request \<Rightarrow> 's \<Rightarrow> (grpc_status + set_status_response) \<times> 's"
  tr_report_condition :: "report_condition_request \<Rightarrow> 's \<Rightarrow> (grpc_status + report_condition_response) \<times> 's"
  tr_set_verdict :: "set_verdict_request \<Rightarrow> 's \<Rightarrow> (grpc_status + set_verdict_response) \<times> 's"
  tr_add_comment :: "add_comment_request \<Rightarrow> 's \<Rightarrow> (grpc_status + add_comment_response) \<times> 's"
  tr_add_dependency :: "add_dependency_request \<Rightarrow> 's \<Rightarrow> (grpc_status + add_dependency_response) \<times> 's"
  tr_remove_dependency :: "remove_dependency_request \<Rightarrow> 's \<Rightarrow> (grpc_status + remove_dependency_response) \<times> 's"
  tr_undo :: "undo_request \<Rightarrow> 's \<Rightarrow> (grpc_status + undo_response) \<times> 's"
  tr_move_node :: "move_node_request \<Rightarrow> 's \<Rightarrow> (grpc_status + move_node_response) \<times> 's"
  tr_create_project :: "create_project_request \<Rightarrow> 's \<Rightarrow> (grpc_status + create_project_response) \<times> 's"
  tr_update_project :: "update_project_request \<Rightarrow> 's \<Rightarrow> (grpc_status + update_project_response) \<times> 's"
  tr_archive_project :: "archive_project_request \<Rightarrow> 's \<Rightarrow> (grpc_status + archive_project_response) \<times> 's"

section \<open>The server and its settings\<close>

text \<open>
  The sets of enabled encodings are tonic's: what is enabled by default and how one more is enabled
  are the arguments of the functions that use them.
\<close>

record ('e, 't) flow_service_server =
  fs_inner :: 't
  fs_accept_compression_encodings :: 'e
  fs_send_compression_encodings :: 'e
  fs_max_decoding_message_size :: "nat option"
  fs_max_encoding_message_size :: "nat option"

definition from_arc :: "'e \<Rightarrow> 't \<Rightarrow> ('e, 't) flow_service_server" where
  "from_arc none inner = \<lparr>fs_inner = inner, fs_accept_compression_encodings = none,
     fs_send_compression_encodings = none, fs_max_decoding_message_size = None, fs_max_encoding_message_size = None\<rparr>"

definition new_server :: "'e \<Rightarrow> 't \<Rightarrow> ('e, 't) flow_service_server" where
  "new_server none inner = from_arc none inner"

definition intercepted_server :: "(('e, 't) flow_service_server \<Rightarrow> 'f \<Rightarrow> 'i) \<Rightarrow> 'e \<Rightarrow> 't \<Rightarrow> 'f \<Rightarrow> 'i" where
  "intercepted_server intercepted none inner f = intercepted (new_server none inner) f"

definition server_accept_compressed ::
  "('c \<Rightarrow> 'e \<Rightarrow> 'e) \<Rightarrow> 'c \<Rightarrow> ('e, 't) flow_service_server \<Rightarrow> ('e, 't) flow_service_server" where
  "server_accept_compressed enable c sv =
     sv\<lparr>fs_accept_compression_encodings := enable c (fs_accept_compression_encodings sv)\<rparr>"

definition server_send_compressed ::
  "('c \<Rightarrow> 'e \<Rightarrow> 'e) \<Rightarrow> 'c \<Rightarrow> ('e, 't) flow_service_server \<Rightarrow> ('e, 't) flow_service_server" where
  "server_send_compressed enable c sv =
     sv\<lparr>fs_send_compression_encodings := enable c (fs_send_compression_encodings sv)\<rparr>"

definition server_max_decoding :: "nat \<Rightarrow> ('e, 't) flow_service_server \<Rightarrow> ('e, 't) flow_service_server" where
  "server_max_decoding limit sv = sv\<lparr>fs_max_decoding_message_size := Some limit\<rparr>"

definition server_max_encoding :: "nat \<Rightarrow> ('e, 't) flow_service_server \<Rightarrow> ('e, 't) flow_service_server" where
  "server_max_encoding limit sv = sv\<lparr>fs_max_encoding_message_size := Some limit\<rparr>"

definition server_clone :: "('e, 't) flow_service_server \<Rightarrow> ('e, 't) flow_service_server" where
  "server_clone sv = (let inner = fs_inner sv in
     \<lparr>fs_inner = inner, fs_accept_compression_encodings = fs_accept_compression_encodings sv,
      fs_send_compression_encodings = fs_send_compression_encodings sv,
      fs_max_decoding_message_size = fs_max_decoding_message_size sv,
      fs_max_encoding_message_size = fs_max_encoding_message_size sv\<rparr>)"

definition server_name :: string where
  "server_name = ''flow.v1.FlowService''"

section \<open>The router\<close>

text \<open>
  What tonic does around a method, given the settings: it may refuse a message or an answer, or
  compress them. Its two kinds of calls are arguments.
\<close>

record ('e, 's, 'w) tonic_server =
  ts_unary :: "'e \<times> 'e \<Rightarrow> nat option \<times> nat option \<Rightarrow> (bytes \<Rightarrow> 's \<Rightarrow> (grpc_status + bytes) \<times> 's) \<Rightarrow>
    bytes \<Rightarrow> 's \<Rightarrow> (grpc_status + bytes) \<times> 's"
  ts_streaming :: "'e \<times> 'e \<Rightarrow> nat option \<times> nat option \<Rightarrow> (bytes \<Rightarrow> 's \<Rightarrow> (grpc_status + 'w) \<times> 's) \<Rightarrow>
    bytes \<Rightarrow> 's \<Rightarrow> (grpc_status + 'w) \<times> 's"

definition stream_arm ::
  "(bytes \<Rightarrow> string + 'r) \<Rightarrow> ('r \<Rightarrow> 's \<Rightarrow> (grpc_status + 'w) \<times> 's) \<Rightarrow> (string \<Rightarrow> grpc_status) \<Rightarrow>
   bytes \<Rightarrow> 's \<Rightarrow> (grpc_status + 'w) \<times> 's" where
  "stream_arm dec handler bad bs s = (case dec bs of Inl e \<Rightarrow> (Inl (bad e), s) | Inr r \<Rightarrow> handler r s)"

definition server_call ::
  "codec \<Rightarrow> (bytes \<Rightarrow> string + watch_request) \<Rightarrow> (string \<Rightarrow> grpc_status) \<Rightarrow> ('e, 's, 'w) tonic_server \<Rightarrow>
   ('e, ('s, 'w) flow_service) flow_service_server \<Rightarrow> string \<Rightarrow> bytes \<Rightarrow> 's \<Rightarrow> 'w reply \<times> 's" where
  "server_call C dec_watch bad T sv path bs s = (let inner = fs_inner sv;
       compression = (fs_accept_compression_encodings sv, fs_send_compression_encodings sv);
       sizes = (fs_max_decoding_message_size sv, fs_max_encoding_message_size sv);
       unary = (\<lambda>arm. map_prod UnaryReply id (ts_unary T compression sizes (arm bad) bs s)) in
     if path = ''/flow.v1.FlowService/ListProjects'' then unary (svc_unary (dec_list_projects C) (tr_list_projects inner) (enc_list_projects C))
     else if path = ''/flow.v1.FlowService/GetSnapshot'' then unary (svc_unary (dec_get_snapshot C) (tr_get_snapshot inner) (enc_get_snapshot C))
     else if path = ''/flow.v1.FlowService/ListEvents'' then unary (svc_unary (dec_list_events C) (tr_list_events inner) (enc_list_events C))
     else if path = ''/flow.v1.FlowService/Search'' then unary (svc_unary (dec_search C) (tr_search inner) (enc_search C))
     else if path = ''/flow.v1.FlowService/PollChanges'' then unary (svc_unary (dec_poll_changes C) (tr_poll_changes inner) (enc_poll_changes C))
     else if path = ''/flow.v1.FlowService/Watch'' then
       map_prod StreamReply id (ts_streaming T compression sizes (stream_arm dec_watch (tr_watch inner) bad) bs s)
     else if path = ''/flow.v1.FlowService/CreateNode'' then unary (svc_unary (dec_create_node C) (tr_create_node inner) (enc_create_node C))
     else if path = ''/flow.v1.FlowService/UpdateNode'' then unary (svc_unary (dec_update_node C) (tr_update_node inner) (enc_update_node C))
     else if path = ''/flow.v1.FlowService/DeleteNode'' then unary (svc_unary (dec_delete_node C) (tr_delete_node inner) (enc_delete_node C))
     else if path = ''/flow.v1.FlowService/SetStatus'' then unary (svc_unary (dec_set_status C) (tr_set_status inner) (enc_set_status C))
     else if path = ''/flow.v1.FlowService/ReportCondition'' then unary (svc_unary (dec_report_condition C) (tr_report_condition inner) (enc_report_condition C))
     else if path = ''/flow.v1.FlowService/SetVerdict'' then unary (svc_unary (dec_set_verdict C) (tr_set_verdict inner) (enc_set_verdict C))
     else if path = ''/flow.v1.FlowService/AddComment'' then unary (svc_unary (dec_add_comment C) (tr_add_comment inner) (enc_add_comment C))
     else if path = ''/flow.v1.FlowService/AddDependency'' then unary (svc_unary (dec_add_dependency C) (tr_add_dependency inner) (enc_add_dependency C))
     else if path = ''/flow.v1.FlowService/RemoveDependency'' then unary (svc_unary (dec_remove_dependency C) (tr_remove_dependency inner) (enc_remove_dependency C))
     else if path = ''/flow.v1.FlowService/Undo'' then unary (svc_unary (dec_undo C) (tr_undo inner) (enc_undo C))
     else if path = ''/flow.v1.FlowService/MoveNode'' then unary (svc_unary (dec_move_node C) (tr_move_node inner) (enc_move_node C))
     else if path = ''/flow.v1.FlowService/CreateProject'' then unary (svc_unary (dec_create_project C) (tr_create_project inner) (enc_create_project C))
     else if path = ''/flow.v1.FlowService/UpdateProject'' then unary (svc_unary (dec_update_project C) (tr_update_project inner) (enc_update_project C))
     else if path = ''/flow.v1.FlowService/ArchiveProject'' then unary (svc_unary (dec_archive_project C) (tr_archive_project inner) (enc_archive_project C))
     else (Unimplemented, s))"

definition server_poll_ready :: "('e, 't) flow_service_server \<Rightarrow> string + unit" where
  "server_poll_ready sv = Inr ()"

section \<open>The client and its settings\<close>

text \<open>The client half wraps tonic's client, whose functions are the fields of an argument.\<close>

record ('ch, 'u, 'c, 'g) tonic_client =
  tc_new :: "'ch \<Rightarrow> 'g"
  tc_with_origin :: "'ch \<Rightarrow> 'u \<Rightarrow> 'g"
  tc_send_compressed :: "'c \<Rightarrow> 'g \<Rightarrow> 'g"
  tc_accept_compressed :: "'c \<Rightarrow> 'g \<Rightarrow> 'g"
  tc_max_decoding :: "nat \<Rightarrow> 'g \<Rightarrow> 'g"
  tc_max_encoding :: "nat \<Rightarrow> 'g \<Rightarrow> 'g"

record 'g flow_service_client =
  fc_inner :: 'g

definition new_client :: "('ch, 'u, 'c, 'g) tonic_client \<Rightarrow> 'ch \<Rightarrow> 'g flow_service_client" where
  "new_client T inner = (let inner = tc_new T inner in \<lparr>fc_inner = inner\<rparr>)"

definition client_connect ::
  "('ch, 'u, 'c, 'g) tonic_client \<Rightarrow> ('d \<Rightarrow> string + 'p) \<Rightarrow> ('p \<Rightarrow> string + 'ch) \<Rightarrow> 'd \<Rightarrow>
   string + 'g flow_service_client" where
  "client_connect T endpoint connect dst = (case endpoint dst of
     Inl e \<Rightarrow> Inl e
   | Inr p \<Rightarrow> (case connect p of Inl e \<Rightarrow> Inl e | Inr conn \<Rightarrow> Inr (new_client T conn)))"

definition client_with_origin :: "('ch, 'u, 'c, 'g) tonic_client \<Rightarrow> 'ch \<Rightarrow> 'u \<Rightarrow> 'g flow_service_client" where
  "client_with_origin T inner origin = (let inner = tc_with_origin T inner origin in \<lparr>fc_inner = inner\<rparr>)"

definition intercepted_client ::
  "('i, 'u, 'c, 'g) tonic_client \<Rightarrow> ('ch \<Rightarrow> 'f \<Rightarrow> 'i) \<Rightarrow> 'ch \<Rightarrow> 'f \<Rightarrow> 'g flow_service_client" where
  "intercepted_client T intercepted inner f = new_client T (intercepted inner f)"

definition client_send_compressed ::
  "('ch, 'u, 'c, 'g) tonic_client \<Rightarrow> 'c \<Rightarrow> 'g flow_service_client \<Rightarrow> 'g flow_service_client" where
  "client_send_compressed T c cl = cl\<lparr>fc_inner := tc_send_compressed T c (fc_inner cl)\<rparr>"

definition client_accept_compressed ::
  "('ch, 'u, 'c, 'g) tonic_client \<Rightarrow> 'c \<Rightarrow> 'g flow_service_client \<Rightarrow> 'g flow_service_client" where
  "client_accept_compressed T c cl = cl\<lparr>fc_inner := tc_accept_compressed T c (fc_inner cl)\<rparr>"

definition client_max_decoding ::
  "('ch, 'u, 'c, 'g) tonic_client \<Rightarrow> nat \<Rightarrow> 'g flow_service_client \<Rightarrow> 'g flow_service_client" where
  "client_max_decoding T limit cl = cl\<lparr>fc_inner := tc_max_decoding T limit (fc_inner cl)\<rparr>"

definition client_max_encoding ::
  "('ch, 'u, 'c, 'g) tonic_client \<Rightarrow> nat \<Rightarrow> 'g flow_service_client \<Rightarrow> 'g flow_service_client" where
  "client_max_encoding T limit cl = cl\<lparr>fc_inner := tc_max_encoding T limit (fc_inner cl)\<rparr>"

section \<open>The daemon's implementation\<close>

definition store_service :: "(string \<Rightarrow> db \<Rightarrow> string list res) \<Rightarrow> env \<Rightarrow> (edge, watch_request) flow_service" where
  "store_service fts E = \<lparr>
     tr_list_projects = grpc_list_projects,
     tr_get_snapshot = grpc_get_snapshot,
     tr_list_events = grpc_list_events,
     tr_search = grpc_search fts,
     tr_poll_changes = grpc_poll_changes,
     tr_watch = (\<lambda>r s. (Inr r, s)),
     tr_create_node = grpc_create_node E,
     tr_update_node = grpc_update_node E,
     tr_delete_node = grpc_delete_node E,
     tr_set_status = grpc_set_status E,
     tr_report_condition = grpc_report_condition E,
     tr_set_verdict = grpc_set_verdict E,
     tr_add_comment = grpc_add_comment E,
     tr_add_dependency = grpc_add_dependency E,
     tr_remove_dependency = grpc_remove_dependency E,
     tr_undo = grpc_undo E,
     tr_move_node = grpc_move_node E,
     tr_create_project = grpc_create_project E,
     tr_update_project = grpc_update_project E,
     tr_archive_project = grpc_archive_project E\<rparr>"

text \<open>The daemon installs a server with the default settings; tonic then only passes calls on.\<close>

definition plain_tonic :: "('e, 's, 'w) tonic_server" where
  "plain_tonic = \<lparr>ts_unary = (\<lambda>_ _ arm. arm), ts_streaming = (\<lambda>_ _ arm. arm)\<rparr>"

lemma watch_arm: "stream_arm dec (\<lambda>r s. (Inr r, s)) bad bs s = (svc_watch dec bad bs, s)"
  by (simp add: stream_arm_def svc_watch_def split: sum.splits)

lemma server_is_grpc_serve:
  assumes "fs_inner sv = store_service fts E"
  shows "server_call C dec_watch bad plain_tonic sv path bs s = grpc_serve C dec_watch fts E bad path bs s"
  unfolding server_call_def grpc_serve_def Let_def assms
  by (simp only: store_service_def plain_tonic_def flow_service.select_convs tonic_server.select_convs watch_arm
    svc_list_projects_def svc_get_snapshot_def svc_list_events_def svc_search_def
    svc_poll_changes_def svc_create_node_def svc_update_node_def
    svc_delete_node_def svc_set_status_def svc_report_condition_def svc_set_verdict_def
    svc_add_comment_def svc_add_dependency_def svc_remove_dependency_def svc_undo_def
    svc_move_node_def svc_create_project_def svc_update_project_def svc_archive_project_def map_prod_simp id_apply)

text \<open>
  No arm forgets the settings: a layer that refuses what is longer than the limit of the server
  refuses it for every method, before the handler sees it.
\<close>

definition size_guard :: "(nat \<Rightarrow> grpc_status) \<Rightarrow> ('e, 's, 'w) tonic_server" where
  "size_guard too_long = \<lparr>
     ts_unary = (\<lambda>_ sizes arm bs s. case fst sizes of
        Some l \<Rightarrow> if length bs > l then (Inl (too_long l), s) else arm bs s | None \<Rightarrow> arm bs s),
     ts_streaming = (\<lambda>_ sizes arm bs s. case fst sizes of
        Some l \<Rightarrow> if length bs > l then (Inl (too_long l), s) else arm bs s | None \<Rightarrow> arm bs s)\<rparr>"

lemma limit_guards_every_method:
  assumes "length bs > l"
  shows "server_call C dec_watch bad (size_guard too_long) (server_max_decoding l sv) path bs s
    \<in> {(UnaryReply (Inl (too_long l)), s), (StreamReply (Inl (too_long l)), s), (Unimplemented, s)}"
  using assms unfolding server_call_def Let_def size_guard_def server_max_decoding_def by (simp split: if_split)

lemma server_clone_id: "server_clone sv = sv"
  by (simp add: server_clone_def Let_def)

lemma paths_of_server: "service_path m = ''/'' @ server_name @ ''/'' @ m"
  by (simp add: service_path_def server_name_def)

end
