(* ===== verification/Store_Trait.thy ===== *)
theory Store_Trait
  imports Grpc_Service
begin

text \<open>
  The storage seam of the daemon: the trait \<open>Store\<close> (\<open>flowd/src/store/mod.rs\<close>), which the gRPC service
  holds behind \<open>DynStore\<close>, its implementation \<open>NativeStore\<close>, and the handlers over any implementation
  (\<open>flowd/src/grpc/mod.rs\<close>). The interface is the locale \<open>store_seam\<close>, interpreted for the native store.
\<close>

section \<open>The trait and its implementation\<close>

record 's store_trait =
  st_list_projects :: "bool \<Rightarrow> 's \<Rightarrow> pb_project list res \<times> 's"
  st_get_snapshot :: "string \<Rightarrow> 's \<Rightarrow> get_snapshot_response res \<times> 's"
  st_list_events :: "string \<Rightarrow> string \<Rightarrow> int \<Rightarrow> int \<Rightarrow> 's \<Rightarrow> (pb_event list \<times> bool) res \<times> 's"
  st_search :: "string \<Rightarrow> string \<Rightarrow> int \<Rightarrow> 's \<Rightarrow> pb_node list res \<times> 's"
  st_events_after :: "string \<Rightarrow> int \<Rightarrow> 's \<Rightarrow> pb_event list res \<times> 's"
  st_poll_changes :: "string \<Rightarrow> int \<Rightarrow> int \<Rightarrow> 's \<Rightarrow> poll_changes_response res \<times> 's"
  st_create_node :: "create_node_request \<Rightarrow> 's \<Rightarrow> mutation res \<times> 's"
  st_update_node :: "update_node_request \<Rightarrow> 's \<Rightarrow> mutation res \<times> 's"
  st_delete_node :: "delete_node_request \<Rightarrow> 's \<Rightarrow> mutation res \<times> 's"
  st_set_status :: "set_status_request \<Rightarrow> 's \<Rightarrow> mutation res \<times> 's"
  st_add_dependency :: "add_dependency_request \<Rightarrow> 's \<Rightarrow> mutation res \<times> 's"
  st_remove_dependency :: "remove_dependency_request \<Rightarrow> 's \<Rightarrow> mutation res \<times> 's"
  st_report_condition :: "report_condition_request \<Rightarrow> 's \<Rightarrow> mutation res \<times> 's"
  st_set_verdict :: "set_verdict_request \<Rightarrow> 's \<Rightarrow> mutation res \<times> 's"
  st_add_comment :: "add_comment_request \<Rightarrow> 's \<Rightarrow> mutation res \<times> 's"
  st_undo :: "undo_request \<Rightarrow> 's \<Rightarrow> mutation res \<times> 's"
  st_move_node :: "move_node_request \<Rightarrow> 's \<Rightarrow> mutation res \<times> 's"
  st_create_project :: "create_project_request \<Rightarrow> 's \<Rightarrow> pb_project res \<times> 's"
  st_update_project :: "update_project_request \<Rightarrow> 's \<Rightarrow> pb_project res \<times> 's"
  st_archive_project :: "archive_project_request \<Rightarrow> 's \<Rightarrow> pb_project res \<times> 's"
  st_subscribe :: "'s \<Rightarrow> nat"

text \<open>
  A subscription is the place in the channel from which the receiver reads. The native store runs its
  reads under the lock, its writes with \<open>write_pub!\<close>, and does not publish project writes.
\<close>

definition native_store :: "(string \<Rightarrow> db \<Rightarrow> string list res) \<Rightarrow> env \<Rightarrow> edge store_trait" where
  "native_store fts E = \<lparr>
     st_list_projects = native_list_projects, st_get_snapshot = native_get_snapshot,
     st_list_events = native_list_events, st_search = native_search fts,
     st_events_after = native_events_after, st_poll_changes = native_poll_changes,
     st_create_node = (\<lambda>r. write_pub E (WCreateNode r)),
     st_update_node = (\<lambda>r. write_pub E (WUpdateNode r)),
     st_delete_node = (\<lambda>r. write_pub E (WDeleteNode r)),
     st_set_status = (\<lambda>r. write_pub E (WSetStatus r)),
     st_add_dependency = (\<lambda>r. write_pub E (WAddDependency r)),
     st_remove_dependency = (\<lambda>r. write_pub E (WRemoveDependency r)),
     st_report_condition = (\<lambda>r. write_pub E (WReportCondition r)),
     st_set_verdict = (\<lambda>r. write_pub E (WSetVerdict r)),
     st_add_comment = (\<lambda>r. write_pub E (WAddComment r)),
     st_undo = (\<lambda>r. write_pub E (WUndo r)),
     st_move_node = (\<lambda>r. write_pub E (WMoveNode r)),
     st_create_project = (\<lambda>r. native_project E (WCreateProject r)),
     st_update_project = (\<lambda>r. native_project E (WUpdateProject r)),
     st_archive_project = (\<lambda>r. native_project E (WArchiveProject r)),
     st_subscribe = (\<lambda>s. length (e_sent s))\<rparr>"

section \<open>The handlers over any store\<close>

text \<open>The stream of a watch is what the request, the store and the subscription make of it, an argument here.\<close>

definition dyn_service ::
  "(watch_request \<Rightarrow> nat \<Rightarrow> 'w) \<Rightarrow> 's store_trait \<Rightarrow> ('s, 'w) flow_service" where
  "dyn_service stream st = \<lparr>
     tr_list_projects = (\<lambda>r s. respond (\<lambda>ps. \<lparr>lpr_projects = ps\<rparr>) (st_list_projects st (lp_include_archived r) s)),
     tr_get_snapshot = (\<lambda>r s. respond (\<lambda>x. x) (st_get_snapshot st (gs_project_id r) s)),
     tr_list_events = (\<lambda>r s. respond (\<lambda>(evs, more). \<lparr>ler_events = evs, ler_has_more = more\<rparr>)
       (st_list_events st (le_project_id r) (le_node_id r) (le_before_seq r) (le_limit r) s)),
     tr_search = (\<lambda>r s. respond (\<lambda>ns. \<lparr>srr_nodes = ns\<rparr>) (st_search st (sr_project_id r) (sr_query r) (sr_limit r) s)),
     tr_poll_changes = (\<lambda>r s. respond (\<lambda>x. x) (st_poll_changes st (pc_project_id r) (pc_after_seq r) (pc_limit r) s)),
     tr_watch = (\<lambda>r s. (Inr (stream r (st_subscribe st s)), s)),
     tr_create_node = (\<lambda>r s. respond (\<lambda>m. \<lparr>cnr_mutation = Some m\<rparr>) (st_create_node st r s)),
     tr_update_node = (\<lambda>r s. respond (\<lambda>m. \<lparr>unr_mutation = Some m\<rparr>) (st_update_node st r s)),
     tr_delete_node = (\<lambda>r s. respond (\<lambda>m. \<lparr>dnr_mutation = Some m\<rparr>) (st_delete_node st r s)),
     tr_set_status = (\<lambda>r s. respond (\<lambda>m. \<lparr>ssr_mutation = Some m\<rparr>) (st_set_status st r s)),
     tr_report_condition = (\<lambda>r s. respond (\<lambda>m. \<lparr>rcr_mutation = Some m\<rparr>) (st_report_condition st r s)),
     tr_set_verdict = (\<lambda>r s. respond (\<lambda>m. \<lparr>svr_mutation = Some m\<rparr>) (st_set_verdict st r s)),
     tr_add_comment = (\<lambda>r s. respond (\<lambda>m. \<lparr>acr_mutation = Some m\<rparr>) (st_add_comment st r s)),
     tr_add_dependency = (\<lambda>r s. respond (\<lambda>m. \<lparr>adr_mutation = Some m\<rparr>) (st_add_dependency st r s)),
     tr_remove_dependency = (\<lambda>r s. respond (\<lambda>m. \<lparr>rdr_mutation = Some m\<rparr>) (st_remove_dependency st r s)),
     tr_undo = (\<lambda>r s. respond (\<lambda>m. \<lparr>udr_mutation = Some m\<rparr>) (st_undo st r s)),
     tr_move_node = (\<lambda>r s. respond (\<lambda>m. \<lparr>mvr_mutation = Some m\<rparr>) (st_move_node st r s)),
     tr_create_project = (\<lambda>r s. respond (\<lambda>p. \<lparr>cpr_project = Some p\<rparr>) (st_create_project st r s)),
     tr_update_project = (\<lambda>r s. respond (\<lambda>p. \<lparr>upr_project = Some p\<rparr>) (st_update_project st r s)),
     tr_archive_project = (\<lambda>r s. respond (\<lambda>p. \<lparr>apr_project = Some p\<rparr>) (st_archive_project st r s))\<rparr>"

lemma dyn_service_native: "dyn_service (\<lambda>r _. r) (native_store fts E) = store_service fts E"
  by (simp add: dyn_service_def native_store_def store_service_def fun_eq_iff
    grpc_list_projects_def grpc_get_snapshot_def grpc_list_events_def grpc_search_def
    grpc_poll_changes_def grpc_create_node_def grpc_update_node_def grpc_delete_node_def
    grpc_set_status_def grpc_report_condition_def grpc_set_verdict_def grpc_add_comment_def
    grpc_add_dependency_def grpc_remove_dependency_def grpc_undo_def grpc_move_node_def
    grpc_create_project_def grpc_update_project_def grpc_archive_project_def)

section \<open>The contract\<close>

text \<open>What the service relies on: a read leaves the store as it is and a write keeps it good.\<close>

locale store_seam =
  fixes st :: "'s store_trait" and good :: "'s \<Rightarrow> bool"
  assumes reads: "snd (st_list_projects st b s) = s" "snd (st_get_snapshot st p s) = s"
      "snd (st_list_events st p i a l s) = s" "snd (st_search st p q l s) = s"
      "snd (st_events_after st p a s) = s" "snd (st_poll_changes st p a l s) = s"
    and writes:
      "good s \<Longrightarrow> good (snd (st_create_node st r0 s))"
      "good s \<Longrightarrow> good (snd (st_update_node st r1 s))"
      "good s \<Longrightarrow> good (snd (st_delete_node st r2 s))"
      "good s \<Longrightarrow> good (snd (st_set_status st r3 s))"
      "good s \<Longrightarrow> good (snd (st_add_dependency st r4 s))"
      "good s \<Longrightarrow> good (snd (st_remove_dependency st r5 s))"
      "good s \<Longrightarrow> good (snd (st_report_condition st r6 s))"
      "good s \<Longrightarrow> good (snd (st_set_verdict st r7 s))"
      "good s \<Longrightarrow> good (snd (st_add_comment st r8 s))"
      "good s \<Longrightarrow> good (snd (st_undo st r9 s))"
      "good s \<Longrightarrow> good (snd (st_move_node st r10 s))"
      "good s \<Longrightarrow> good (snd (st_create_project st r11 s))"
      "good s \<Longrightarrow> good (snd (st_update_project st r12 s))"
      "good s \<Longrightarrow> good (snd (st_archive_project st r13 s))"
begin

lemma respond_state: "snd (respond f x) = snd x"
  by (simp add: respond_def case_prod_beta)

lemma arm_keeps: "(\<And>r. good (snd (h r s))) \<Longrightarrow> good s \<Longrightarrow> good (snd (svc_unary dec h enc bad bs s))"
  by (simp add: svc_unary_def case_prod_beta split: sum.split)

text \<open>No request, whatever its path and its bytes, takes the store out of its good states.\<close>

lemma server_keeps:
  assumes "fs_inner sv = dyn_service stream st" "good s"
  shows "good (snd (server_call C dec_watch bad plain_tonic sv path bs s))"
proof -
  note arms = arm_keeps [of _ s, OF _ assms(2)]
  show ?thesis
    unfolding server_call_def Let_def assms(1) plain_tonic_def
    by (simp add: dyn_service_def stream_arm_def snd_map_prod assms(2) arms respond_state reads writes split: sum.split)
qed

end

lemma native_reads: "snd (native_read q s) = s"
  by (simp add: native_read_def)

lemma native_writes: "edge_inv s \<Longrightarrow> edge_inv (snd (write_pub E w s))"
  by (rule edge_steps_inv [OF write_pub_steps])

lemma native_projects: "edge_inv s \<Longrightarrow> edge_inv (snd (native_project E w s))"
  by (cases "project_op E w (e_conn s)") (auto simp: native_project_def edge_inv_def intro: project_keeps)

interpretation native: store_seam "native_store fts E" edge_inv for fts E
  by unfold_locales (simp_all add: native_store_def native_reads native_writes native_projects native_read_defs)

text \<open>Hence any sequence of requests to the daemon's server, malformed ones included, keeps its data valid.\<close>

lemma requests_keep:
  assumes "edge_inv s"
  shows "edge_inv (fold (\<lambda>(path, bs) s. snd (server_call C dec_watch bad plain_tonic
    (new_server none (dyn_service stream (native_store fts E))) path bs s)) rs s)"
  using assms
proof (induction rs arbitrary: s)
  case (Cons r rs)
  have "fs_inner (new_server none (dyn_service stream (native_store fts E))) = dyn_service stream (native_store fts E)"
    by (simp add: new_server_def from_arc_def)
  from native.server_keeps [OF this Cons.prems]
  show ?case using Cons.IH by (simp add: case_prod_beta)
qed simp

end
