(* ===== verification/Silo.thy ===== *)
theory Silo
  imports Replica Native_Store
begin

text \<open>
  Projects as silos. The protocol says that dependency edges never cross projects; where they and the
  parent links do not, a write touches one project only, the one its events name. The lemmas show
  this for every write but \<open>Undo\<close>.
\<close>

section \<open>Siloed databases\<close>

definition links :: "db \<Rightarrow> (string \<times> string) set" where
  "links d = set (dep_edges d) \<union> set (parent_edges d)"

definition siloed :: "db \<Rightarrow> bool" where
  "siloed d \<longleftrightarrow> (\<forall>(a, b) \<in> set (dep_edges d @ parent_edges d).
     case (find_node d a, find_node d b) of (Some x, Some y) \<Rightarrow> n_project_id x = n_project_id y | _ \<Rightarrow> True)"

text \<open>The part of a copy that belongs to one project.\<close>

definition project_copy :: "string \<Rightarrow> (string \<Rightarrow> pb_node option) \<Rightarrow> string \<Rightarrow> pb_node option" where
  "project_copy p V i = (case V i of None \<Rightarrow> None | Some n \<Rightarrow> if nd_project_id n = p then Some n else None)"

text \<open>A write is confined when only the project of its event looks different afterwards.\<close>

definition confined :: "db \<Rightarrow> db \<Rightarrow> mutation \<Rightarrow> bool" where
  "confined d d' m \<longleftrightarrow> (case mu_events m of
     [] \<Rightarrow> view d' = view d
   | e # es \<Rightarrow> \<forall>q. q \<noteq> ev_project_id e \<longrightarrow> project_copy q (view d') = project_copy q (view d))"

definition owned :: "db \<Rightarrow> string \<Rightarrow> string \<Rightarrow> bool" where
  "owned d p i \<longleftrightarrow> (\<forall>n. find_node d i = Some n \<longrightarrow> n_project_id n = p)"

lemma siloedD:
  assumes "siloed d" "(a, b) \<in> links d" "find_node d a = Some x"
  shows "owned d (n_project_id x) b"
  using assms by (force simp: siloed_def links_def owned_def)

lemma confinedI:
  assumes "mu_events m = e # es" "ev_project_id e = p"
    and "\<And>i. view d' i \<noteq> view d i \<Longrightarrow> owned d p i \<and> owned d' p i"
  shows "confined d d' m"
proof -
  have "project_copy q (view d') i = project_copy q (view d) i" if "q \<noteq> p" for q i
    using assms(3) [of i] that
    by (cases "view d' i = view d i") (auto simp: project_copy_def view_def owned_def split: option.split)
  then show ?thesis by (auto simp: confined_def assms(1,2))
qed

lemma confined_nothing: "mu_events m = [] \<Longrightarrow> confined d d m"
  by (simp add: confined_def)

lemma confined_retry: "confined d d (empty_mutation q)"
  by (rule confined_nothing) (simp add: empty_mutation_def)

text \<open>The project of a row is fixed, so it is enough to look at the rows before the write.\<close>

lemma confined_rows:
  assumes "mu_events m = e # es" "ev_project_id e = p"
    and "\<And>i y. find_node d' i = Some y \<Longrightarrow> \<exists>x. find_node d i = Some x \<and> n_project_id y = n_project_id x"
    and "\<And>i. view d' i \<noteq> view d i \<Longrightarrow> owned d p i"
  shows "confined d d' m"
proof (rule confinedI [OF assms(1,2)])
  fix i assume "view d' i \<noteq> view d i"
  then have "owned d p i" by (rule assms(4))
  then show "owned d p i \<and> owned d' p i" using assms(3) by (force simp: owned_def)
qed

lemma told_changed: "tells_all parse d d' m \<Longrightarrow> view d' i \<noteq> view d i \<Longrightarrow>
    i \<in> nd_id ` set (mu_changed_nodes m) \<or> i \<in> set (deleted_ids parse m)"
  by (auto simp: tells_all_def)

lemma nodes_of_ids: "nd_id ` set (nodes_of d is) \<subseteq> set is"
proof -
  have "set (firsts [] is) \<subseteq> set is" by (simp add: set_firsts)
  then show ?thesis by (auto simp: nodes_of_def List.map_filter_def dest: find_node_SomeD split: option.splits)
qed

lemma told_ids:
  assumes "tells_all parse d d' m" "mu_changed_nodes m = nodes_of d' is" "deleted_ids parse m = []" "view d' i \<noteq> view d i"
  shows "i \<in> set is"
  using told_changed [OF assms(1,4)] nodes_of_ids [of d' "is"] by (auto simp: assms(2,3))

section \<open>Write by write\<close>

text \<open>Writes that touch one node.\<close>

lemma one_node_confined:
  assumes "tells_all parse d d' m" "m = mutation_of (n_project_id n) [event_msg e] [i] d'" "find_node d i = Some n"
    and "e_project_id e = n_project_id n" "e_kind e \<noteq> ''NODE_DELETED''" "event_kind_ok (e_kind e)"
    and "\<And>i y. find_node d' i = Some y \<Longrightarrow> \<exists>x. find_node d i = Some x \<and> n_project_id y = n_project_id x"
  shows "confined d d' m"
proof (rule confined_rows [OF _ _ assms(7)])
  show "mu_events m = [event_msg e]" "ev_project_id (event_msg e) = n_project_id n" by (simp_all add: assms(2,4))
  fix j assume "view d' j \<noteq> view d j"
  then have "j \<in> set [i]"
    using told_ids [OF assms(1), of "[i]"] one_event_row [of m e] assms(2,5,6) by simp
  then show "owned d (n_project_id n) j" using assms(3) by (simp add: owned_def)
qed

lemma update_node_confined:
  assumes "db_inv d" "update_node_locked E req (idle d) = (Inr m, c')"
  shows "confined d (live c') m"
  using keyed_nodes(1) assms(2)
proof (cases rule: node_target)
  case (retry q)
  then show ?thesis by (simp add: confined_retry)
next
  case (fresh n)
  let ?i = "un_node_id req" and ?f = "masked req (set (un_update_mask req))"
  obtain d' e where run: "c' = idle d'" "e_kind e = ''NODE_UPDATED''" "e_project_id e = n_project_id n"
      "m = mutation_of (n_project_id n) [event_msg e] [?i] d'"
    and nodes: "nodes d' = map (\<lambda>x. if n_id x = ?i then (?f x)\<lparr>n_updated_at := clock E\<rparr> else x) (nodes d)"
    using update_node_run [OF assms fresh] by (elim exE conjE) (rule that)
  have "find_node d' = find_node (put_node E ?i ?f d)"
    by (rule same_nodes_verifications) (simp add: nodes put_node_def)
  moreover have "keeps_id ?f" by (simp add: keeps_id_def)
  ultimately have "\<exists>x. find_node d i = Some x \<and> n_project_id y = n_project_id x" if "find_node d' i = Some y" for i y
    using that by (auto simp: find_put_node split: if_splits)
  then show ?thesis
    using one_node_confined [OF _ run(4) fresh(1) run(3)] update_node_tells_all [OF assms] run(1,2)
    by (simp add: event_kind_ok_def)
qed

lemma review_confined:
  assumes "tells_all parse d d' m" "m = mutation_of (n_project_id n) [event_msg e] [i] d'" "find_node d i = Some n"
    and "e_project_id e = n_project_id n" "e_kind e \<noteq> ''NODE_DELETED''" "event_kind_ok (e_kind e)" "nodes d' = nodes d"
  shows "confined d d' m"
  by (rule one_node_confined [OF assms(1-6)]) (simp add: same_nodes_verifications [OF assms(7)])

lemma report_condition_confined:
  assumes "db_inv d" "report_condition_locked E req (idle d) = (Inr m, c')"
  shows "confined d (live c') m"
  using keyed_review(1) assms(2)
proof (cases rule: node_target)
  case (retry q)
  then show ?thesis by (simp add: confined_retry)
next
  case (fresh n)
  obtain d' e where "c' = idle d'" "nodes d' = nodes d" "e_kind e = ''AGENT_REPORTED''" "e_project_id e = n_project_id n"
      "m = mutation_of (n_project_id n) [event_msg e] [rc_node_id req] d'"
    using report_condition_run [OF assms fresh] by (elim exE conjE) (rule that)
  then show ?thesis
    using review_confined [OF report_condition_tells_all [OF assms] _ fresh(1)] by (simp add: event_kind_ok_def)
qed

lemma set_verdict_confined:
  assumes "db_inv d" "set_verdict_locked E req (idle d) = (Inr m, c')"
  shows "confined d (live c') m"
  using keyed_review(2) assms(2)
proof (cases rule: node_target)
  case (retry q)
  then show ?thesis by (simp add: confined_retry)
next
  case (fresh n)
  obtain d' e where "c' = idle d'" "nodes d' = nodes d" "e_kind e = ''VERDICT_SET''" "e_project_id e = n_project_id n"
      "m = mutation_of (n_project_id n) [event_msg e] [sv_node_id req] d'"
    using set_verdict_run [OF assms fresh] by (elim exE conjE) (rule that)
  then show ?thesis
    using review_confined [OF set_verdict_tells_all [OF assms] _ fresh(1)] by (simp add: event_kind_ok_def)
qed

lemma add_comment_confined:
  assumes "db_inv d" "add_comment_locked E req (idle d) = (Inr m, c')"
  shows "confined d (live c') m"
  using assms(1,2) [unfolded add_comment_locked_def Let_def]
proof (cases rule: node_write_outcome)
  case (retry n seq)
  then show ?thesis by (simp add: confined_retry)
next
  case (fresh n)
  let ?e = "event_entry E (n_project_id n) (ac_node_id req) ''COMMENT''
      (author_of (ac_meta req)) (comment_summary (ac_text req))
      (json_text E (comment_payload (ac_text req) (author_of (ac_meta req))))"
  have safe: "safe_body (sm_return () :: (db, unit) sm)" by (rule safe_body_return)
  show ?thesis
  proof (rule logged_write_outcome [OF safe assms(1) fresh(3) [unfolded add_comment_write]])
    fix d1 d'
    assume "sm_return () (within d d) = (Inr (), within d d1)"
      and d': "d' = log_tail E (nd_project_id (node_msg d n)) (ac_node_id req) ''COMMENT'' (author_of (ac_meta req))
        (comment_summary (ac_text req)) (json_text E (comment_payload (ac_text req) (author_of (ac_meta req))))
        (idem_key (ac_meta req)) d1"
      and c': "c' = idle d'" and m: "m = mutation_of (nd_project_id (node_msg d n)) [event_msg (event_entry E
        (nd_project_id (node_msg d n)) (ac_node_id req) ''COMMENT'' (author_of (ac_meta req)) (comment_summary (ac_text req))
        (json_text E (comment_payload (ac_text req) (author_of (ac_meta req)))) d1)] [ac_node_id req] d'"
    then have "d1 = d" by (simp add: sm_return_def within_def)
    moreover have "same_graph d1 d'" by (simp add: d')
    ultimately have "nodes d' = nodes d" by (simp add: same_graph_def)
    with review_confined [OF add_comment_tells_all [OF assms] _ fresh(1), of "?e d1"] m
    show "confined d (live c') m" by (simp add: c' event_kind_ok_def)
  qed
qed

text \<open>A new node is of the project of its event.\<close>

lemma create_node_confined:
  assumes "db_inv d" "create_node_locked E req (idle d) = (Inr m, c')"
  shows "confined d (live c') m"
proof (cases "ledger_hit d (cn_project_id req) (idem_key (cn_meta req))")
  case (Some q)
  then show ?thesis using create_node_retry [OF assms(2)] by (simp add: confined_nothing)
next
  case None
  from assms None show ?thesis
  proof (cases rule: create_node_outcome)
    case (1 i d')
    let ?n = "new_node_row E req i"
    have new: "find_node d i = None"
      using 1(2) by (auto simp: insert_node_def new_node_row_def find_node_None split: option.splits if_splits)
    have nodes: "nodes d' = nodes d @ [?n]" by (simp add: 1(3))
    have row: "find_node d' i = Some ?n"
      using new by (simp add: find_node_def nodes find_append new_node_row_def)
    have told: "tells_all (\<lambda>_. None) d d' m" using create_node_tells_all [OF assms] by (simp add: 1(5))
    have "confined d d' m"
    proof (rule confinedI)
      fix j assume "view d' j \<noteq> view d j"
      then have "j \<in> set [i]"
        by (rule told_ids [OF told, of "[i]", rotated 2]) (simp add: 1(6), rule one_event [of m], simp add: 1(6),
          simp_all add: event_kind_ok_def)
      then show "owned d (cn_project_id req) j \<and> owned d' (cn_project_id req) j"
        using new row by (simp add: owned_def new_node_row_def)
    qed (simp add: 1(6), simp)
    then show ?thesis by (simp add: 1(5))
  qed
qed

section \<open>Writes that follow links\<close>

lemma set_status_confined:
  assumes "db_inv d" "siloed d" "set_status_locked E req (idle d) = (Inr m, c')"
  shows "confined d (live c') m"
  using assms(1,3)
proof (cases rule: set_status_outcome)
  case (retry n seq)
  then show ?thesis by (simp add: confined_retry)
next
  case (fresh n d1 d')
  let ?i = "ss_node_id req"
  have "same_graph d1 d'" using fresh(4) by simp
  from same_graph_msg(1) [OF this] have rows: "find_node d' = find_node d1" .
  have told: "tells_all (\<lambda>_. None) d d' m" using set_status_tells_all [OF assms(1,3)] by (simp add: fresh(6))
  have "confined d d' m"
  proof (rule confined_rows)
    fix j assume "view d' j \<noteq> view d j"
    then have "j \<in> set (?i # blocks d ?i)"
      by (rule told_ids [OF told, of "?i # blocks d ?i", rotated 2]) (simp add: fresh(7), rule one_event [of m], simp add: fresh(7),
        simp_all add: event_kind_ok_def)
    then have "j = ?i \<or> (?i, j) \<in> links d" by (auto simp: set_blocks links_def)
    then show "owned d (n_project_id n) j"
      using siloedD [OF assms(2) _ fresh(1)] fresh(1) by (auto simp: owned_def)
  next
    fix j y assume "find_node d' j = Some y"
    then show "\<exists>x. find_node d j = Some x \<and> n_project_id y = n_project_id x"
      by (auto simp: rows fresh(3) find_put_node split: if_splits)
  qed (simp add: fresh(7), simp)
  then show ?thesis by (simp add: fresh(6))
qed

lemma edge_owned:
  assumes "db_inv d" "siloed d" "(a, b) \<in> set (dep_edges d)"
  shows "owned d (edge_project d a) b"
proof -
  have "a \<in> node_ids d" using assms(1,3) unfolding db_inv_def deps_inv_def by (auto simp: dep_edges_iff)
  then obtain x where "find_node d a = Some x" using node_ids_find by blast
  then show ?thesis using siloedD [OF assms(2), of a b x] assms(3) by (simp add: edge_project_def links_def)
qed

lemma insert_dependency_edge: "insert_dependency E a b d = Inr (x, d') \<Longrightarrow> (a, b) \<in> set (dep_edges d')"
  by (auto simp: insert_dependency_def dep_guard_None dep_edges_iff split: option.splits if_splits)

text \<open>The new edge is one of the database after the write.\<close>

lemma add_dependency_confined:
  assumes "db_inv d" "siloed (live c')" "add_dependency_locked E req (idle d) = (Inr m, c')"
  shows "confined d (live c') m"
  using assms(1,3)
proof (cases rule: add_dependency_outcome)
  case (retry seq)
  then show ?thesis by (simp add: confined_retry)
next
  case (fresh d1 d')
  let ?a = "ad_blocker_id req" and ?b = "ad_blocked_id req"
  have same: "same_graph d1 d'" using fresh(3) by simp
  have d1: "nodes d1 = nodes d" "(?a, ?b) \<in> set (dep_edges d1)"
    using insert_dependency_cases [OF fresh(2)] insert_dependency_edge [OF fresh(2)] by auto
  have rows: "find_node d' = find_node d"
    using same_graph_msg(1) [OF same] same_nodes_verifications [OF d1(1)] by simp
  have "siloed d'" using assms(2) by (simp add: fresh(5))
  moreover have "(?a, ?b) \<in> set (dep_edges d')" using d1(2) same by (simp add: same_graph_def dep_edges_def)
  ultimately have owned: "owned d (edge_project d ?a) ?b"
    using edge_owned [OF fresh(4), of ?a ?b] by (simp add: owned_def edge_project_def rows)
  have told: "tells_all (\<lambda>_. None) d d' m" using add_dependency_tells_all [OF assms(1,3)] by (simp add: fresh(5))
  have "confined d d' m"
  proof (rule confined_rows)
    fix j assume "view d' j \<noteq> view d j"
    then have "j \<in> set [?b]"
      by (rule told_ids [OF told fresh(6), rotated]) (rule one_event [OF fresh(8)], simp_all add: event_kind_ok_def)
    then show "owned d (edge_project d ?a) j" using owned by simp
  qed (rule fresh(8), simp_all add: rows)
  then show ?thesis by (simp add: fresh(5))
qed

lemma remove_dependency_confined:
  assumes "db_inv d" "siloed d" "remove_dependency_locked E req (idle d) = (Inr m, c')"
  shows "confined d (live c') m"
  using assms(1,3)
proof (cases rule: remove_dependency_outcome)
  case (retry seq)
  then show ?thesis by (simp add: confined_retry)
next
  case (fresh d1 d')
  let ?a = "rd_blocker_id req" and ?b = "rd_blocked_id req"
  have same: "same_graph d1 d'" using fresh(3) by simp
  have d1: "nodes d1 = nodes d" using fresh(2) by (auto simp: delete_dependency_def)
  have rows: "find_node d' = find_node d"
    using same_graph_msg(1) [OF same] same_nodes_verifications [OF d1] by simp
  have told: "tells_all (\<lambda>_. None) d d' m" using remove_dependency_tells_all [OF assms(1,3)] by (simp add: fresh(5))
  have "confined d d' m"
  proof (rule confined_rows)
    fix j assume diff: "view d' j \<noteq> view d j"
    then have j: "j \<in> set [?b]"
      by (rule told_ids [OF told fresh(6), rotated]) (rule one_event [OF fresh(8)], simp_all add: event_kind_ok_def)
    have "(?a, ?b) \<in> set (dep_edges d)"
    proof (rule ccontr)
      assume "\<not> ?thesis"
      then have "d1 = d" using fresh(2) by (auto simp: delete_dependency_def dep_edges_iff intro!: filter_True)
      then show False using diff view_same_graph [OF same] by simp
    qed
    then show "owned d (edge_project d ?a) j"
      using edge_owned [OF assms(1,2), of ?a ?b] j by simp
  qed (rule fresh(8), simp_all add: rows)
  then show ?thesis by (simp add: fresh(5))
qed

text \<open>What lies below a node is of its project.\<close>

lemma parent_edge_rows: "(a, b) \<in> set (parent_edges d) \<Longrightarrow> b \<in> node_ids d"
  by (auto simp: parent_edges_def List.map_filter_def node_ids_def)

lemma below_owned:
  assumes "siloed d" "find_node d i = Some n" "(i, j) \<in> (set (parent_edges d))\<^sup>*"
  shows "\<exists>x. find_node d j = Some x \<and> n_project_id x = n_project_id n"
  using assms(3)
proof (induction rule: rtrancl_induct)
  case (step b c)
  then obtain x where x: "find_node d b = Some x" "n_project_id x = n_project_id n" by blast
  obtain y where "find_node d c = Some y" using parent_edge_rows [OF step(2)] node_ids_find by blast
  then show ?case using siloedD [OF assms(1), of b c x] x step(2) by (simp add: links_def owned_def)
qed (use assms(2) in simp)

lemma delete_node_confined:
  assumes "db_inv d" "siloed d" "delete_node_locked E req (idle d) = (Inr m, c')"
  shows "confined d (live c') m"
  using assms(1,3)
proof (cases rule: delete_node_outcome)
  case (retry n seq)
  then show ?thesis by (simp add: confined_retry)
next
  case (fresh n d' es)
  let ?s = "subtree d (dn_node_id req)"
  have keys: "keys_inv d" using assms(1) by (simp add: db_inv_def)
  have rows: "find_node d' = find_node (drop_nodes ?s d)" by (rule same_graph_msg(1) [OF fresh(3)])
  have below: "\<exists>x. find_node d j = Some x \<and> n_project_id x = n_project_id n" if "j \<in> set ?s" for j
    using below_owned [OF assms(2) fresh(1)] that sql_union.reach_set [of "parent_edges d" "dn_node_id req"] by (simp add: subtree_def)
  obtain e es' where es: "es = e # es'" using fresh(8) by (cases es) auto
  have "confined d d' m"
  proof (rule confined_rows)
    show "mu_events m = event_msg e # map event_msg es'" by (simp add: fresh(9) es)
    show "ev_project_id (event_msg e) = n_project_id n" using fresh(7) by (simp add: es is_deletion_def)
    show "\<exists>x. find_node d j = Some x \<and> n_project_id y = n_project_id x" if "find_node d' j = Some y" for j y
      using that by (auto simp: rows find_node_drop [OF keys] split: if_splits)
    fix j assume diff: "view d' j \<noteq> view d j"
    have "j \<in> set ?s \<or> (\<exists>b \<in> set ?s. (b, j) \<in> set (dep_edges d))"
      using diff drop_view [OF keys, of j ?s] view_same_graph [OF fresh(3)] by auto
    then show "owned d (n_project_id n) j"
    proof
      assume "j \<in> set ?s"
      then show ?thesis using below [of j] by (auto simp: owned_def)
    next
      assume "\<exists>b \<in> set ?s. (b, j) \<in> set (dep_edges d)"
      then obtain b where b: "b \<in> set ?s" "(b, j) \<in> links d" by (auto simp: links_def)
      obtain x where x: "find_node d b = Some x" "n_project_id x = n_project_id n" using below [OF b(1)] by blast
      show ?thesis using siloedD [OF assms(2) b(2) x(1)] x(2) by simp
    qed
  qed
  then show ?thesis by (simp add: fresh(5))
qed

lemma step_edges: "x \<in> set (moved_steps d n req) \<Longrightarrow> (n_id n, x) \<in> set (parent_edges d)"
  by (auto simp: moved_steps_def parent_edges_def List.map_filter_def image_iff split: if_splits)

lemma move_node_confined:
  assumes "db_inv d" "siloed d" "move_node_locked E req (idle d) = (Inr m, c')"
  shows "confined d (live c') m"
  using assms(1,3)
proof (cases rule: move_node_outcome)
  case (retry n seq)
  then show ?thesis by (simp add: confined_retry)
next
  case (fresh n d' pos "is")
  let ?gone = "moved_steps d n req"
  have keys: "keys_inv d" using assms(1) by (simp add: db_inv_def)
  have n: "n_id n = mv_node_id req" using find_node_SomeD [OF fresh(1)] by simp
  obtain es e where ev: "mu_events m = es @ [event_msg e]" "tells_deleted E (n_project_id n) ?gone es"
      "e_project_id e = n_project_id n" using fresh(12) by blast
  obtain e1 es1 where first: "mu_events m = e1 # es1" "ev_project_id e1 = n_project_id n"
    using ev by (cases es) (auto simp: tells_deleted_def is_deletion_def)
  have gone: "\<exists>x. find_node d j = Some x \<and> n_project_id x = n_project_id n" if "j \<in> set ?gone" for j
    using below_owned [OF assms(2) fresh(1)] step_edges [OF that] n by auto
  have "confined d d' m"
  proof (rule confined_rows [OF first])
    show "\<exists>x. find_node d j = Some x \<and> n_project_id y = n_project_id x" if "find_node d' j = Some y" for j y
      using that placed_find [OF fresh(6)] by (auto simp: find_node_drop [OF keys] placed_def split: if_splits)
    fix j assume "view d' j \<noteq> view d j"
    then consider "j \<in> set ?gone" | "j = mv_node_id req" | b where "b \<in> set ?gone" "(b, j) \<in> set (dep_edges d)"
      using moved_view [OF fresh(6-8) keys] by blast
    then show "owned d (n_project_id n) j"
    proof cases
      case 3
      then obtain x where "find_node d b = Some x" "n_project_id x = n_project_id n" using gone by blast
      then show ?thesis using siloedD [OF assms(2), of b j x] 3(2) by (simp add: links_def)
    qed (use gone [of j] fresh(1) in \<open>auto simp: owned_def\<close>)
  qed
  then show ?thesis by (simp add: fresh(4))
qed

lemma write_confined:
  assumes "db_inv d" "siloed d" "siloed (live c')" "write_op E w (idle d) = (Inr m, c')" "\<And>r. w \<noteq> WUndo r"
  shows "confined d (live c') m"
  using assms
  by (cases w) (auto intro: create_node_confined update_node_confined delete_node_confined set_status_confined
      add_dependency_confined remove_dependency_confined report_condition_confined set_verdict_confined
      add_comment_confined move_node_confined)

end
