(* ===== verification/Watch_Copy.thy ===== *)
theory Watch_Copy
  imports Silo Replica_Props Read_Props Watch
begin

text \<open>
  The copy a watcher keeps. It starts from a snapshot of its project and applies what the stream
  sends it; as long as no link crosses projects, it then has the nodes of its project exactly. An
  edge that does cross, which the store accepts, takes its project's watchers the news away.
\<close>

section \<open>A watcher's copy\<close>

text \<open>What a message of the stream tells, in the shape of a mutation.\<close>

definition told :: "watch_response \<Rightarrow> mutation" where
  "told r = \<lparr>mu_events = wtr_events r, mu_changed_nodes = wtr_changed_nodes r,
     mu_changed_progress = wtr_changed_progress r, mu_seq = wtr_seq r\<rparr>"

definition copy_of :: "pb_node list \<Rightarrow> string \<Rightarrow> pb_node option" where
  "copy_of ns i = find (\<lambda>n. nd_id n = i) ns"

definition apply_stream ::
  "(string \<Rightarrow> json option) \<Rightarrow> watch_response list \<Rightarrow> (string \<Rightarrow> pb_node option) \<Rightarrow> string \<Rightarrow> pb_node option" where
  "apply_stream parse rs = fold (\<lambda>r. patch parse (told r)) rs"

text \<open>A property of the database all along a session.\<close>

fun all_along :: "(db \<Rightarrow> bool) \<Rightarrow> (env \<times> write_request) list \<Rightarrow> db conn \<Rightarrow> bool" where
  "all_along P [] c = P (live c)"
| "all_along P ((E, w) # ws) c = (P (live c) \<and> all_along P ws (snd (write_op E w c)))"

lemma all_along_now: "all_along P ws c \<Longrightarrow> P (live c)"
  by (cases ws) auto

lemma find_filtered:
  "distinct (map f xs) \<Longrightarrow> find (\<lambda>x. f x = i) (filter P xs) =
    (case find (\<lambda>x. f x = i) xs of None \<Rightarrow> None | Some x \<Rightarrow> if P x then Some x else None)"
proof (induction xs)
  case (Cons a xs)
  then have "find (\<lambda>x. f x = i) xs = None" if "f a = i" using Cons.prems that by (fastforce simp: find_None_iff image_iff)
  then show ?case using Cons by (auto split: option.split)
qed simp

lemma find_mapped: "find P (map f xs) = map_option f (find (P \<circ> f) xs)"
  by (induction xs) auto

lemma snapshot_copy:
  assumes "db_inv d"
  shows "copy_of (gsr_nodes (snapshot_of p d)) = project_copy p (view d)"
proof
  fix i
  have "distinct (map n_id (nodes d))" using assms by (simp add: inv_defs)
  from find_filtered [OF this, of i "\<lambda>n. n_project_id n = p"]
  show "copy_of (gsr_nodes (snapshot_of p d)) i = project_copy p (view d) i"
    by (simp add: copy_of_def snapshot_of_def project_nodes_def project_copy_def view_def find_mapped comp_def
        find_node_def split: option.split)
qed

lemma patch_project:
  assumes "project_copy p V = project_copy p W"
  shows "project_copy p (patch parse m V) = project_copy p (patch parse m W)"
proof
  fix i
  show "project_copy p (patch parse m V) i = project_copy p (patch parse m W) i"
    using fun_cong [OF assms, of i] by (simp add: project_copy_def patch_def split: option.split)
qed

lemma patch_published:
  assumes "n \<in> set (publish m)"
  shows "patch parse (told (live_response n)) = patch parse m"
  using assms
  by (auto simp: fun_eq_iff patch_def deleted_ids_def told_def live_response_def publish_def split: list.splits)

lemma patch_heartbeat: "patch parse (told heartbeat_response) V = V"
  by (simp add: fun_eq_iff patch_def told_def heartbeat_response_def deleted_ids_def List.map_filter_def)

lemma stream_fold:
  assumes "undisturbed ts"
  shows "apply_stream parse (watch_live p ts) V =
    apply_stream parse (map live_response (filter (\<lambda>n. nt_project_id n = p) (received ts))) V"
  using assms
  by (induction p ts arbitrary: V rule: watch_live.induct)
    (auto simp: undisturbed_def apply_stream_def patch_heartbeat)

text \<open>One write: its notification brings the watchers of its project up to date, and no others need it.\<close>

lemma published_exact:
  assumes "tells_all parse d d' m" "confined d d' m" "project_copy p V = project_copy p (view d)"
  shows "project_copy p (apply_stream parse (map live_response (filter (\<lambda>n. nt_project_id n = p) (publish m))) V) =
    project_copy p (view d')"
proof (cases "mu_events m")
  case Nil
  then show ?thesis using assms(2,3) by (simp add: confined_def publish_def apply_stream_def)
next
  case (Cons e es)
  then obtain n where n: "publish m = [n]" "nt_project_id n = ev_project_id e" by (simp add: publish_def)
  show ?thesis
  proof (cases "ev_project_id e = p")
    case True
    have "project_copy p (patch parse m V) = project_copy p (patch parse m (view d))"
      by (rule patch_project [OF assms(3)])
    then show ?thesis using patch_published [of n m parse] patch_exact [OF assms(1)] n True by (simp add: apply_stream_def)
  next
    case False
    then show ?thesis using assms(2,3) n Cons by (simp add: confined_def apply_stream_def)
  qed
qed

lemma session_exact:
  assumes "db_inv d" "run_writes ws (idle d) = (ms, c')" "project_copy p V = project_copy p (view d)"
    and "\<forall>(E, w) \<in> set ws. json_codec E \<and> json_parse E = parse \<and> commit_error E = None \<and> (\<forall>r. w \<noteq> WUndo r)"
    and "all_along siloed ws (idle d)"
  shows "db_inv (live c') \<and> project_copy p (apply_stream parse (map live_response (filter (\<lambda>n. nt_project_id n = p)
    (concat (map publish ms)))) V) = project_copy p (view (live c'))"
  using assms
proof (induction ws arbitrary: d ms V)
  case Nil
  then show ?case by (auto simp: apply_stream_def)
next
  case (Cons x ws)
  obtain E w where x: "x = (E, w)" by (cases x)
  have E: "json_codec E" "json_parse E = parse" "commit_error E = None" "\<And>r. w \<noteq> WUndo r"
    using Cons.prems(4) by (simp_all add: x)
  obtain r c1 where run: "write_op E w (idle d) = (r, c1)" by fastforce
  obtain d1 where d1: "c1 = idle d1" "db_inv d1" "isl r \<longrightarrow> d1 = d"
    using settled_write [OF E(3) Cons.prems(1) run] by blast
  have silo: "siloed d" "all_along siloed ws (idle d1)" using Cons.prems(5) run d1(1) by (simp_all add: x)
  have rest: "\<forall>(E, w) \<in> set ws. json_codec E \<and> json_parse E = parse \<and> commit_error E = None \<and> (\<forall>r. w \<noteq> WUndo r)"
    using Cons.prems(4) by simp
  show ?case
  proof (cases r)
    case (Inl e)
    then show ?thesis using Cons.IH [OF d1(2) _ _ rest silo(2)] Cons.prems(2,3) d1 run by (simp add: x)
  next
    case (Inr m)
    then obtain ms1 where ms: "run_writes ws (idle d1) = (ms1, c')" "ms = m # ms1"
      using Cons.prems(2) run by (auto simp: x d1(1) split: prod.splits)
    have told: "tells_all parse d d1 m"
      using write_tells_all [OF Cons.prems(1) E(1) run [unfolded Inr] E(4)] by (simp add: E(2) d1(1))
    have "confined d d1 m"
      using write_confined [OF Cons.prems(1) silo(1) _ run [unfolded Inr] E(4)] all_along_now [OF silo(2)] by (simp add: d1(1))
    note now = published_exact [OF told this Cons.prems(3)]
    show ?thesis using Cons.IH [OF d1(2) ms(1) now rest silo(2)] by (simp add: ms(2) apply_stream_def)
  qed
qed

text \<open>A watch from the cursor of a snapshot has nothing to replay.\<close>

lemma nothing_after_snapshot:
  assumes "db_inv d"
  shows "events_after_locked p (gsr_seq (snapshot_of p d)) d = Inr []"
proof -
  have "e_seq e \<le> max_event_seq d" if "e \<in> set (events d)" for e using that by (auto simp: max_event_seq_def)
  then have "filter (\<lambda>e. max_event_seq d < ev_seq e) (project_log p d) = []" by (force simp: project_log_def filter_empty_conv)
  then show ?thesis using assms by (simp add: events_after_ok db_inv_def snapshot_of_def)
qed



text \<open>
  A replay is different: it sends the missed events without nodes, so a copy only loses nodes by it.
  A client that comes back after a gap has to take a new snapshot, resynchronisation asked for or not.
\<close>

lemma replay_tells_no_node:
  assumes "i \<notin> set (List.map_filter (deleted_id parse) evs)"
  shows "apply_stream parse (watch_replay from_seq (Inr evs)) V i = V i"
  using assms by (simp add: apply_stream_def watch_replay_def patch_def told_def deleted_ids_def Let_def)

section \<open>Edges that leave their project\<close>

text \<open>
  C13: Edges can leave their project. The protocol says that dependency edges never cross projects,
  but \<open>AddDependency\<close> accepts one: then an open node of the other project becomes blocked, its
  watchers hear nothing but heartbeats, for the notification carries the blocker's project, and no
  snapshot of any project shows the edge.
\<close>

theorem foreign_edge_untold:
  assumes "db_inv d" "write_op E (WAddDependency req) (idle d) = (Inr m, c')"
    and "ledger_hit d (n_project_id x) (idem_key (ad_meta req)) = None"
    and "find_node d (ad_blocker_id req) = Some x" "n_declared_status x \<noteq> ''DONE''"
    and "find_node d (ad_blocked_id req) = Some y" "node_status d y = ''READY''" "n_project_id x \<noteq> n_project_id y"
    and "undisturbed ts" "received ts = publish m"
  shows "node_status (live c') y = ''BLOCKED'' \<and>
    filter (\<lambda>r. \<not> wtr_heartbeat r) (watch_live (n_project_id y) ts) = [] \<and>
    (\<forall>p s. get_snapshot_locked p (live c') = Inr s \<longrightarrow>
      (ad_blocker_id req, ad_blocked_id req) \<notin> (\<lambda>e. (dy_blocker_id e, dy_blocked_id e)) ` set (gsr_dependencies s))"
  using assms(1,2) [unfolded write_op.simps]
proof (cases rule: add_dependency_outcome)
  case (retry seq)
  then show ?thesis using assms(3,4) by (simp add: edge_project_def)
next
  case (fresh d1 d')
  let ?a = "ad_blocker_id req" and ?b = "ad_blocked_id req"
  have same: "same_graph d1 d'" using fresh(3) by simp
  have nodes: "nodes d1 = nodes d" using insert_dependency_cases [OF fresh(2)] by auto
  have find: "find_node d' = find_node d"
    using same_graph_msg(1) [OF same] same_nodes_verifications [OF nodes] by simp
  have edge: "(?a, ?b) \<in> set (dep_edges d')"
    using insert_dependency_edge [OF fresh(2)] same by (simp add: same_graph_def dep_edges_def)
  have "x \<in> set (nodes d')" "n_id x = ?a" "n_id y = ?b"
    using find_node_SomeD [of d' ?a x] find_node_SomeD [of d' ?b y] assms(4,6) by (simp_all add: find)
  then have "\<exists>b \<in> set (nodes d'). (n_id b, n_id y) \<in> set (dep_edges d') \<and> n_declared_status b \<noteq> ''DONE''"
    using edge assms(5) by (intro bexI [of _ x]) simp_all
  then have blocked: "node_status d' y = ''BLOCKED''"
    using assms(7) by (simp add: node_status_def blocked_iff split: if_splits)
  have quiet: "filter (\<lambda>n. nt_project_id n = n_project_id y) (publish m) = []"
    using assms(8) by (cases "publish m") (auto simp: publish_def fresh(8) edge_project_def assms(4))
  have "\<not> (node_in_project p d' ?a \<and> node_in_project p d' ?b)" for p
    using assms(4,6,8) by (auto simp: node_in_project_def find)
  then show ?thesis
    using blocked quiet snapshot_ok [OF fresh(4)]
    by (auto simp: fresh(5) watch_live_forwards [OF assms(9)] assms(10) snapshot_of_def dependency_msg_def)
qed

text \<open>The example with a second project, whose work package the task \<open>a\<close> comes to block.\<close>

definition cross_db :: db where
  "cross_db = demo_db\<lparr>
     projects := projects demo_db @ [\<lparr>p_id = ''q'', p_name = ''other'', p_description = '''', p_archived_at = None,
       p_created_at = 90, p_updated_at = 90\<rparr>],
     nodes := nodes demo_db @ [(demo_node ''x'' None ''WORK_PACKAGE'' (Some ''PLANNED'') 0)\<lparr>n_project_id := ''q''\<rparr>]\<rparr>"

lemma cross_inv: "db_inv cross_db"
proof -
  have "keys_inv cross_db"
    by (simp add: keys_inv_def cross_db_def demo_db_def demo_node_def dep_edges_def)
  moreover have "hierarchy_inv cross_db"
    by (simp add: hierarchy_inv_def cross_db_def demo_db_def demo_node_def node_ok_def check_node_def kind_ok_def
      declared_ok_def wp_state_ok_def shape_ok_def project_ids_def kind_of_def find_node_def parent_kind_for_def)
  moreover have "\<forall>v \<in> set (verifications cross_db). verification_ok cross_db v"
    by (simp add: verification_ok_def cross_db_def demo_db_def demo_node_def node_ids_def check_verification_def)
  moreover have "deps_inv cross_db"
    using acyclic_edge [of "''a''" "''b''"]
    by (simp add: deps_inv_def dep_edges_def cross_db_def demo_db_def demo_node_def node_ids_def)
  moreover have "log_inv cross_db"
    by (simp add: log_inv_def cross_db_def demo_db_def demo_node_def event_ok_def max_seq_def event_kind_ok_def
      node_ids_def project_ids_def)
  ultimately show ?thesis by (simp add: db_inv_def)
qed

lemma foreign_edge_untold_witness:
  "let out = write_op demo_env (WAddDependency \<lparr>ad_meta = None, ad_blocker_id = ''a'', ad_blocked_id = ''x''\<rparr>) (idle cross_db);
       ts = (Ticks, True) # map (\<lambda>n. (Receives n, True)) (publish (projr (fst out))) in
   map_option (node_status (live (snd out))) (find_node cross_db ''x'') = Some ''BLOCKED'' \<and> length ts = 2 \<and>
   filter (\<lambda>r. \<not> wtr_heartbeat r) (watch_live ''q'' ts) = []"
proof -
  let ?req = "\<lparr>ad_meta = None, ad_blocker_id = ''a'', ad_blocked_id = ''x''\<rparr>"
  let ?out = "write_op demo_env (WAddDependency ?req) (idle cross_db)"
  let ?ns = "publish (projr (fst ?out))" let ?ts = "(Ticks, True) # map (\<lambda>n. (Receives n, True)) ?ns"
  let ?x = "demo_node ''a'' (Some ''w'') ''TASK'' None 100"
  let ?y = "(demo_node ''x'' None ''WORK_PACKAGE'' (Some ''PLANNED'') 0)\<lparr>n_project_id := ''q''\<rparr>"
  have "case ?out of (r, c) \<Rightarrow> \<not> isl r \<and> length (publish (projr r)) = 1" by code_simp
  then have run: "?out = (Inr (projr (fst ?out)), snd ?out)" and one: "length ?ns = 1"
    by (simp_all only: prod_eq_iff case_prod_beta fst_conv snd_conv sum.collapse simp_thms)
  have rows: "find_node cross_db (ad_blocker_id ?req) = Some ?x" "find_node cross_db (ad_blocked_id ?req) = Some ?y"
    "n_declared_status ?x \<noteq> ''DONE''" "node_status cross_db ?y = ''READY''" "n_project_id ?x \<noteq> n_project_id ?y" "n_project_id ?y = ''q''"
    by code_simp+
  have received: "received (map (\<lambda>n. (Receives n, True)) ns) = ns" for ns by (induction ns) simp_all
  have calm: "undisturbed ?ts" by (auto simp: undisturbed_def)
  have miss: "ledger_hit cross_db p (idem_key (ad_meta ?req)) = None" for p by (simp add: ledger_hit_def idem_key_def)
  have told: "received ?ts = ?ns" by (simp add: received)
  note result = foreign_edge_untold [OF cross_inv run miss rows(1,3,2,4,5) calm told]
  show ?thesis unfolding Let_def rows(2) [simplified] using result one by (simp only: rows(6) option.map list.size length_map) simp
qed

end
