(* ===== verification/Spec2Isabelle.thy ===== *)
theory Spec2Isabelle
  imports Session_Props Graph_Props Node_Props Feed_Props Undo_Props Read_Props Status_Props
    Liveness_Props Board_Props Watch_Props Grpc_Props Client_Props Bridge_Props Db_Props
    Move_Props Update_Props Review_Props Retry_Props Replica_Props Daemon_Props Search_Props Store_Trait
    Watch_Copy
begin

text \<open>
  FlowControl is a project tracker for humans and agents: a store of projects, work packages, tasks
  and steps over SQLite, served by a daemon over gRPC and, compiled to wasm, by JavaScript hosts.
  This development models the Rust part of the repository and proves what makes it correct.

  \<^bold>\<open>The program.\<close> \<open>flowcore\<close> holds the store: \<open>src/store.rs\<close> has one method per RPC, written against
  the seam \<open>src/sql.rs\<close> (values, rows, sessions, \<open>transaction\<close>), the errors of \<open>src/error.rs\<close> and the
  schema \<open>migrations/0001_initial_schema.sql\<close>, whose constraints and triggers do part of the work;
  \<open>src/db/mod.rs\<close> opens, migrates and seeds a file; \<open>src/generated\<close> has the protocol's messages and
  service stubs. \<open>flowd\<close> puts the store behind a lock and a blocking pool (\<open>src/store/mod.rs\<close>), tells
  watchers what changed (\<open>src/store/watch.rs\<close>) and answers gRPC (\<open>src/grpc/mod.rs\<close>). \<open>flowwasm\<close>
  (\<open>src/lib.rs\<close>) gives the same store a session whose SQL runs in a JavaScript host. \<open>flowd\<close>'s
  \<open>src/main.rs\<close> starts and stops the daemon. The parts meet in three places: \<open>SqliteStore::dispatch\<close>, the store's one entry for wasm hosts; the gRPC router,
  which calls the same methods; and the notifier between writes and watchers.

  \<^bold>\<open>Base.\<close> \<open>Prelude\<close>: i32 and i64 arithmetic with its wrap-around, strings, generic lemmas, the theorem
  collections. \<open>Json\<close>, \<open>Json_Code\<close>: JSON values, and a printer with its parser for the examples.
  \<open>Digraph\<close>: the two kinds of recursive SQL query as worklist functions with their termination
  proofs, and the locale \<open>reach_closure\<close> they provide. \<open>Proto\<close>: the messages and enums of
  \<open>flow.v1.rs\<close> as records and datatypes.

  \<^bold>\<open>Errors and the seam.\<close> \<open>Domain_Error\<close>: codes, constructors, the classification of message texts.
  \<open>Sql_Seam\<close>: values, rows and getters; a session is the live database and, inside a transaction, the
  one to return to; store code is a function from sessions to a result and a session, and
  \<open>transaction\<close> is written against the locale \<open>tx_driver\<close>, which the engine's \<open>BEGIN\<close>, \<open>COMMIT\<close> and
  \<open>ROLLBACK\<close> interpret. \<open>Schema\<close>: a record per row, the tables as lists, and each statement of the
  store with the checks, keys, triggers and cascades the engine runs for it. \<open>Schema_Inv\<close>: the
  invariant \<open>db_inv\<close> these enforce, kept by every statement. \<open>Session_Rules\<close>, \<open>Session_Order\<close>: how
  invariants and preorders pass from statements to programs (locale \<open>session_order\<close>, interpreted for
  the ledger, the event log, the projects and the declared statuses).

  \<^bold>\<open>The store.\<close> \<open>Store_Rows\<close> (codes and rows), \<open>Store_Queries\<close> (the free functions at the end of
  \<open>store.rs\<close>), \<open>Store_Reads\<close> (the six reads, with paging as the locale \<open>paged_log\<close> of \<open>Paged_Log\<close>),
  \<open>Store_Rules\<close> (safe bodies and operations), \<open>Store_Nodes\<close>, \<open>Store_Graph\<close>, \<open>Store_Review\<close>,
  \<open>Store_Undo\<close>, \<open>Store_Move\<close>, \<open>Store_Projects\<close> (the fourteen writes), \<open>Store_Dispatch\<close> (\<open>dispatch\<close>, the
  reachable sessions). \<open>Store_Reports\<close>: every new event is in the returned mutation; nothing runs inside
  an open transaction. \<open>Store_Settles\<close>: only a failed commit leaves one open. \<open>Graph_Runs\<close>: when writes
  succeed. \<open>Undo_Rules\<close>: what an undo finds. \<open>Board\<close>: the abstract specification of the graph.
  \<open>Replica\<close>: a client's copy of the nodes, how it applies a mutation, and for every write but \<open>Undo\<close>
  that the mutation tells all it needs. \<open>Silo\<close>: where no link crosses projects, a write changes what
  one project shows. \<open>Search_Index\<close>: what the triggers of the full-text index
  write to it for every statement on nodes.

  \<^bold>\<open>The edges.\<close> \<open>Native_Store\<close>: requests that commit, publish later and may be cancelled in between, as
  a step relation. \<open>Watch\<close>: the task behind the stream. \<open>Grpc\<close>: handlers, statuses, the generated
  router. \<open>Grpc_Client\<close>: the generated stubs over tonic's channel. \<open>Grpc_Service\<close>: the generated trait,
  server and settings as written, of which \<open>grpc_serve\<close> is the daemon's case. \<open>Store_Trait\<close>: the
  storage seam of the daemon, the handlers over any store, and the contract of a store as the
  locale \<open>store_seam\<close>, interpreted for the native one. \<open>Native_Driver\<close>: the native
  driver of the seam over an engine that is an argument, with lossy UTF-8. \<open>Wasm_Bridge\<close>: values,
  envelopes and errors across the JSON bridge. \<open>Db_Setup\<close>: opening and seeding. \<open>Daemon\<close>: from the command line to the bound socket, serving,
  signals and draining, and one file over many runs. \<open>Example\<close>:
  the environments and the small database the properties are applied to.

  \<^bold>\<open>What is shown.\<close> \<open>Session_Props\<close>: every reachable session satisfies the schema's invariant; a call
  that fails changes nothing durable; event numbers are never reused; the cursor of a snapshot
  misses nothing. \<open>Board_Props\<close>: the store refines the board. \<open>Liveness_Props\<close>: open work can always be
  finished in an order of ready nodes; a failed commit wedges the session for good. \<open>Graph_Props\<close>,
  \<open>Node_Props\<close>: derived statuses, effects, completeness of the reported changes, cycles, deletions.
  \<open>Update_Props\<close>, \<open>Move_Props\<close>: what an update and a move write. \<open>Review_Props\<close>: what a report and a
  verdict write, and that neither half of a review can be written by another method (locale
  \<open>session_order\<close>, interpreted for a half). \<open>Retry_Props\<close>: a write with a recorded key is done once.
  \<open>Replica_Props\<close>: a client that applies every mutation has the nodes a new snapshot would show, and
  an undo is the write that leaves its copy behind. \<open>Watch_Copy\<close>: the same for a watcher of one
  project, from its snapshot over the stream to the next snapshot, while projects are silos; and
  what happens when an edge leaves its project, which the store accepts.
  \<open>Status_Props\<close>: only status writes change a declared status; a node is created once. \<open>Undo_Props\<close>:
  what undo takes back. \<open>Read_Props\<close>, \<open>Feed_Props\<close>: snapshots are typed and total, pages bounded and
  complete, progress adds up. \<open>Watch_Props\<close>: an undisturbed watcher is told everything, a lagging one to
  resynchronise, and how publication outside the lock can lose an event on reconnection. \<open>Grpc_Props\<close>:
  the router answers as \<open>dispatch\<close> does. \<open>Client_Props\<close>: a call through the generated client
  gets the answer of its handler. \<open>Bridge_Props\<close>: rows read the same through both drivers;
  parameters and error codes survive the bridge. \<open>Db_Props\<close>: the seed is a
  database of the program; the migration ratchet. \<open>Daemon_Props\<close>: whatever happened to the daemons
  that used a file before, one that listens serves valid data; a start refused at its socket spends
  the seed. \<open>Search_Props\<close>: the index holds the present texts, given an order of triggers.

  \<^bold>\<open>Parameters.\<close> What is not in the repository is an argument: the record \<open>env\<close> has the clock and the
  randomness of SQL functions (each read once per operation), the engine's message texts, a failure
  of \<open>COMMIT\<close> and the JSON text format, used under \<open>json_codec\<close> (printed values are valid and parse
  back, as \<open>serde_json\<close> documents); \<open>codec\<close> is prost's wire format; \<open>fts\<close> gives the ids a full-text
  query matches, in rank order, and \<open>fts_run\<close> the contract FTS5 documents for an index whose content
  is another table; the turns of the watch loop are what tokio's channel and timer yield;
  the wasm host functions, the opening of a file and tonic's status for an undecodable message are
  arguments of the definitions that use them.

  \<^bold>\<open>Conventions.\<close> A string is the list of its UTF-8 bytes. Tables are in insertion order, which is the
  order of an unsorted query; a reader of \<open>ORDER BY\<close> sorts. Machine integers are integers with the wrap
  written out, as a release build computes. An \<open>f64\<close> is the text that denotes it. There is no fuel:
  the recursive queries are total by the measures in \<open>Digraph\<close>; the \<open>UNION ALL\<close> walk, which SQL lets
  run forever on a cycle, is partial, and an error that \<open>subtree_rows_ok\<close> shows unreachable stands
  for its divergence. A panic occurs only as the text \<open>offload\<close> reports.

  \<^bold>\<open>Not modelled.\<close> The tokenizer and the ranking of the full-text search; the pragmas and locking of
  SQLite, and the library the native driver calls; what tonic does with the settings of stubs and
  server (compression, message limits); the wire format of prost; the daemon's logging and its HTTP
  layers (grpc-web, CORS); capacity and memory of the broadcast channel other than the lag a watcher
  observes; what poisons the store's mutex; the Go, TypeScript and Svelte parts of the repository,
  which talk to the service.
\<close>

end
